(* ===== verification/Prelude.thy ===== *)
theory Prelude
  imports Complex_Main "HOL-Library.Char_ord" "HOL-Library.List_Lexorder"
begin

section \<open>Shared vocabulary: Python values, text, time, dictionaries\<close>

text \<open>
  What every component of the model uses. Python values that arrive as JSON are a
  \<open>datatype\<close>; a Python dictionary is an association list in insertion order with
  the update rules of \<open>dict\<close>; text is \<^typ>\<open>string\<close>, one \<open>char\<close> per
  code point of the Latin-1 range (longer code points are carried as their UTF-8 bytes);
  points in time are integers that count microseconds, the resolution of Python's
  \<open>datetime\<close>; floats are exact rationals, with the non-finite ones apart.
  The generic lemmas of this theory are simp rules or members of a named collection.
\<close>

named_theorems dict_simps \<open>lookups after updates of association lists\<close>
named_theorems store_simps \<open>lookups and frame rules of keyed stores of objects\<close>
named_theorems wf_intros \<open>well-formedness preserved by an operation\<close>

subsection \<open>Values\<close>

datatype pyfloat = Fin rat | PosInf | NegInf | NaN

datatype json =
    JNull
  | JBool bool
  | JInt int
  | JFloat pyfloat
  | JStr string
  | JList "json list"
  | JObj "(string \<times> json) list"

type_synonym dict = "(string \<times> json) list"
type_synonym uuid = nat
type_synonym time = int

text \<open>Comparison of floats: every comparison with NaN is false.\<close>

fun float_le :: "pyfloat \<Rightarrow> pyfloat \<Rightarrow> bool" where
  "float_le NaN y = False"
| "float_le x NaN = False"
| "float_le NegInf y = True"
| "float_le x PosInf = True"
| "float_le (Fin a) (Fin b) = (a \<le> b)"
| "float_le x y = False"

text \<open>Python's truth value of an object, \<open>bool(x)\<close>.\<close>

fun truthy :: "json \<Rightarrow> bool" where
  "truthy JNull = False"
| "truthy (JBool b) = b"
| "truthy (JInt i) = (i \<noteq> 0)"
| "truthy (JFloat f) = (f \<noteq> Fin 0)"
| "truthy (JStr s) = (s \<noteq> [])"
| "truthy (JList xs) = (xs \<noteq> [])"
| "truthy (JObj d) = (d \<noteq> [])"

subsection \<open>Dictionaries in insertion order\<close>

definition dget :: "('k \<times> 'v) list \<Rightarrow> 'k \<Rightarrow> 'v option" where
  "dget d k = map_of d k"

fun dput :: "'k \<Rightarrow> 'v \<Rightarrow> ('k \<times> 'v) list \<Rightarrow> ('k \<times> 'v) list" where
  "dput k v [] = [(k, v)]"
| "dput k v ((k', v') # d) = (if k' = k then (k, v) # d else (k', v') # dput k v d)"

definition dpop :: "'k \<Rightarrow> ('k \<times> 'v) list \<Rightarrow> ('k \<times> 'v) list" where
  "dpop k d = filter (\<lambda>p. fst p \<noteq> k) d"

definition dmem :: "'k \<Rightarrow> ('k \<times> 'v) list \<Rightarrow> bool" where
  "dmem k d \<longleftrightarrow> k \<in> fst ` set d"

text \<open>\<open>d.values()\<close>, read key by key.\<close>

definition dvalues :: "('k \<times> 'v) list \<Rightarrow> 'v list" where
  "dvalues d = map (\<lambda>k. the (dget d k)) (map fst d)"

text \<open>\<open>{**d, **e}\<close>: the entries of \<open>e\<close> written over \<open>d\<close>, one by one.\<close>

definition dmerge :: "('k \<times> 'v) list \<Rightarrow> ('k \<times> 'v) list \<Rightarrow> ('k \<times> 'v) list" where
  "dmerge d e = fold (\<lambda>(k, v) d. dput k v d) e d"

lemma dget_Nil [simp]: "dget [] k = None"
  by (simp add: dget_def)

lemma dget_Cons [simp]: "dget ((k', v) # d) k = (if k' = k then Some v else dget d k)"
  by (simp add: dget_def)

lemma dget_dput [dict_simps, simp]: "dget (dput k v d) k' = (if k' = k then Some v else dget d k')"
  by (induction k v d rule: dput.induct) auto

lemma dget_dpop [dict_simps, simp]: "dget (dpop k d) k' = (if k' = k then None else dget d k')"
  by (induction d) (auto simp: dpop_def)

lemma dmem_iff_dget: "dmem k d \<longleftrightarrow> dget d k \<noteq> None"
  by (simp add: dmem_def dget_def map_of_eq_None_iff)

lemma dget_None_iff: "dget d k = None \<longleftrightarrow> k \<notin> fst ` set d"
  by (simp add: dget_def map_of_eq_None_iff)

lemma dget_key: "k \<in> fst ` set d \<Longrightarrow> \<exists>v. dget d k = Some v"
  by (metis dget_None_iff not_None_eq)

lemma keys_dput: "fst ` set (dput k v d) = insert k (fst ` set d)"
  by (induction k v d rule: dput.induct) auto

lemma distinct_dput [wf_intros, simp]: "distinct (map fst d) \<Longrightarrow> distinct (map fst (dput k v d))"
  by (induction k v d rule: dput.induct)
    (auto simp: keys_dput simp flip: set_map, simp add: keys_dput)

lemma distinct_dpop [wf_intros, simp]: "distinct (map fst d) \<Longrightarrow> distinct (map fst (dpop k d))"
  by (simp add: dpop_def distinct_map_filter)

lemma dget_set: "distinct (map fst d) \<Longrightarrow> dget d k = Some v \<longleftrightarrow> (k, v) \<in> set d"
  by (simp add: dget_def)

lemma dget_SomeD: "dget d k = Some v \<Longrightarrow> (k, v) \<in> set d"
  by (simp add: dget_def map_of_SomeD)

lemma dput_present: "dget d k \<noteq> None \<Longrightarrow> map fst (dput k v d) = map fst d"
  by (induction k v d rule: dput.induct) (auto split: if_splits)

lemma dvalues_distinct: "distinct (map fst d) \<Longrightarrow> dvalues d = map snd d"
  by (auto simp: dvalues_def dget_def)

lemma dput_absent: "dget d k = None \<Longrightarrow> dput k v d = d @ [(k, v)]"
  by (induction k v d rule: dput.induct) (auto split: if_splits)

subsection \<open>Objects held in a dictionary, updated in place\<close>

text \<open>
  A mutation of an object that a dictionary holds (\<open>job = self._jobs[id]; job.x = v\<close>)
  changes the entry of that key and no other.
\<close>

definition dupd :: "'k \<Rightarrow> ('v \<Rightarrow> 'v) \<Rightarrow> ('k \<times> 'v) list \<Rightarrow> ('k \<times> 'v) list" where
  "dupd k f d = map (\<lambda>(k', v). (k', if k' = k then f v else v)) d"

lemma dget_dupd [store_simps, simp]:
  "dget (dupd k f d) k' = (if k' = k then map_option f (dget d k) else dget d k')"
  by (induction d) (auto simp: dupd_def)

lemma keys_dupd [store_simps, simp]: "map fst (dupd k f d) = map fst d"
  by (induction d) (auto simp: dupd_def)

lemma dupd_Nil [simp]: "dupd k f [] = []"
  by (simp add: dupd_def)

lemma dupd_Cons [simp]:
  "dupd k f ((k', v) # d) = (k', if k' = k then f v else v) # dupd k f d"
  by (simp add: dupd_def)

lemma dupd_append [simp]: "dupd k f (d @ e) = dupd k f d @ dupd k f e"
  by (simp add: dupd_def)

lemma dupd_absent: "dget d k = None \<Longrightarrow> dupd k f d = d"
  by (induction d) (auto split: if_splits)

lemma set_dupd: "set (dupd k f d) = (\<lambda>(k', v). (k', if k' = k then f v else v)) ` set d"
  by (simp add: dupd_def)

text \<open>Counting the objects with a property, \<open>sum(1 for j in d.values() if p(j))\<close>.\<close>

definition dcount :: "('v \<Rightarrow> bool) \<Rightarrow> ('k \<times> 'v) list \<Rightarrow> nat" where
  "dcount p d = length (filter p (map snd d))"

lemma dcount_Nil [simp]: "dcount p [] = 0"
  by (simp add: dcount_def)

lemma dcount_Cons [simp]: "dcount p (kv # d) = (if p (snd kv) then Suc (dcount p d) else dcount p d)"
  by (simp add: dcount_def)

lemma dcount_append [simp]: "dcount p (d @ e) = dcount p d + dcount p e"
  by (simp add: dcount_def)

lemma dcount_dupd_same:
  assumes "\<And>v. dget d k = Some v \<Longrightarrow> p (f v) = p v" and "distinct (map fst d)"
  shows "dcount p (dupd k f d) = dcount p d"
  using assms
proof (induction d)
  case Nil
  then show ?case by simp
next
  case (Cons kv d)
  obtain k' v where kv: "kv = (k', v)" by force
  show ?case
  proof (cases "k' = k")
    case True
    with Cons.prems kv have "dget d k = None"
      by (auto simp: dget_def map_of_eq_None_iff)
    with True Cons.prems kv show ?thesis by (simp add: dupd_absent)
  next
    case False
    with Cons kv show ?thesis by simp
  qed
qed

lemma dcount_dupd_in:
  assumes "dget d k = Some v" "p (f v)" "\<not> p v" "distinct (map fst d)"
  shows "dcount p (dupd k f d) = Suc (dcount p d)"
  using assms
proof (induction d)
  case Nil
  then show ?case by simp
next
  case (Cons kv d)
  obtain k' w where kv: "kv = (k', w)" by force
  show ?case
  proof (cases "k' = k")
    case True
    with Cons.prems kv have "dget d k = None"
      by (auto simp: dget_def map_of_eq_None_iff)
    with True Cons.prems kv show ?thesis by (simp add: dupd_absent)
  next
    case False
    with Cons kv show ?thesis by simp
  qed
qed

lemma dcount_le_mono: "(\<And>v. p v \<Longrightarrow> q v) \<Longrightarrow> dcount p d \<le> dcount q d"
  by (induction d) auto

subsection \<open>Text\<close>

definition is_space :: "char \<Rightarrow> bool" where
  "is_space c \<longleftrightarrow> (let n = of_char c :: nat in
     (9 \<le> n \<and> n \<le> 13) \<or> (28 \<le> n \<and> n \<le> 32) \<or> n = 133 \<or> n = 160)"

definition py_strip :: "string \<Rightarrow> string" where
  "py_strip s = rev (dropWhile is_space (rev (dropWhile is_space s)))"

text \<open>\<open>s.partition(sep)\<close> for a one-character separator: the text before it, whether it
  was found, the text after it.\<close>

definition py_partition :: "char \<Rightarrow> string \<Rightarrow> string \<times> bool \<times> string" where
  "py_partition c s = (takeWhile (\<lambda>x. x \<noteq> c) s, c \<in> set s, drop 1 (dropWhile (\<lambda>x. x \<noteq> c) s))"

fun py_split :: "char \<Rightarrow> string \<Rightarrow> string list" where
  "py_split c [] = [[]]"
| "py_split c (x # xs) =
     (if x = c then [] # py_split c xs
      else (case py_split c xs of [] \<Rightarrow> [[x]] | p # ps \<Rightarrow> (x # p) # ps))"

fun py_join :: "string \<Rightarrow> string list \<Rightarrow> string" where
  "py_join sep [] = []"
| "py_join sep [x] = x"
| "py_join sep (x # xs) = x @ sep @ py_join sep xs"

text \<open>\<open>s[:n]\<close>; a negative bound counts from the end.\<close>

definition py_take :: "int \<Rightarrow> 'a list \<Rightarrow> 'a list" where
  "py_take n s = (if 0 \<le> n then take (nat n) s else take (length s - nat (- n)) s)"

fun starts_with :: "string \<Rightarrow> string \<Rightarrow> bool" where
  "starts_with [] s = True"
| "starts_with (p # ps) [] = False"
| "starts_with (p # ps) (x # xs) = (p = x \<and> starts_with ps xs)"

text \<open>\<open>s.replace(old, new)\<close> for a non-empty \<open>old\<close>: leftmost occurrences, none overlapping.\<close>

function py_replace :: "string \<Rightarrow> string \<Rightarrow> string \<Rightarrow> string" where
  "py_replace old new [] = []"
| "py_replace old new (c # s) =
     (if old \<noteq> [] \<and> starts_with old (c # s) then new @ py_replace old new (drop (length old) (c # s))
      else c # py_replace old new s)"
  by pat_completeness auto
termination
  by (relation "measure (\<lambda>(old, new, s). length s)") (auto simp: neq_Nil_conv)

lemma starts_with_append [simp]: "starts_with p (p @ s)"
  by (induction p) auto

lemma starts_with_refl [simp]: "starts_with p p"
  by (induction p) auto

lemma py_partition_found [simp]:
  "c \<notin> set a \<Longrightarrow> py_partition c (a @ c # b) = (a, True, b)"
  by (auto simp: py_partition_def takeWhile_append dropWhile_append)

lemma dropWhile_idem2: "dropWhile p (rev (dropWhile p (rev (dropWhile p s)))) =
  rev (dropWhile p (rev (dropWhile p s)))"
proof (cases "dropWhile p s")
  case Nil
  then show ?thesis by (simp only: Nil list.simps rev.simps dropWhile.simps)
next
  case (Cons x xs)
  then have "\<not> p x" by (metis dropWhile_eq_Cons_conv)
  then have "rev (dropWhile p (rev (x # xs))) = x # rev (dropWhile p (rev xs))"
    by (simp add: dropWhile_append1 dropWhile_append) 
  with Cons \<open>\<not> p x\<close> show ?thesis by simp
qed

lemma py_strip_idem [simp]: "py_strip (py_strip s) = py_strip s"
  by (simp add: py_strip_def dropWhile_idem2)

subsubsection \<open>Decimal numbers\<close>

definition digit_char :: "nat \<Rightarrow> char" where
  "digit_char d = char_of (48 + d)"

definition is_digit :: "char \<Rightarrow> bool" where
  "is_digit c \<longleftrightarrow> 48 \<le> (of_char c :: nat) \<and> (of_char c :: nat) \<le> 57"

definition digit_val :: "char \<Rightarrow> nat" where
  "digit_val c = of_char c - 48"

fun nat_str :: "nat \<Rightarrow> string" where
  "nat_str n = (if n < 10 then [digit_char n] else nat_str (n div 10) @ [digit_char (n mod 10)])"

declare nat_str.simps [simp del]

definition int_str :: "int \<Rightarrow> string" where
  "int_str i = (if i < 0 then ''-'' @ nat_str (nat (- i)) else nat_str (nat i))"

text \<open>The digits of Python's integer literals: single underscores between digits.\<close>

fun parse_digits :: "string \<Rightarrow> nat \<Rightarrow> bool \<Rightarrow> nat option" where
  "parse_digits [] acc after_digit = (if after_digit then Some acc else None)"
| "parse_digits (c # cs) acc after_digit =
     (if is_digit c then parse_digits cs (10 * acc + digit_val c) True
      else if c = CHR ''_'' \<and> after_digit then parse_digits cs acc False
      else None)"

definition split_sign :: "string \<Rightarrow> int \<times> string" where
  "split_sign s = (case s of
     c # cs \<Rightarrow> if c = CHR ''-'' then (-1, cs) else if c = CHR ''+'' then (1, cs) else (1, s)
   | [] \<Rightarrow> (1, s))"

text \<open>\<open>int(s)\<close> for a string; \<open>None\<close> is the \<open>ValueError\<close>.\<close>

definition parse_int :: "string \<Rightarrow> int option" where
  "parse_int s = (let (sg, ds) = split_sign (py_strip s)
     in map_option (\<lambda>n. sg * int n) (parse_digits ds 0 False))"

text \<open>\<open>float(s)\<close> for a string; \<open>None\<close> is the \<open>ValueError\<close>. The value is exact:
  the rounding of a long literal to the nearest double is not modelled.\<close>

definition to_lower :: "char \<Rightarrow> char" where
  "to_lower c = (let n = of_char c :: nat in if 65 \<le> n \<and> n \<le> 90 then char_of (n + 32) else c)"

definition opt_digits :: "string \<Rightarrow> nat option" where
  "opt_digits s = (if s = [] then Some 0 else parse_digits s 0 False)"

definition pow10 :: "int \<Rightarrow> rat" where
  "pow10 e = (if 0 \<le> e then 10 ^ nat e else 1 / 10 ^ nat (- e))"

definition parse_decimal :: "string \<Rightarrow> rat option" where
  "parse_decimal s = (let (m, has_e, e) = py_partition (CHR ''e'') s;
       (ip, dot, fp) = py_partition (CHR ''.'') m;
       ex = (if has_e then (let (sg, ds) = split_sign e
              in map_option (\<lambda>n. sg * int n) (parse_digits ds 0 False)) else Some 0)
     in if ip = [] \<and> fp = [] then None
        else case (opt_digits ip, opt_digits fp, ex) of
          (Some i, Some f, Some x) \<Rightarrow>
            Some ((of_nat i + of_nat f * pow10 (- int (length (filter is_digit fp)))) * pow10 x)
        | _ \<Rightarrow> None)"

text \<open>What rounds beyond the largest finite double becomes an infinity.\<close>

definition float_limit :: rat where
  "float_limit = 2 ^ 1024 - 2 ^ 970"

definition float_of_rat :: "rat \<Rightarrow> pyfloat" where
  "float_of_rat q = (if q \<ge> float_limit then PosInf else if q \<le> - float_limit then NegInf else Fin q)"

definition parse_float :: "string \<Rightarrow> pyfloat option" where
  "parse_float s = (let (sg, r) = split_sign (py_strip s); l = map to_lower r
     in if l = ''inf'' \<or> l = ''infinity'' then Some (if sg < 0 then NegInf else PosInf)
        else if l = ''nan'' then Some NaN
        else map_option (\<lambda>q. float_of_rat (of_int sg * q)) (parse_decimal l))"

lemma of_char_digit: "d < 10 \<Longrightarrow> (of_char (digit_char d) :: nat) = 48 + d"
  by (simp add: digit_char_def)

lemma is_digit_digit_char [simp]: "d < 10 \<Longrightarrow> is_digit (digit_char d)"
  by (simp add: is_digit_def of_char_digit)

lemma digit_val_digit_char [simp]: "d < 10 \<Longrightarrow> digit_val (digit_char d) = d"
  by (simp add: digit_val_def of_char_digit)

lemma nat_str_digits: "\<forall>c \<in> set (nat_str n). is_digit c"
proof (induction n rule: nat_str.induct)
  case (1 n)
  then show ?case by (subst nat_str.simps) auto
qed

lemma nat_str_nonempty [simp]: "nat_str n \<noteq> []"
  by (subst nat_str.simps) simp

lemma parse_digits_append:
  "\<forall>c \<in> set xs. is_digit c \<Longrightarrow> xs \<noteq> [] \<Longrightarrow>
   parse_digits (xs @ ys) a b = parse_digits ys (foldl (\<lambda>a c. 10 * a + digit_val c) a xs) True"
  by (induction xs arbitrary: a b) (auto, metis append_Nil foldl_Nil list.exhaust)

lemma foldl_nat_str: "foldl (\<lambda>a c. 10 * a + digit_val c) 0 (nat_str n) = n"
proof (induction n rule: nat_str.induct)
  case (1 n)
  then show ?case by (subst nat_str.simps) auto
qed

lemma parse_digits_nat_str [simp]: "parse_digits (nat_str n) 0 False = Some n"
  using parse_digits_append [OF nat_str_digits, of n "[]" 0 False] by (simp add: foldl_nat_str)

lemma is_digit_not_space: "is_digit c \<Longrightarrow> \<not> is_space c"
  by (auto simp: is_digit_def is_space_def Let_def)

lemma py_strip_no_space: "\<forall>c \<in> set s. \<not> is_space c \<Longrightarrow> py_strip s = s"
  by (metis dropWhile_eq_self_iff list.set_sel(1) py_strip_def rev_rev_ident set_rev)

lemma nat_str_hd_not_sign: "nat_str n = c # cs \<Longrightarrow> c \<noteq> CHR ''-'' \<and> c \<noteq> CHR ''+''"
  using nat_str_digits [of n] by (auto simp: is_digit_def)

lemma parse_int_nat_str [simp]: "parse_int (nat_str n) = Some (int n)"
proof -
  have "py_strip (nat_str n) = nat_str n"
    using nat_str_digits is_digit_not_space by (blast intro: py_strip_no_space)
  moreover have "split_sign (nat_str n) = (1, nat_str n)"
    using nat_str_hd_not_sign [of n] by (auto simp: split_sign_def split: list.split)
  ultimately show ?thesis by (simp add: parse_int_def)
qed

lemma colon_notin_nat_str [simp]: "CHR '':'' \<notin> set (nat_str n)"
  using nat_str_digits [of n] by (auto simp: is_digit_def)

subsection \<open>\<open>str(x)\<close>\<close>

text \<open>
  \<open>str\<close> of the JSON values whose text is fixed by the language; for floats and for
  containers the text is that of the interpreter's \<open>repr\<close>, the parameter \<open>rp\<close>.
\<close>

fun py_str :: "(json \<Rightarrow> string) \<Rightarrow> json \<Rightarrow> string" where
  "py_str rp (JStr s) = s"
| "py_str rp JNull = ''None''"
| "py_str rp (JBool b) = (if b then ''True'' else ''False'')"
| "py_str rp (JInt i) = int_str i"
| "py_str rp j = rp j"

subsection \<open>\<open>int(x)\<close> and \<open>float(x)\<close>\<close>

text \<open>The outcome of a conversion: the value, \<open>TypeError\<close>/\<open>ValueError\<close>, or \<open>OverflowError\<close>.\<close>

datatype 'a conv = Conv 'a | BadValue | Overflows

definition truncate_rat :: "rat \<Rightarrow> int" where
  "truncate_rat q = (if 0 \<le> q then \<lfloor>q\<rfloor> else \<lceil>q\<rceil>)"

fun py_int :: "json \<Rightarrow> int conv" where
  "py_int (JInt i) = Conv i"
| "py_int (JBool b) = Conv (if b then 1 else 0)"
| "py_int (JFloat (Fin q)) = Conv (truncate_rat q)"
| "py_int (JFloat NaN) = BadValue"
| "py_int (JFloat PosInf) = Overflows"
| "py_int (JFloat NegInf) = Overflows"
| "py_int (JStr s) = (case parse_int s of Some i \<Rightarrow> Conv i | None \<Rightarrow> BadValue)"
| "py_int j = BadValue"

fun py_float :: "json \<Rightarrow> pyfloat conv" where
  "py_float (JInt i) = (case float_of_rat (of_int i) of Fin q \<Rightarrow> Conv (Fin q) | _ \<Rightarrow> Overflows)"
| "py_float (JBool b) = Conv (Fin (if b then 1 else 0))"
| "py_float (JFloat f) = Conv f"
| "py_float (JStr s) = (case parse_float s of Some f \<Rightarrow> Conv f | None \<Rightarrow> BadValue)"
| "py_float j = BadValue"

subsection \<open>Time\<close>

text \<open>\<open>timedelta(seconds=s)\<close> in microseconds, rounded half to even.\<close>

definition round_half_even :: "rat \<Rightarrow> int" where
  "round_half_even x = (let f = \<lfloor>x\<rfloor>; r = x - of_int f in
     if r < 1 / 2 then f else if r > 1 / 2 then f + 1 else if even f then f else f + 1)"

definition timedelta_us :: "rat \<Rightarrow> int" where
  "timedelta_us s = round_half_even (s * 1000000)"

lemma round_half_even_of_int [simp]: "round_half_even (of_int i) = i"
  by (simp add: round_half_even_def)

lemma round_half_even_bounds:
  "of_int (round_half_even x) \<ge> x - 1 / 2" "of_int (round_half_even x) \<le> x + 1 / 2"
  using floor_correct [of x] by (simp_all add: round_half_even_def Let_def; linarith)+

lemma round_half_even_nonneg: "0 \<le> x \<Longrightarrow> 0 \<le> round_half_even x"
  by (simp add: round_half_even_def Let_def)

lemma timedelta_us_nonneg [simp]: "0 \<le> s \<Longrightarrow> 0 \<le> timedelta_us s"
  by (simp add: timedelta_us_def round_half_even_nonneg)

subsection \<open>Stable sorting\<close>

lemma sort_key_filter_stable: "filter p (sort_key f xs) = sort_key f (filter p xs)"
  by (simp add: filter_sort)

lemma set_take_subset_sort: "set (take n (sort_key f xs)) \<subseteq> set xs"
  by (metis set_sort set_take_subset)

lemma distinct_map_sort_filter:
  "distinct (map f xs) \<Longrightarrow> distinct (map f (sort_key g (filter p xs)))"
  by (auto simp: distinct_map intro: inj_on_subset)

lemma find_in: "find p xs = Some x \<Longrightarrow> x \<in> set xs \<and> p x"
  by (auto simp: find_Some_iff)

lemma list_all2_in: "list_all2 p xs ys \<Longrightarrow> y \<in> set ys \<Longrightarrow> \<exists>x \<in> set xs. p x y"
  by (induction rule: list_all2_induct) auto

end
