(* ===== verification/Job_State.thy ===== *)
theory Job_State
  imports Prelude
begin

section \<open>The job state machine (domain/jobs/state_machine.py, ownership.py)\<close>

text \<open>
  The values of \<open>generation_jobs.state\<close>, the map of allowed transitions and the two
  decisions built on it: \<open>can_transition\<close> and \<open>request_cancel\<close>. The state column
  is a string in the code, so any other text is carried by \<open>OtherState\<close>.
\<close>

subsection \<open>States and transitions\<close>

datatype job_state =
    Queued | Admitted | Dispatched | Running | RetryWait
  | Cancelling | Cancelled | Succeeded | Failed
  | OtherState string

text \<open>The text of a state, as the column and the JSON responses hold it.\<close>

fun state_str :: "job_state \<Rightarrow> string" where
  "state_str Queued = ''queued''"
| "state_str Admitted = ''admitted''"
| "state_str Dispatched = ''dispatched''"
| "state_str Running = ''running''"
| "state_str RetryWait = ''retry_wait''"
| "state_str Cancelling = ''cancelling''"
| "state_str Cancelled = ''cancelled''"
| "state_str Succeeded = ''succeeded''"
| "state_str Failed = ''failed''"
| "state_str (OtherState s) = s"

definition TERMINAL_STATES :: "job_state list" where
  "TERMINAL_STATES = [Cancelled, Succeeded, Failed]"

fun ALLOWED_TRANSITIONS :: "job_state \<Rightarrow> job_state list" where
  "ALLOWED_TRANSITIONS Queued = [Admitted, Cancelled, Failed]"
| "ALLOWED_TRANSITIONS Admitted = [Dispatched, Cancelled, Failed]"
| "ALLOWED_TRANSITIONS Dispatched = [Running, Cancelling, Failed, RetryWait]"
| "ALLOWED_TRANSITIONS Running = [Succeeded, RetryWait, Cancelling, Failed]"
| "ALLOWED_TRANSITIONS RetryWait = [Queued, Failed, Cancelled]"
| "ALLOWED_TRANSITIONS Cancelling = [Cancelled, Failed]"
| "ALLOWED_TRANSITIONS Cancelled = []"
| "ALLOWED_TRANSITIONS Succeeded = []"
| "ALLOWED_TRANSITIONS Failed = []"
| "ALLOWED_TRANSITIONS (OtherState s) = []"

datatype state_error = IllegalTransitionError job_state string

definition is_terminal :: "job_state \<Rightarrow> bool" where
  "is_terminal s \<longleftrightarrow> s \<in> set TERMINAL_STATES"

definition can_transition :: "job_state \<Rightarrow> job_state \<Rightarrow> bool" where
  "can_transition from_state to_state \<longleftrightarrow>
     (if is_terminal from_state then False else to_state \<in> set (ALLOWED_TRANSITIONS from_state))"

definition assert_transition :: "job_state \<Rightarrow> job_state \<Rightarrow> state_error + unit" where
  "assert_transition from_state to_state =
     (if \<not> can_transition from_state to_state
      then Inl (IllegalTransitionError from_state (state_str to_state)) else Inr ())"

record cancel_result =
  already_terminal :: bool
  new_state :: "job_state option"

definition request_cancel :: "job_state \<Rightarrow> state_error + cancel_result" where
  "request_cancel current_state =
     (if is_terminal current_state then Inr \<lparr>already_terminal = True, new_state = None\<rparr>
      else if current_state \<in> set [Queued, Admitted]
        then Inr \<lparr>already_terminal = False, new_state = Some Cancelled\<rparr>
      else if current_state \<in> set [Dispatched, Running]
        then Inr \<lparr>already_terminal = False, new_state = Some Cancelling\<rparr>
      else if current_state = RetryWait
        then Inr \<lparr>already_terminal = False, new_state = Some Cancelled\<rparr>
      else if current_state = Cancelling
        then Inr \<lparr>already_terminal = False, new_state = None\<rparr>
      else Inl (IllegalTransitionError current_state ''cancel''))"

subsection \<open>Ownership guard\<close>

datatype owner_error = NotOwnerError

definition assert_owner :: "string \<Rightarrow> string \<Rightarrow> owner_error + unit" where
  "assert_owner resource_owner authenticated =
     (if resource_owner \<noteq> authenticated then Inl NotOwnerError else Inr ())"

subsection \<open>Library lemmas\<close>

lemma is_terminal_simps [simp]:
  "is_terminal Cancelled" "is_terminal Succeeded" "is_terminal Failed"
  "\<not> is_terminal Queued" "\<not> is_terminal Admitted" "\<not> is_terminal Dispatched"
  "\<not> is_terminal Running" "\<not> is_terminal RetryWait" "\<not> is_terminal Cancelling"
  "\<not> is_terminal (OtherState s)"
  by (simp_all add: is_terminal_def TERMINAL_STATES_def)

lemma is_terminal_iff: "is_terminal s \<longleftrightarrow> s = Cancelled \<or> s = Succeeded \<or> s = Failed"
  by (simp add: is_terminal_def TERMINAL_STATES_def)

text \<open>A life of a job through the map: the reflexive-transitive closure of legal moves.\<close>

inductive lifecycle :: "job_state \<Rightarrow> job_state \<Rightarrow> bool" where
  lifecycle_refl: "lifecycle s s"
| lifecycle_step: "lifecycle s t \<Longrightarrow> can_transition t u \<Longrightarrow> lifecycle s u"

lemma lifecycle_trans: "lifecycle s t \<Longrightarrow> lifecycle t u \<Longrightarrow> lifecycle s u"
  by (rotate_tac, induction rule: lifecycle.induct) (auto intro: lifecycle_step)

lemma can_transition_known: "can_transition s t \<Longrightarrow> (\<nexists>x. s = OtherState x) \<and> (\<nexists>x. t = OtherState x)"
  by (cases s) (auto simp: can_transition_def)

lemma lifecycle_terminal: "lifecycle s t \<Longrightarrow> is_terminal s \<Longrightarrow> t = s"
  by (induction rule: lifecycle.induct) (auto simp: can_transition_def)

lemma lifecycle_known: "lifecycle s t \<Longrightarrow> (\<nexists>x. s = OtherState x) \<Longrightarrow> (\<nexists>x. t = OtherState x)"
  by (induction rule: lifecycle.induct) (auto dest: can_transition_known)

lemma lifecycle_one: "can_transition s t \<Longrightarrow> lifecycle s t"
  by (blast intro: lifecycle.intros)

lemma lifecycle_main_path:
  "lifecycle Queued Admitted" "lifecycle Queued Dispatched" "lifecycle Queued Running"
  "lifecycle Queued RetryWait" "lifecycle Queued Cancelling" "lifecycle Queued Cancelled"
  "lifecycle Queued Succeeded" "lifecycle Queued Failed"
proof -
  have step: "can_transition Queued Admitted" "can_transition Admitted Dispatched"
    "can_transition Dispatched Running" "can_transition Running RetryWait"
    "can_transition Running Cancelling" "can_transition Cancelling Cancelled"
    "can_transition Running Succeeded" "can_transition Running Failed"
    by (simp_all add: can_transition_def)
  show A: "lifecycle Queued Admitted" using step by (blast intro: lifecycle_one)
  show D: "lifecycle Queued Dispatched" by (rule lifecycle_step [OF A step(2)])
  show R: "lifecycle Queued Running" by (rule lifecycle_step [OF D step(3)])
  show "lifecycle Queued RetryWait" by (rule lifecycle_step [OF R step(4)])
  show C: "lifecycle Queued Cancelling" by (rule lifecycle_step [OF R step(5)])
  show "lifecycle Queued Cancelled" by (rule lifecycle_step [OF C step(6)])
  show "lifecycle Queued Succeeded" by (rule lifecycle_step [OF R step(7)])
  show "lifecycle Queued Failed" by (rule lifecycle_step [OF R step(8)])
qed

lemma lifecycle_to_end: "(\<nexists>x. s = OtherState x) \<Longrightarrow> \<exists>t. is_terminal t \<and> lifecycle s t"
proof -
  assume known: "\<nexists>x. s = OtherState x"
  have "can_transition s Failed \<or> is_terminal s"
    using known by (cases s) (simp_all add: can_transition_def)
  then show ?thesis
  proof
    assume "can_transition s Failed"
    then show ?thesis by (intro exI [of _ Failed]) (simp add: lifecycle_one)
  next
    assume "is_terminal s"
    then show ?thesis by (intro exI [of _ s]) (simp add: lifecycle_refl)
  qed
qed

subsection \<open>Properties\<close>

text \<open>The transition map is sound as a life cycle: a queued job can reach exactly the nine named
  states, the terminal ones are exactly those that nothing follows, and from every named state a
  terminal one can still be reached, so no legal history of a job is stuck.\<close>

theorem lifecycle_complete:
  "(lifecycle Queued t \<longleftrightarrow> (\<nexists>x. t = OtherState x)) \<and>
   ((\<nexists>u. can_transition t u) \<longleftrightarrow> is_terminal t \<or> (\<exists>x. t = OtherState x)) \<and>
   ((\<nexists>x. t = OtherState x) \<longrightarrow> (\<exists>u. is_terminal u \<and> lifecycle t u))"
proof (intro conjI)
  show "lifecycle Queued t \<longleftrightarrow> (\<nexists>x. t = OtherState x)"
    using lifecycle_known [of Queued t] lifecycle_main_path by (cases t) (auto intro: lifecycle_refl)
  have "(\<nexists>u. can_transition t u) = (ALLOWED_TRANSITIONS t = [] \<or> is_terminal t)"
    by (cases "ALLOWED_TRANSITIONS t") (auto simp: can_transition_def)
  then show "(\<nexists>u. can_transition t u) \<longleftrightarrow> is_terminal t \<or> (\<exists>x. t = OtherState x)"
    by (cases t) simp_all
  show "(\<nexists>x. t = OtherState x) \<longrightarrow> (\<exists>u. is_terminal u \<and> lifecycle t u)"
    using lifecycle_to_end by blast
qed

theorem lifecycle_complete_witness: "\<exists>u. is_terminal u \<and> lifecycle Cancelling u"
  using lifecycle_complete [of Cancelling] by simp

text \<open>A cancellation request is total on the named states, asks only for moves the map allows,
  towards \<open>cancelled\<close>, and is idempotent: repeated on the state it asked for, it changes nothing.\<close>

theorem cancel_request_legal_and_idempotent:
  assumes "\<nexists>x. s = OtherState x"
  shows "\<exists>r. request_cancel s = Inr r \<and> already_terminal r = is_terminal s \<and>
    (case new_state r of
       None \<Rightarrow> is_terminal s \<or> s = Cancelling
     | Some t \<Rightarrow> can_transition s t \<and> lifecycle t Cancelled \<and>
         (\<exists>r2. request_cancel t = Inr r2 \<and> new_state r2 = None))"
proof -
  have "lifecycle Cancelling Cancelled" by (rule lifecycle_one) (simp add: can_transition_def)
  with assms show ?thesis
    by (cases s) (simp_all add: request_cancel_def can_transition_def lifecycle_refl)
qed

theorem cancel_request_legal_and_idempotent_witness:
  "\<exists>r. request_cancel Running = Inr r \<and> \<not> already_terminal r"
  using cancel_request_legal_and_idempotent [of Running] by auto

end
