(* ===== verification/Fairness.thy ===== *)
theory Fairness
  imports Prelude
begin

section \<open>Priority aging and fair visiting order (domain/jobs/fairness.py)\<close>

text \<open>
  \<open>effective_priority\<close> over exact rationals and \<open>weighted_round_robin_order\<close> with its
  two nested loops. The claim key of the job queues (higher effective priority first, then the
  earlier \<open>queued_at\<close>) is a type of its own in the class \<open>linorder\<close>, so that Python's
  stable \<open>sorted(..., key=...)\<close> is \<open>sort_key\<close>.
\<close>

subsection \<open>Definitions\<close>

definition PRIORITY_TIERS :: "(string \<times> int) list" where
  "PRIORITY_TIERS = [(''low'', 0), (''normal'', 10), (''high'', 20), (''urgent'', 30)]"

text \<open>Both datetimes are read as UTC: a naive one gets that time zone.\<close>

definition effective_priority :: "int \<Rightarrow> time \<Rightarrow> time \<Rightarrow> rat \<Rightarrow> rat" where
  "effective_priority base_priority queued_at now aging_increment_per_minute =
     (let age_minutes = max 0 (of_int (now - queued_at) / 1000000 / 60)
      in of_int base_priority + age_minutes * aging_increment_per_minute)"

text \<open>One pass of the inner \<open>for\<close> loop over the users of \<open>sorted(remaining)\<close>.\<close>

fun wrr_pass :: "'u list \<Rightarrow> ('u \<times> int) list \<Rightarrow> 'u list \<Rightarrow> ('u \<times> int) list \<times> 'u list" where
  "wrr_pass [] remaining order = (remaining, order)"
| "wrr_pass (user_id # us) remaining order =
     (case dget remaining user_id of
        Some v \<Rightarrow> (if 0 < v then wrr_pass us (dput user_id (v - 1) remaining) (order @ [user_id])
                   else wrr_pass us remaining order)
      | None \<Rightarrow> wrr_pass us remaining order)"

text \<open>The number of turns a user still has; the measure of the outer loop is their sum.\<close>

definition depth :: "('u \<times> int) list \<Rightarrow> 'u \<Rightarrow> nat" where
  "depth d u = (case dget d u of Some v \<Rightarrow> nat v | None \<Rightarrow> 0)"

definition total_depth :: "('u \<times> int) list \<Rightarrow> nat" where
  "total_depth d = (\<Sum>u \<in> fst ` set d. depth d u)"

lemma depth_dput: "depth (dput u v d) w = (if w = u then nat v else depth d w)"
  by (simp add: depth_def)

lemma wrr_pass_eq:
  "distinct us \<Longrightarrow> set us \<subseteq> fst ` set d \<Longrightarrow> wrr_pass us d o1 = (d', o2) \<Longrightarrow>
    o2 = o1 @ filter (\<lambda>u. 0 < depth d u) us \<and> map fst d' = map fst d \<and>
    depth d' = (\<lambda>u. if u \<in> set us then depth d u - 1 else depth d u)"
proof (induction us d o1 rule: wrr_pass.induct)
  case (1 r ord)
  then show ?case by simp
next
  case (2 u us r ord)
  from "2.prems"(2) obtain v where v: "dget r u = Some v" by (metis dget_key list.set_intros(1) subsetD)
  show ?case
  proof (cases "0 < v")
    case True
    from v have k: "map fst (dput u (v - 1) r) = map fst r" by (simp add: dput_present)
    then have k': "fst ` set (dput u (v - 1) r) = fst ` set r" by (metis list.set_map)
    have f: "filter (\<lambda>w. 0 < depth (dput u (v - 1) r) w) us = filter (\<lambda>w. 0 < depth r w) us"
      using "2.prems"(1) by (intro filter_cong) (auto simp: depth_dput)
    from "2.IH"(2) [OF v True] "2.prems" v True k k'
    show ?thesis unfolding f by (auto simp: depth_dput fun_eq_iff) (auto simp: depth_def)
  next
    case False
    with "2.IH"(3) [OF v False] "2.prems" v
    show ?thesis by (auto simp: fun_eq_iff) (auto simp: depth_def)
  qed
qed

text \<open>\<open>sorted(remaining)\<close>: the keys in order; \<open>any(v > 0 ...)\<close> guards the outer loop.\<close>

definition wrr_users :: "('u :: linorder \<times> int) list \<Rightarrow> 'u list" where
  "wrr_users remaining = sort (remdups (map fst remaining))"

definition wrr_any :: "('u \<times> int) list \<Rightarrow> bool" where
  "wrr_any remaining = list_ex (\<lambda>v. 0 < v) (dvalues remaining)"

lemma wrr_users_distinct [simp]: "distinct (wrr_users d)"
  by (simp add: wrr_users_def)

lemma set_wrr_users [simp]: "set (wrr_users d) = fst ` set d"
  by (simp add: wrr_users_def)

lemma wrr_any_iff: "wrr_any d \<longleftrightarrow> (\<exists>u \<in> fst ` set d. 0 < depth d u)"
proof -
  have "0 < the (dget d u) \<longleftrightarrow> 0 < depth d u" if "u \<in> fst ` set d" for u
    using dget_key [OF that] by (auto simp: depth_def)
  then show ?thesis by (simp add: wrr_any_def list_ex_iff dvalues_def)
qed

lemma total_depth_pass:
  assumes "wrr_any d" and "wrr_pass (wrr_users d) d o1 = (d', o2)"
  shows "total_depth d' < total_depth d"
proof -
  from wrr_pass_eq [OF wrr_users_distinct _ assms(2)]
  have k: "map fst d' = map fst d"
    and dp: "depth d' = (\<lambda>u. if u \<in> fst ` set d then depth d u - 1 else depth d u)" by simp_all
  from k have k': "fst ` set d' = fst ` set d" by (metis list.set_map)
  from assms(1) obtain u where u: "u \<in> fst ` set d" "0 < depth d u" unfolding wrr_any_iff by blast
  from u have "\<exists>u \<in> fst ` set d. depth d' u < depth d u" by (intro bexI [of _ u]) (simp_all add: dp)
  then show ?thesis unfolding total_depth_def k' by (intro sum_strict_mono_ex1) (simp_all add: dp)
qed

function wrr_loop :: "('u :: linorder \<times> int) list \<Rightarrow> 'u list \<Rightarrow> 'u list" where
  "wrr_loop remaining order =
     (if wrr_any remaining
      then (case wrr_pass (wrr_users remaining) remaining order of (remaining', order') \<Rightarrow>
              wrr_loop remaining' order')
      else order)"
  by pat_completeness auto
termination
  by (relation "measure (\<lambda>(d, _). total_depth d)") (auto dest: total_depth_pass split: prod.splits)

declare wrr_loop.simps [simp del]

definition weighted_round_robin_order :: "('u :: linorder \<times> int) list \<Rightarrow> 'u list" where
  "weighted_round_robin_order user_queue_depths = wrr_loop user_queue_depths []"

subsection \<open>The rounds of the visiting order\<close>

text \<open>Round \<open>i\<close> visits, in key order, the users that have more than \<open>i\<close> jobs.\<close>

definition wrr_rounds :: "('u :: linorder \<times> int) list \<Rightarrow> nat \<Rightarrow> 'u list" where
  "wrr_rounds d n = concat (map (\<lambda>i. filter (\<lambda>u. i < depth d u) (wrr_users d)) [0..<n])"

lemma wrr_rounds_Suc: "wrr_rounds d (Suc n) = wrr_rounds d n @ filter (\<lambda>u. n < depth d u) (wrr_users d)"
  by (simp add: wrr_rounds_def)

lemma wrr_rounds_shift:
  assumes "wrr_users d' = wrr_users d" and "\<And>u. u \<in> fst ` set d \<Longrightarrow> depth d' u = depth d u - 1"
  shows "filter (\<lambda>u. 0 < depth d u) (wrr_users d) @ wrr_rounds d' n = wrr_rounds d (Suc n)"
proof (induction n)
  case 0
  then show ?case by (simp add: wrr_rounds_def)
next
  case (Suc n)
  have "filter (\<lambda>u. n < depth d' u) (wrr_users d) = filter (\<lambda>u. Suc n < depth d u) (wrr_users d)"
    by (intro filter_cong) (auto simp: assms(2))
  with Suc show ?case by (simp add: wrr_rounds_Suc assms(1))
qed

lemma wrr_rounds_none: "\<not> wrr_any d \<Longrightarrow> wrr_rounds d n = []"
  by (auto simp: wrr_rounds_def wrr_any_iff filter_empty_conv)

text \<open>The loop is the concatenation of its rounds, for any number of rounds that covers them.\<close>

lemma wrr_loop_rounds:
  "\<forall>u \<in> fst ` set d. depth d u \<le> n \<Longrightarrow> wrr_loop d ord = ord @ wrr_rounds d n"
proof (induction d ord arbitrary: n rule: wrr_loop.induct)
  case (1 d ord)
  show ?case
  proof (cases "wrr_any d")
    case False
    then show ?thesis by (simp add: wrr_loop.simps [of d] wrr_rounds_none)
  next
    case True
    obtain d' o2 where p: "wrr_pass (wrr_users d) d ord = (d', o2)" by force
    from wrr_pass_eq [OF wrr_users_distinct _ p]
    have o2: "o2 = ord @ filter (\<lambda>u. 0 < depth d u) (wrr_users d)" and k: "map fst d' = map fst d"
      and dp: "\<And>u. u \<in> fst ` set d \<Longrightarrow> depth d' u = depth d u - 1" by simp_all
    from k have ke: "fst ` set d' = fst ` set d" and us: "wrr_users d' = wrr_users d"
      by (metis list.set_map) (simp add: wrr_users_def k)
    from True "1.prems" obtain m where m: "n = Suc m" by (cases n) (auto simp: wrr_any_iff)
    with "1.prems" have "\<forall>u \<in> fst ` set d'. depth d' u \<le> m" by (auto simp: ke dp)
    from "1.IH" [OF True p [symmetric] this] have "wrr_loop d' o2 = o2 @ wrr_rounds d' m" .
    with True p o2 wrr_rounds_shift [OF us dp, where n = m] m show ?thesis
      by (simp add: wrr_loop.simps [of d])
  qed
qed

lemma weighted_round_robin_rounds:
  "weighted_round_robin_order d = wrr_rounds d (total_depth d)"
proof -
  have "\<forall>u \<in> fst ` set d. depth d u \<le> total_depth d"
    unfolding total_depth_def by (intro ballI member_le_sum) simp_all
  then show ?thesis by (simp add: weighted_round_robin_order_def wrr_loop_rounds)
qed

lemma depth_outside: "u \<notin> fst ` set d \<Longrightarrow> depth d u = 0"
  by (simp add: depth_def dget_None_iff [symmetric])

lemma count_list_filter_distinct:
  "distinct xs \<Longrightarrow> count_list (filter p xs) u = (if p u \<and> u \<in> set xs then 1 else 0)"
  by (induction xs) auto

lemma count_wrr_rounds: "count_list (wrr_rounds d n) u = min n (depth d u)"
  by (induction n) (auto simp: wrr_rounds_Suc count_list_filter_distinct depth_outside
      wrr_rounds_def [of d 0])

lemma wrr_rounds_prefix:
  "wrr_rounds d n = p @ q \<Longrightarrow>
    \<exists>i. \<forall>u. min i (depth d u) \<le> count_list p u \<and> count_list p u \<le> min (Suc i) (depth d u)"
proof (induction n arbitrary: q)
  case 0
  then show ?case by (intro exI [of _ 0]) (simp add: wrr_rounds_def)
next
  case (Suc n)
  let ?r = "filter (\<lambda>u. n < depth d u) (wrr_users d)"
  from Suc.prems have "wrr_rounds d n @ ?r = p @ q" by (simp add: wrr_rounds_Suc)
  then consider q' where "wrr_rounds d n = p @ q'" | p' where "p = wrr_rounds d n @ p'" "?r = p' @ q"
    by (metis append_eq_append_conv2)
  then show ?case
  proof cases
    case 1
    then show ?thesis by (rule Suc.IH)
  next
    case 2
    have le: "count_list p' u \<le> (if n < depth d u then 1 else 0)" for u
      using arg_cong [OF 2(2), of "\<lambda>l. count_list l u"]
      by (simp add: count_list_filter_distinct split: if_splits)
    then have "min n (depth d u) \<le> count_list p u \<and> count_list p u \<le> min (Suc n) (depth d u)" for u
      unfolding 2(1) using count_wrr_rounds [of d n u] le [of u]
      by (cases "n < depth d u") simp_all
    then show ?thesis by blast
  qed
qed

subsection \<open>The claim key\<close>

text \<open>
  \<open>(-effective_priority, queued_at)\<close>, compared as Python compares tuples: a job with the
  smaller key is claimed first.
\<close>

datatype claim_key = Claim_Key (key_priority: rat) (key_queued_at: time)

instantiation claim_key :: linorder
begin

definition less_eq_claim_key :: "claim_key \<Rightarrow> claim_key \<Rightarrow> bool" where
  "less_eq_claim_key a b \<longleftrightarrow> key_priority b < key_priority a \<or>
     (key_priority a = key_priority b \<and> key_queued_at a \<le> key_queued_at b)"

definition less_claim_key :: "claim_key \<Rightarrow> claim_key \<Rightarrow> bool" where
  "less_claim_key a b \<longleftrightarrow> key_priority b < key_priority a \<or>
     (key_priority a = key_priority b \<and> key_queued_at a < key_queued_at b)"

instance
proof
  fix a b c :: claim_key
  show "(a < b) = (a \<le> b \<and> \<not> b \<le> a)" by (auto simp: less_eq_claim_key_def less_claim_key_def)
  show "a \<le> a" by (simp add: less_eq_claim_key_def)
  show "a \<le> b \<Longrightarrow> b \<le> c \<Longrightarrow> a \<le> c" by (auto simp: less_eq_claim_key_def)
  show "a \<le> b \<Longrightarrow> b \<le> a \<Longrightarrow> a = b" by (cases a; cases b) (auto simp: less_eq_claim_key_def)
  show "a \<le> b \<or> b \<le> a" by (auto simp: less_eq_claim_key_def)
qed

end

lemma claim_key_le [simp]:
  "Claim_Key p q \<le> Claim_Key p' q' \<longleftrightarrow> p' < p \<or> (p = p' \<and> q \<le> q')"
  by (simp add: less_eq_claim_key_def)

subsection \<open>Properties\<close>

text \<open>The visiting order serves every user exactly as often as the user has queued jobs, and
  no one else: the loop ends with the whole backlog visited.\<close>

theorem wrr_serves_every_job:
  "count_list (weighted_round_robin_order d) u = depth d u"
proof (cases "u \<in> fst ` set d")
  case True
  then have "depth d u \<le> total_depth d" unfolding total_depth_def by (intro member_le_sum) simp_all
  then show ?thesis by (simp add: weighted_round_robin_rounds count_wrr_rounds)
qed (simp add: weighted_round_robin_rounds count_wrr_rounds depth_outside)

text \<open>C5. Fairness at every moment: as long as a user \<open>w\<close> still waits for a turn, no other
  user is more than one turn ahead of \<open>w\<close>; nobody's backlog is drained first.\<close>

theorem wrr_fair_prefix:
  assumes "weighted_round_robin_order d = p @ q" and "count_list p w < depth d w"
  shows "count_list p u \<le> Suc (count_list p w)"
proof -
  from assms(1) obtain i where
    i: "\<forall>u. min i (depth d u) \<le> count_list p u \<and> count_list p u \<le> min (Suc i) (depth d u)"
    unfolding weighted_round_robin_rounds using wrr_rounds_prefix by blast
  from i assms(2) have "i \<le> count_list p w" by (metis leD min_def)
  moreover from i have "count_list p u \<le> Suc i" by simp
  ultimately show ?thesis by simp
qed

theorem wrr_fair_prefix_witness:
  "count_list [1, 2, 1] (1::nat) \<le> Suc (count_list [1, 2, 1] (2::nat))"
proof (rule wrr_fair_prefix [where d = "[(2, 2), (1, 3)]" and q = "[2, 1]"])
  show "weighted_round_robin_order [(2, 2), (1, 3)] = [1, 2, 1] @ [2, 1::nat]"
    by code_simp
qed (simp add: depth_def)

text \<open>Aging: once two jobs are both in the queue, their order by effective priority no longer
  changes as time passes, and a job that has waited long enough for its static priority gap is
  ahead of every later one of a given tier, for all later times.\<close>

theorem aging_order_is_final:
  assumes "q1 \<le> now" and "q2 \<le> now"
  shows "effective_priority b2 q2 now r \<le> effective_priority b1 q1 now r \<longleftrightarrow>
     of_int (b2 - b1) \<le> r * of_int (q2 - q1) / 60000000"
proof -
  have eq: "effective_priority b q now r = of_int b + (r * of_int now - r * of_int q) / 60000000"
    if "q \<le> now" for b q
    using that by (simp add: effective_priority_def Let_def max_def algebra_simps)
  show ?thesis unfolding eq [OF assms(1)] eq [OF assms(2)] of_int_diff right_diff_distrib diff_divide_distrib
    by (rule iffI) linarith+
qed

theorem aging_order_is_final_witness:
  "effective_priority 30 (41 * 60000000) (90 * 60000000) (1/2)
     \<le> effective_priority 10 0 (90 * 60000000) (1/2)"
  by (subst aging_order_is_final) simp_all

end
