(* ===== verification/Job_Queue.thy ===== *)
theory Job_Queue
  imports Job_State Fairness
begin

section \<open>Jobs and the JobQueue port (adapters/queue/__init__.py)\<close>

text \<open>
  The job record every component passes around, the predicates the queries of the code repeat,
  the \<open>JobQueue\<close> protocol as a record of operations over an abstract store, and its contract
  as the locale \<open>job_queue\<close>. The clients (admission, scheduler, reconciler, API) take the record
  of operations; the adapters give it. Every operation that reads the clock takes the reading
  \<open>now\<close>, and the one that draws the backoff jitter takes the draw.
\<close>

subsection \<open>QueuedJob\<close>

record queued_job =
  j_id :: uuid
  j_user_id :: uuid
  j_kind :: string
  j_state :: job_state
  j_priority :: int
  j_effective_priority :: rat
  j_input_payload :: dict
  j_idempotency_key :: string
  j_queued_at :: time
  j_current_attempt :: int
  j_max_attempts :: int
  j_assigned_worker_id :: "uuid option"
  j_error_code :: "string option"
  j_error_detail :: "string option"
  j_result :: "dict option"
  j_lease_owner :: "string option"
  j_lease_expires_at :: "time option"
  j_prompt_id :: "string option"
  j_conversation_id :: "uuid option"
  j_available_at :: "time option"

text \<open>A job as the code constructs it, with the defaults of the dataclass.\<close>

definition new_queued_job ::
  "uuid \<Rightarrow> uuid \<Rightarrow> string \<Rightarrow> job_state \<Rightarrow> int \<Rightarrow> rat \<Rightarrow> dict \<Rightarrow> string \<Rightarrow> time \<Rightarrow> uuid option \<Rightarrow> queued_job" where
  "new_queued_job jid uid kd st pr ep payload ikey qat conv =
     \<lparr>j_id = jid, j_user_id = uid, j_kind = kd, j_state = st, j_priority = pr,
      j_effective_priority = ep, j_input_payload = payload, j_idempotency_key = ikey,
      j_queued_at = qat, j_current_attempt = 0, j_max_attempts = 3, j_assigned_worker_id = None,
      j_error_code = None, j_error_detail = None, j_result = None, j_lease_owner = None,
      j_lease_expires_at = None, j_prompt_id = None, j_conversation_id = conv,
      j_available_at = None\<rparr>"

definition is_backlog :: "queued_job \<Rightarrow> bool" where
  "is_backlog j \<longleftrightarrow> j_state j \<in> {Queued, RetryWait}"

definition is_active :: "queued_job \<Rightarrow> bool" where
  "is_active j \<longleftrightarrow> j_state j \<in> {Dispatched, Running}"

definition kind_in :: "string list option \<Rightarrow> queued_job \<Rightarrow> bool" where
  "kind_in kinds j \<longleftrightarrow> (case kinds of None \<Rightarrow> True | Some ks \<Rightarrow> j_kind j \<in> set ks)"

text \<open>The fields that no operation of a queue changes.\<close>

definition same_job :: "queued_job \<Rightarrow> queued_job \<Rightarrow> bool" where
  "same_job a b \<longleftrightarrow> j_id a = j_id b \<and> j_user_id a = j_user_id b \<and> j_kind a = j_kind b \<and>
     j_priority a = j_priority b \<and> j_input_payload a = j_input_payload b \<and>
     j_idempotency_key a = j_idempotency_key b \<and> j_queued_at a = j_queued_at b \<and>
     j_max_attempts a = j_max_attempts b"

lemma same_job_refl [simp]: "same_job j j"
  by (simp add: same_job_def)

lemma same_job_trans: "same_job a b \<Longrightarrow> same_job b c \<Longrightarrow> same_job a c"
  by (simp add: same_job_def)

lemma backlog_not_active [simp]: "is_backlog j \<Longrightarrow> \<not> is_active j"
  by (auto simp: is_backlog_def is_active_def)

lemma backlog_not_terminal [simp]: "is_backlog j \<Longrightarrow> \<not> is_terminal (j_state j)"
  by (auto simp: is_backlog_def)

lemma active_not_terminal [simp]: "is_active j \<Longrightarrow> \<not> is_terminal (j_state j)"
  by (auto simp: is_active_def)

lemma kind_in_same_job: "same_job a b \<Longrightarrow> kind_in ks a = kind_in ks b"
  by (simp add: same_job_def kind_in_def split: option.split)

subsection \<open>The port\<close>

datatype queue_error = Integrity_Error | Unresolvable_Kind string

record 'q job_queue_port =
  jq_enqueue :: "time \<Rightarrow> queued_job \<Rightarrow> 'q \<Rightarrow> queue_error + 'q"
  jq_get :: "uuid \<Rightarrow> 'q \<Rightarrow> queued_job option"
  jq_claim_with_lease ::
    "time \<Rightarrow> int \<Rightarrow> string \<Rightarrow> rat \<Rightarrow> string list option \<Rightarrow> int \<Rightarrow> 'q \<Rightarrow> 'q \<times> queued_job list"
  jq_list_active :: "'q \<Rightarrow> queued_job list"
  jq_count_active :: "string list option \<Rightarrow> 'q \<Rightarrow> nat"
  jq_renew_lease :: "time \<Rightarrow> uuid \<Rightarrow> rat \<Rightarrow> 'q \<Rightarrow> 'q"
  jq_mark_running :: "time \<Rightarrow> uuid \<Rightarrow> 'q \<Rightarrow> 'q"
  jq_mark_succeeded :: "time \<Rightarrow> uuid \<Rightarrow> dict \<Rightarrow> 'q \<Rightarrow> 'q"
  jq_mark_failed :: "time \<Rightarrow> uuid \<Rightarrow> string \<Rightarrow> string option \<Rightarrow> 'q \<Rightarrow> 'q"
  jq_mark_retry_wait ::
    "time \<Rightarrow> rat \<Rightarrow> uuid \<Rightarrow> string \<Rightarrow> string option \<Rightarrow> rat option \<Rightarrow> 'q \<Rightarrow> 'q"
  jq_set_prompt_id :: "uuid \<Rightarrow> string \<Rightarrow> 'q \<Rightarrow> 'q"
  jq_cancel :: "time \<Rightarrow> uuid \<Rightarrow> 'q \<Rightarrow> 'q \<times> bool"
  jq_find_by_idempotency_key :: "uuid \<Rightarrow> string \<Rightarrow> string \<Rightarrow> 'q \<Rightarrow> queued_job option"
  jq_count_user_backlog :: "uuid \<Rightarrow> 'q \<Rightarrow> nat"
  jq_count_conversation_backlog :: "uuid \<Rightarrow> 'q \<Rightarrow> nat"
  jq_count_global_backlog :: "'q \<Rightarrow> nat"
  jq_count_backlog_for_kinds :: "string list option \<Rightarrow> 'q \<Rightarrow> nat"
  jq_queue_rank :: "time \<Rightarrow> uuid \<Rightarrow> string list option \<Rightarrow> 'q \<Rightarrow> nat option"

text \<open>How many visible jobs of a store have a property.\<close>

definition jobs_with :: "(uuid \<Rightarrow> queued_job option) \<Rightarrow> (queued_job \<Rightarrow> bool) \<Rightarrow> uuid set" where
  "jobs_with look p = {i. \<exists>j. look i = Some j \<and> p j}"

lemma jobs_with_dget: "distinct (map fst d) \<Longrightarrow> card (jobs_with (dget d) p) = dcount p d"
proof (induction d)
  case Nil
  then show ?case by (simp add: jobs_with_def)
next
  case (Cons kv d)
  obtain k v where kv: "kv = (k, v)" by force
  from Cons.prems kv have new: "dget d k = None" by (simp add: dget_None_iff)
  have fin: "finite (jobs_with (dget d) p)"
    by (rule finite_subset [of _ "fst ` set d"]) (auto simp: jobs_with_def dest!: dget_SomeD intro: rev_image_eqI)
  have eq: "jobs_with (dget (kv # d)) p = (if p v then insert k (jobs_with (dget d) p) else jobs_with (dget d) p)"
    using new kv by (auto simp: jobs_with_def)
  have "k \<notin> jobs_with (dget d) p" using new by (simp add: jobs_with_def)
  with Cons kv fin show ?case unfolding eq by simp
qed

lemma finite_dom_dget [simp]: "finite (dom (dget d))"
proof -
  have "dget d = map_of d" by (simp add: dget_def fun_eq_iff)
  then show ?thesis by (simp add: finite_dom_map_of)
qed

lemma jobs_with_subset_dom: "jobs_with look p \<subseteq> dom look"
  by (auto simp: jobs_with_def)

lemma jobs_with_mono: "(\<And>j. p j \<Longrightarrow> q j) \<Longrightarrow> jobs_with look p \<subseteq> jobs_with look q"
  by (auto simp: jobs_with_def)

subsection \<open>Fair selection\<close>

text \<open>
  The abstract claim: walk the candidates in claim order, skip a user that is at the per-user
  cap, stop when the capacity is used up. Both adapters implement it, each in its own way.
\<close>

definition bump :: "(uuid \<Rightarrow> int) \<Rightarrow> uuid \<Rightarrow> uuid \<Rightarrow> int" where
  "bump cnt u = cnt(u := cnt u + 1)"

lemma bump_apply: "bump cnt u v = (if v = u then cnt v + 1 else cnt v)"
  by (simp add: bump_def)

fun pick :: "('a \<Rightarrow> uuid) \<Rightarrow> int \<Rightarrow> int \<Rightarrow> (uuid \<Rightarrow> int) \<Rightarrow> 'a list \<Rightarrow> 'a list" where
  "pick us cap maxa cnt [] = []"
| "pick us cap maxa cnt (j # js) =
     (if cap \<le> 0 then []
      else if 0 < maxa \<and> maxa \<le> cnt (us j) then pick us cap maxa cnt js
      else j # pick us (cap - 1) maxa (bump cnt (us j)) js)"

definition user_jobs :: "('a \<Rightarrow> uuid) \<Rightarrow> uuid \<Rightarrow> 'a list \<Rightarrow> int" where
  "user_jobs us u js = int (length (filter (\<lambda>j. us j = u) js))"

lemma user_jobs_simps [simp]:
  "user_jobs us u [] = 0"
  "user_jobs us u (j # js) = (if us j = u then 1 + user_jobs us u js else user_jobs us u js)"
  by (simp_all add: user_jobs_def)

lemma user_jobs_nonneg [simp]: "0 \<le> user_jobs us u js"
  by (simp add: user_jobs_def)

lemma set_pick: "set (pick us cap maxa cnt js) \<subseteq> set js"
  by (induction us cap maxa cnt js rule: pick.induct) auto

lemma length_pick: "length (pick us cap maxa cnt js) \<le> nat cap"
proof (induction us cap maxa cnt js rule: pick.induct)
  case (2 us cap maxa cnt j js)
  show ?case
  proof (cases "cap \<le> 0")
    case False
    then have "nat cap = Suc (nat (cap - 1))" by simp
    with 2 False show ?thesis by simp
  qed simp
qed simp

lemma pick_subset: "x \<in> set (pick us cap maxa cnt js) \<Longrightarrow> x \<in> set js"
  by (rule subsetD [OF set_pick])

lemma distinct_pick: "distinct (map f js) \<Longrightarrow> distinct (map f (pick us cap maxa cnt js))"
proof (induction us cap maxa cnt js rule: pick.induct)
  case (2 us cap maxa cnt j js)
  then show ?case by (auto dest: pick_subset)
qed simp

lemma sorted_pick: "sorted (map f js) \<Longrightarrow> sorted (map f (pick us cap maxa cnt js))"
proof (induction us cap maxa cnt js rule: pick.induct)
  case (2 us cap maxa cnt j js)
  then show ?case by (auto dest: pick_subset)
qed simp

lemma pick_uncapped: "maxa \<le> 0 \<Longrightarrow> pick us cap maxa cnt js = take (nat cap) js"
proof (induction us cap maxa cnt js rule: pick.induct)
  case (2 us cap maxa cnt j js)
  show ?case
  proof (cases "cap \<le> 0")
    case False
    then have "nat cap = Suc (nat (cap - 1))" by simp
    with 2 False show ?thesis by simp
  qed simp
qed simp

lemma pick_user_cap:
  "0 < maxa \<Longrightarrow> cnt u + user_jobs us u (pick us cap maxa cnt js) \<le> max (cnt u) maxa"
proof (induction us cap maxa cnt js rule: pick.induct)
  case (2 us cap maxa cnt j js)
  consider "cap \<le> 0" | "0 < cap" "maxa \<le> cnt (us j)" | "0 < cap" "cnt (us j) < maxa" by linarith
  then show ?case
  proof cases
    case 3
    with 2 have "bump cnt (us j) u + user_jobs us u (pick us (cap - 1) maxa (bump cnt (us j)) js)
        \<le> max (bump cnt (us j) u) maxa" by simp
    with 3 show ?thesis by (cases "u = us j") (simp_all add: bump_apply)
  qed (use 2 in simp_all)
qed simp

lemma pick_conserving:
  "length (pick us cap maxa cnt js) < nat cap \<Longrightarrow> x \<in> set js \<Longrightarrow> x \<notin> set (pick us cap maxa cnt js) \<Longrightarrow>
    0 < maxa \<and> maxa \<le> cnt (us x) + user_jobs us (us x) (pick us cap maxa cnt js)"
proof (induction us cap maxa cnt js rule: pick.induct)
  case (2 us cap maxa cnt j js)
  from "2.prems"(1) have cap: "0 < cap" by auto
  show ?case
  proof (cases "0 < maxa \<and> maxa \<le> cnt (us j)")
    case True
    with 2 cap show ?thesis by (cases "x = j") (simp_all add: add_increasing2)
  next
    case False
    with cap "2.prems" have "x \<in> set js"
      "x \<notin> set (pick us (cap - 1) maxa (bump cnt (us j)) js)"
      "length (pick us (cap - 1) maxa (bump cnt (us j)) js) < nat (cap - 1)" by auto
    with False cap "2.IH"(2) have "0 < maxa \<and> maxa \<le> bump cnt (us j) (us x) +
        user_jobs us (us x) (pick us (cap - 1) maxa (bump cnt (us j)) js)" by simp
    with False cap show ?thesis by (cases "us x = us j") (simp_all add: bump_apply)
  qed
qed simp

lemma pick_in_order:
  "sorted (map f js) \<Longrightarrow> x \<in> set js \<Longrightarrow> x \<notin> set (pick us cap maxa cnt js) \<Longrightarrow>
    (maxa \<le> 0 \<or> cnt (us x) + user_jobs us (us x) (pick us cap maxa cnt js) < maxa) \<Longrightarrow>
    y \<in> set (pick us cap maxa cnt js) \<Longrightarrow> f y \<le> f x"
proof (induction us cap maxa cnt js rule: pick.induct)
  case (2 us cap maxa cnt j js)
  from "2.prems"(5) have cap: "0 < cap" by (cases "cap \<le> 0") auto
  show ?case
  proof (cases "0 < maxa \<and> maxa \<le> cnt (us j)")
    case True
    with "2.prems"(4) cap have "cnt (us x) < maxa" using user_jobs_nonneg
      by (metis add_increasing2 linorder_not_le)
    with True have "x \<noteq> j" by auto
    with True cap 2 show ?thesis by simp
  next
    case False
    let ?p = "pick us (cap - 1) maxa (bump cnt (us j)) js"
    from False cap "2.prems"(2,3) have x: "x \<in> set js" "x \<notin> set ?p" by auto
    from False cap "2.prems"(4) have
      "maxa \<le> 0 \<or> bump cnt (us j) (us x) + user_jobs us (us x) ?p < maxa"
      by (cases "us x = us j") (auto simp: bump_apply)
    with False cap x "2.IH"(2) "2.prems"(1,5) show ?thesis by auto
  qed
qed simp

lemma pick_no_capacity [simp]: "cap \<le> 0 \<Longrightarrow> pick us cap maxa cnt xs = []"
  by (cases xs) simp_all

text \<open>The selection, one job at a time: the first candidate whose user is below the cap.\<close>

lemma pick_unfold:
  "0 < maxa \<Longrightarrow> 0 < cap \<Longrightarrow> pick us cap maxa cnt xs =
     (case filter (\<lambda>r. cnt (us r) < maxa) xs of [] \<Rightarrow> []
      | r # _ \<Rightarrow> r # pick us (cap - 1) maxa (bump cnt (us r)) (remove1 r xs))"
proof (induction xs)
  case (Cons x xs)
  show ?case
  proof (cases "cnt (us x) < maxa")
    case False
    show ?thesis
    proof (cases "filter (\<lambda>r. cnt (us r) < maxa) xs")
      case (Cons r rs)
      then have "r \<in> set (filter (\<lambda>r. cnt (us r) < maxa) xs)" by simp
      then have "cnt (us r) < maxa" by simp
      with False have "x \<noteq> r" by auto
      moreover have "maxa \<le> bump cnt (us r) (us x)" using False by (auto simp: bump_apply)
      ultimately show ?thesis using Cons Cons.IH Cons.prems False by simp
    qed (use Cons False in simp)
  qed (use Cons in simp)
qed simp

subsection \<open>Histories of a queue\<close>

text \<open>The operations that change a queue, as values, and the runs they make. A job is only
  enqueued under an id the queue does not hold (the callers draw a fresh UUID).\<close>

datatype queue_op =
    Op_Enqueue time queued_job
  | Op_Claim time int string rat "string list option" int
  | Op_Renew time uuid rat
  | Op_Running time uuid
  | Op_Succeeded time uuid dict
  | Op_Failed time uuid string "string option"
  | Op_Retry time rat uuid string "string option" "rat option"
  | Op_Prompt uuid string
  | Op_Cancel time uuid

fun queue_step :: "'q job_queue_port \<Rightarrow> queue_op \<Rightarrow> 'q \<Rightarrow> 'q" where
  "queue_step P (Op_Enqueue now j) q = (case jq_enqueue P now j q of Inl e \<Rightarrow> q | Inr q' \<Rightarrow> q')"
| "queue_step P (Op_Claim now cap owner secs kinds maxa) q =
     fst (jq_claim_with_lease P now cap owner secs kinds maxa q)"
| "queue_step P (Op_Renew now i secs) q = jq_renew_lease P now i secs q"
| "queue_step P (Op_Running now i) q = jq_mark_running P now i q"
| "queue_step P (Op_Succeeded now i res) q = jq_mark_succeeded P now i res q"
| "queue_step P (Op_Failed now i code detail) q = jq_mark_failed P now i code detail q"
| "queue_step P (Op_Retry now rnd i code detail delay) q = jq_mark_retry_wait P now rnd i code detail delay q"
| "queue_step P (Op_Prompt i pid) q = jq_set_prompt_id P i pid q"
| "queue_step P (Op_Cancel now i) q = fst (jq_cancel P now i q)"

fun op_fresh :: "'q job_queue_port \<Rightarrow> queue_op \<Rightarrow> 'q \<Rightarrow> bool" where
  "op_fresh P (Op_Enqueue now j) q = (jq_get P (j_id j) q = None)"
| "op_fresh P op1 q = True"

inductive history :: "'q job_queue_port \<Rightarrow> 'q \<Rightarrow> queue_op list \<Rightarrow> 'q \<Rightarrow> bool"
  for P :: "'q job_queue_port" where
  history_Nil: "history P q [] q"
| history_Cons: "op_fresh P op1 q \<Longrightarrow> history P (queue_step P op1 q) ops q' \<Longrightarrow> history P q (op1 # ops) q'"

inductive_simps history_Nil_iff [simp]: "history P q [] q'"
inductive_simps history_Cons_iff [simp]: "history P q (op1 # ops) q'"

fun resumes :: "uuid \<Rightarrow> queue_op \<Rightarrow> bool" where
  "resumes i (Op_Running now k) = (k = i)"
| "resumes i op1 = False"

subsection \<open>The contract\<close>

text \<open>
  What the protocol promises its clients, on the jobs that \<open>get\<close> shows: which jobs each
  operation touches, what it makes of their state, and that the counting queries count them.
\<close>

locale job_queue =
  fixes P :: "'q job_queue_port"
    and ok :: "'q \<Rightarrow> bool"
  assumes finite_jobs: "ok q \<Longrightarrow> finite (dom (\<lambda>i. jq_get P i q))"
    and get_id: "ok q \<Longrightarrow> jq_get P i q = Some j \<Longrightarrow> j_id j = i"
    and enqueue_ok: "ok q \<Longrightarrow> jq_get P (j_id j) q = None \<Longrightarrow> jq_enqueue P now j q = Inr q' \<Longrightarrow>
      ok q' \<and> (\<exists>j'. jq_get P (j_id j) q' = Some j' \<and> same_job j j' \<and> j_state j' = j_state j \<and>
         j_current_attempt j' = j_current_attempt j) \<and>
      (\<forall>i. i \<noteq> j_id j \<longrightarrow> jq_get P i q' = jq_get P i q)"
    and claim_ok: "ok q \<Longrightarrow> jq_claim_with_lease P now cap owner secs kinds maxa q = (q', cl) \<Longrightarrow>
      ok q' \<and> distinct (map j_id cl) \<and> length cl \<le> nat cap \<and>
      (\<forall>j \<in> set cl. \<exists>j0 j1. jq_get P (j_id j) q = Some j0 \<and> is_backlog j0 \<and> kind_in kinds j0 \<and>
         same_job j0 j \<and> jq_get P (j_id j) q' = Some j1 \<and> same_job j0 j1 \<and>
         j_state j1 = Dispatched \<and> j_current_attempt j1 = j_current_attempt j0) \<and>
      (\<forall>i. i \<notin> j_id ` set cl \<longrightarrow> jq_get P i q' = jq_get P i q)"
    and list_active_ok: "ok q \<Longrightarrow> distinct (map j_id (jq_list_active P q)) \<and>
      (\<forall>j. j \<in> set (jq_list_active P q) \<longleftrightarrow> jq_get P (j_id j) q = Some j \<and> is_active j)"
    and count_active_ok: "ok q \<Longrightarrow>
      jq_count_active P kinds q = card (jobs_with (\<lambda>i. jq_get P i q) (\<lambda>j. is_active j \<and> kind_in kinds j))"
    and count_user_ok: "ok q \<Longrightarrow>
      jq_count_user_backlog P u q = card (jobs_with (\<lambda>i. jq_get P i q) (\<lambda>j. j_user_id j = u \<and> is_backlog j))"
    and count_global_ok: "ok q \<Longrightarrow>
      jq_count_global_backlog P q = card (jobs_with (\<lambda>i. jq_get P i q) is_backlog)"
    and find_some: "ok q \<Longrightarrow> jq_find_by_idempotency_key P u key kd q = Some j \<Longrightarrow>
      jq_get P (j_id j) q = Some j \<and> j_user_id j = u \<and> j_idempotency_key j = key \<and> j_kind j = kd"
    and find_none: "ok q \<Longrightarrow> jq_find_by_idempotency_key P u key kd q = None \<Longrightarrow>
      jq_get P i q = Some j \<Longrightarrow> \<not> (j_user_id j = u \<and> j_idempotency_key j = key \<and> j_kind j = kd)"
    and renew_ok: "ok q \<Longrightarrow> ok (jq_renew_lease P now i secs q) \<and>
      (\<forall>k. k \<noteq> i \<longrightarrow> jq_get P k (jq_renew_lease P now i secs q) = jq_get P k q) \<and>
      (\<forall>j. jq_get P i q = Some j \<longrightarrow> (\<exists>j'. jq_get P i (jq_renew_lease P now i secs q) = Some j' \<and>
         same_job j j' \<and> j_state j' = j_state j \<and> j_current_attempt j' = j_current_attempt j)) \<and>
      (jq_get P i q = None \<longrightarrow> jq_get P i (jq_renew_lease P now i secs q) = None)"
    and running_ok: "ok q \<Longrightarrow> ok (jq_mark_running P now i q) \<and>
      (\<forall>k. k \<noteq> i \<longrightarrow> jq_get P k (jq_mark_running P now i q) = jq_get P k q) \<and>
      (\<forall>j. jq_get P i q = Some j \<longrightarrow> (\<exists>j'. jq_get P i (jq_mark_running P now i q) = Some j' \<and>
         same_job j j' \<and> j_current_attempt j' = j_current_attempt j \<and>
         (j_state j' = Running \<or> is_terminal (j_state j) \<and> j_state j' = j_state j))) \<and>
      (jq_get P i q = None \<longrightarrow> jq_get P i (jq_mark_running P now i q) = None)"
    and prompt_ok: "ok q \<Longrightarrow> ok (jq_set_prompt_id P i pid q) \<and>
      (\<forall>k. k \<noteq> i \<longrightarrow> jq_get P k (jq_set_prompt_id P i pid q) = jq_get P k q) \<and>
      (\<forall>j. jq_get P i q = Some j \<longrightarrow> (\<exists>j'. jq_get P i (jq_set_prompt_id P i pid q) = Some j' \<and>
         same_job j j' \<and> j_state j' = j_state j \<and> j_current_attempt j' = j_current_attempt j)) \<and>
      (jq_get P i q = None \<longrightarrow> jq_get P i (jq_set_prompt_id P i pid q) = None)"
    and succeeded_ok: "ok q \<Longrightarrow> ok (jq_mark_succeeded P now i res q) \<and>
      (\<forall>k. k \<noteq> i \<longrightarrow> jq_get P k (jq_mark_succeeded P now i res q) = jq_get P k q) \<and>
      (\<forall>j. jq_get P i q = Some j \<longrightarrow> (\<exists>j'. jq_get P i (jq_mark_succeeded P now i res q) = Some j' \<and>
         same_job j j' \<and> j_current_attempt j' = j_current_attempt j \<and>
         (if is_terminal (j_state j) then j' = j
          else j_state j' = Succeeded \<and> j_error_code j' = None \<and> j_error_detail j' = None))) \<and>
      (jq_get P i q = None \<longrightarrow> jq_get P i (jq_mark_succeeded P now i res q) = None)"
    and failed_ok: "ok q \<Longrightarrow> ok (jq_mark_failed P now i code detail q) \<and>
      (\<forall>k. k \<noteq> i \<longrightarrow> jq_get P k (jq_mark_failed P now i code detail q) = jq_get P k q) \<and>
      (\<forall>j. jq_get P i q = Some j \<longrightarrow> (\<exists>j'. jq_get P i (jq_mark_failed P now i code detail q) = Some j' \<and>
         same_job j j' \<and> j_current_attempt j' = j_current_attempt j \<and>
         (if is_terminal (j_state j) then j' = j
          else j_state j' = Failed \<and> j_error_code j' = Some code \<and> j_error_detail j' = detail))) \<and>
      (jq_get P i q = None \<longrightarrow> jq_get P i (jq_mark_failed P now i code detail q) = None)"
    and retry_ok: "ok q \<Longrightarrow> ok (jq_mark_retry_wait P now rnd i code detail delay q) \<and>
      (\<forall>k. k \<noteq> i \<longrightarrow> jq_get P k (jq_mark_retry_wait P now rnd i code detail delay q) = jq_get P k q) \<and>
      (\<forall>j. jq_get P i q = Some j \<longrightarrow>
         (\<exists>j'. jq_get P i (jq_mark_retry_wait P now rnd i code detail delay q) = Some j' \<and>
         same_job j j' \<and>
         (if is_terminal (j_state j) then j' = j
          else j_state j' = RetryWait \<and> j_current_attempt j' = j_current_attempt j + 1))) \<and>
      (jq_get P i q = None \<longrightarrow> jq_get P i (jq_mark_retry_wait P now rnd i code detail delay q) = None)"
    and cancel_ok: "ok q \<Longrightarrow> jq_cancel P now i q = (q', done) \<Longrightarrow> ok q' \<and>
      (\<forall>k. k \<noteq> i \<longrightarrow> jq_get P k q' = jq_get P k q) \<and>
      (\<forall>j. jq_get P i q = Some j \<longrightarrow> (done \<longleftrightarrow> \<not> is_terminal (j_state j)) \<and>
         (\<exists>j'. jq_get P i q' = Some j' \<and> same_job j j' \<and> j_current_attempt j' = j_current_attempt j \<and>
           (if is_terminal (j_state j) then j' = j else j_state j' = Cancelled))) \<and>
      (jq_get P i q = None \<longrightarrow> \<not> done \<and> jq_get P i q' = None)"
begin

lemma enqueue_backlog_count:
  assumes "ok q" "jq_get P (j_id j) q = None" "jq_enqueue P now j q = Inr q'" "is_backlog j"
  shows "jq_count_global_backlog P q' = Suc (jq_count_global_backlog P q)"
    and "jq_count_user_backlog P u q' =
      (if u = j_user_id j then Suc (jq_count_user_backlog P u q) else jq_count_user_backlog P u q)"
proof -
  let ?l = "\<lambda>i. jq_get P i q" and ?l' = "\<lambda>i. jq_get P i q'"
  from enqueue_ok [OF assms(1-3)] obtain j' where ok': "ok q'"
    and j': "?l' (j_id j) = Some j'" "same_job j j'" "j_state j' = j_state j"
    and frame: "\<And>i. i \<noteq> j_id j \<Longrightarrow> ?l' i = ?l i" by blast
  have fin: "finite (jobs_with ?l p)" for p
    using finite_subset [OF jobs_with_subset_dom finite_jobs [OF assms(1)]] .
  have upd: "jobs_with ?l' p = (if p j' then insert (j_id j) (jobs_with ?l p) else jobs_with ?l p)" for p
  proof (rule set_eqI)
    fix i show "i \<in> jobs_with ?l' p \<longleftrightarrow> i \<in> (if p j' then insert (j_id j) (jobs_with ?l p) else jobs_with ?l p)"
      using j'(1) frame assms(2) by (cases "i = j_id j") (auto simp: jobs_with_def)
  qed
  have new: "j_id j \<notin> jobs_with ?l p" for p using assms(2) by (simp add: jobs_with_def)
  have bl: "is_backlog j'" using assms(4) j'(3) by (simp add: is_backlog_def)
  have us: "j_user_id j' = j_user_id j" using j'(2) by (simp add: same_job_def)
  show "jq_count_global_backlog P q' = Suc (jq_count_global_backlog P q)"
    unfolding count_global_ok [OF ok'] count_global_ok [OF assms(1)] upd using bl new fin by simp
  show "jq_count_user_backlog P u q' =
      (if u = j_user_id j then Suc (jq_count_user_backlog P u q) else jq_count_user_backlog P u q)"
    unfolding count_user_ok [OF ok'] count_user_ok [OF assms(1)] upd using bl us new fin by simp
qed

text \<open>What a batch of claims does to the number of active jobs with a property that the queue
  never changes: the lane of a kind, the jobs of a user.\<close>

lemma claim_count:
  assumes "ok q" "jq_claim_with_lease P now cap owner secs kinds maxa q = (q', cl)"
    and inv: "\<And>a b. same_job a b \<Longrightarrow> r a = r b"
  shows "card (jobs_with (\<lambda>i. jq_get P i q') (\<lambda>j. is_active j \<and> r j)) =
    card (jobs_with (\<lambda>i. jq_get P i q) (\<lambda>j. is_active j \<and> r j)) + length (filter r cl)"
proof -
  let ?l = "\<lambda>i. jq_get P i q" and ?l' = "\<lambda>i. jq_get P i q'"
  let ?p = "\<lambda>j. is_active j \<and> r j" and ?f = "filter r cl"
  note c = claim_ok [OF assms(1,2)]
  have fin: "finite (jobs_with ?l ?p)"
    using finite_subset [OF jobs_with_subset_dom finite_jobs [OF assms(1)]] .
  have dist: "distinct (map j_id cl)" using c by blast
  have "jobs_with ?l' ?p = jobs_with ?l ?p \<union> j_id ` set ?f"
  proof (rule set_eqI)
    fix i show "i \<in> jobs_with ?l' ?p \<longleftrightarrow> i \<in> jobs_with ?l ?p \<union> j_id ` set ?f"
    proof (cases "i \<in> j_id ` set cl")
      case True
      then obtain j where j: "j \<in> set cl" "i = j_id j" by blast
      with c obtain j0 j1 where l: "?l i = Some j0" "is_backlog j0" "same_job j0 j"
        "?l' i = Some j1" "same_job j0 j1" "j_state j1 = Dispatched" by blast
      from l inv have "r j1 = r j" by blast
      moreover have "i \<in> j_id ` set ?f \<longleftrightarrow> r j"
        using j dist by (auto simp: distinct_map inj_on_def)
      ultimately show ?thesis using l by (auto simp: jobs_with_def is_active_def is_backlog_def)
    next
      case False
      with c have "?l' i = ?l i" by blast
      with False show ?thesis by (auto simp: jobs_with_def)
    qed
  qed
  moreover have "jobs_with ?l ?p \<inter> j_id ` set ?f = {}"
    using c backlog_not_active by (fastforce simp: jobs_with_def)
  moreover have "card (j_id ` set ?f) = length ?f"
    using distinct_card [OF distinct_map_filter [OF dist, of r]] by (simp only: list.set_map length_map)
  ultimately show ?thesis using fin by (simp add: card_Un_disjoint)
qed

lemma claim_active_count:
  assumes "ok q" "jq_claim_with_lease P now cap owner secs kinds maxa q = (q', cl)"
  shows "jq_count_active P kinds q' = jq_count_active P kinds q + length cl"
proof -
  note c = claim_ok [OF assms]
  have "filter (kind_in kinds) cl = cl"
    using c kind_in_same_job by (auto simp: filter_id_conv)
  with claim_count [OF assms, of "kind_in kinds"] show ?thesis
    using c count_active_ok assms(1) by (simp add: kind_in_same_job)
qed

lemma step_ok:
  assumes "ok q" "op_fresh P op1 q"
  shows "ok (queue_step P op1 q)"
proof (cases op1)
  case (Op_Enqueue now j)
  show ?thesis
  proof (cases "jq_enqueue P now j q")
    case (Inr q')
    with enqueue_ok [OF assms(1) _ Inr] assms(2) Op_Enqueue show ?thesis by simp
  qed (use assms Op_Enqueue in simp)
next
  case (Op_Claim now cap owner secs kinds maxa)
  obtain q' cl where "jq_claim_with_lease P now cap owner secs kinds maxa q = (q', cl)" by force
  with claim_ok [OF assms(1) this] Op_Claim show ?thesis by simp
next
  case (Op_Cancel now i)
  obtain q' dn where "jq_cancel P now i q = (q', dn)" by force
  with cancel_ok [OF assms(1) this] Op_Cancel show ?thesis by simp
qed (use assms(1) in \<open>simp_all add: renew_ok running_ok succeeded_ok failed_ok retry_ok prompt_ok\<close>)

definition finished_as :: "queued_job \<Rightarrow> uuid \<Rightarrow> 'q \<Rightarrow> bool" where
  "finished_as j i q \<longleftrightarrow> (\<exists>j'. jq_get P i q = Some j' \<and> same_job j j' \<and> j_state j' = j_state j \<and>
     j_current_attempt j' = j_current_attempt j)"

lemma terminal_step:
  assumes "ok q" "op_fresh P op1 q" "\<not> resumes i op1" "jq_get P i q = Some j" "is_terminal (j_state j)"
  shows "finished_as j i (queue_step P op1 q)"
proof (cases op1)
  case (Op_Enqueue now jn)
  with assms show ?thesis
  proof (cases "jq_enqueue P now jn q")
    case (Inr q')
    have "i \<noteq> j_id jn" using assms(2,4) Op_Enqueue by auto
    with enqueue_ok [OF assms(1) _ Inr] assms Op_Enqueue Inr show ?thesis by (simp add: finished_as_def)
  qed (simp add: finished_as_def)
next
  case (Op_Claim now cap owner secs kinds maxa)
  obtain q' cl where c: "jq_claim_with_lease P now cap owner secs kinds maxa q = (q', cl)" by force
  have "i \<notin> j_id ` set cl"
    using claim_ok [OF assms(1) c] assms(4,5) backlog_not_terminal by fastforce
  with claim_ok [OF assms(1) c] assms(4) c Op_Claim show ?thesis by (simp add: finished_as_def)
next
  case (Op_Renew now k secs)
  then show ?thesis using renew_ok [OF assms(1), of now k secs] assms(4)
    by (cases "k = i") (auto simp: finished_as_def)
next
  case (Op_Running now k)
  with assms(3) have "i \<noteq> k" by simp
  then show ?thesis using running_ok [OF assms(1), of now k] assms(4) Op_Running
    by (simp add: finished_as_def)
next
  case (Op_Succeeded now k res)
  then show ?thesis using succeeded_ok [OF assms(1), of now k res] assms(4,5)
    by (cases "k = i") (auto simp: finished_as_def)
next
  case (Op_Failed now k code detail)
  then show ?thesis using failed_ok [OF assms(1), of now k code detail] assms(4,5)
    by (cases "k = i") (auto simp: finished_as_def)
next
  case (Op_Retry now rnd k code detail delay)
  then show ?thesis using retry_ok [OF assms(1), of now rnd k code detail delay] assms(4,5)
    by (cases "k = i") (auto simp: finished_as_def)
next
  case (Op_Prompt k pid)
  then show ?thesis using prompt_ok [OF assms(1), of k pid] assms(4)
    by (cases "k = i") (auto simp: finished_as_def)
next
  case (Op_Cancel now k)
  obtain q' dn where c: "jq_cancel P now k q = (q', dn)" by force
  then show ?thesis using cancel_ok [OF assms(1) c] assms(4,5) Op_Cancel
    by (cases "k = i") (auto simp: finished_as_def)
qed

lemma history_ok: "history P q ops q' \<Longrightarrow> ok q \<Longrightarrow> ok q'"
  by (induction rule: history.induct) (simp_all add: step_ok)

lemma terminal_history:
  "history P q ops q' \<Longrightarrow> ok q \<Longrightarrow> \<forall>op1 \<in> set ops. \<not> resumes i op1 \<Longrightarrow>
    jq_get P i q = Some j \<Longrightarrow> is_terminal (j_state j) \<Longrightarrow> finished_as j i q'"
proof (induction arbitrary: j rule: history.induct)
  case (history_Nil q)
  then show ?case by (simp add: finished_as_def)
next
  case (history_Cons op1 q ops q')
  have "\<not> resumes i op1" using history_Cons.prems(2) by simp
  from terminal_step [OF history_Cons.prems(1) history_Cons.hyps(1) this history_Cons.prems(3,4)]
  obtain j1 where j1: "jq_get P i (queue_step P op1 q) = Some j1" "same_job j j1"
    "j_state j1 = j_state j" "j_current_attempt j1 = j_current_attempt j"
    unfolding finished_as_def by blast
  with history_Cons.IH [OF step_ok, of j1] history_Cons.prems history_Cons.hyps(1)
  have "finished_as j1 i q'" by simp
  with j1 show ?case unfolding finished_as_def by (metis same_job_trans)
qed

lemma claim_within_budget:
  assumes "ok q" "jq_claim_with_lease P now cap owner secs kinds maxa q = (q', cl)"
    and "0 \<le> cap" "int (jq_count_active P kinds q) + cap \<le> slots"
  shows "int (jq_count_active P kinds q') \<le> slots"
  using claim_active_count [OF assms(1,2)] claim_ok [OF assms(1,2)] assms(3,4) by linarith

end

text \<open>A queue whose \<open>mark_running\<close> is guarded as well: there nothing resumes a finished job.\<close>

locale guarded_queue = job_queue +
  assumes running_terminal: "ok q \<Longrightarrow> jq_get P i q = Some j \<Longrightarrow> is_terminal (j_state j) \<Longrightarrow>
    \<exists>j'. jq_get P i (jq_mark_running P now i q) = Some j' \<and> same_job j j' \<and> j_state j' = j_state j \<and>
      j_current_attempt j' = j_current_attempt j"
begin

lemma terminal_step_any:
  assumes "ok q" "op_fresh P op1 q" "jq_get P i q = Some j" "is_terminal (j_state j)"
  shows "finished_as j i (queue_step P op1 q)"
proof (cases "resumes i op1")
  case True
  then obtain now where "op1 = Op_Running now i" by (cases op1) auto
  with running_terminal [OF assms(1,3,4), of now] show ?thesis by (simp add: finished_as_def)
qed (rule terminal_step [OF assms(1,2) _ assms(3,4)])

lemma terminal_history_any:
  "history P q ops q' \<Longrightarrow> ok q \<Longrightarrow> jq_get P i q = Some j \<Longrightarrow> is_terminal (j_state j) \<Longrightarrow> finished_as j i q'"
proof (induction arbitrary: j rule: history.induct)
  case (history_Nil q)
  then show ?case by (simp add: finished_as_def)
next
  case (history_Cons op1 q ops q')
  from terminal_step_any [OF history_Cons.prems(1) history_Cons.hyps(1) history_Cons.prems(2,3)]
  obtain j1 where j1: "jq_get P i (queue_step P op1 q) = Some j1" "same_job j j1"
    "j_state j1 = j_state j" "j_current_attempt j1 = j_current_attempt j"
    unfolding finished_as_def by blast
  with history_Cons.IH [OF step_ok, of j1] history_Cons.prems history_Cons.hyps(1)
  have "finished_as j1 i q'" by simp
  with j1 show ?case unfolding finished_as_def by (metis same_job_trans)
qed

end

end
