(* ===== verification/Retry.thy ===== *)
theory Retry
  imports Prelude
begin

section \<open>Retry classification and backoff (domain/jobs/retry.py)\<close>

text \<open>
  Which errors are retried and how long the wait is. The draw of \<open>rng.uniform\<close> is an
  explicit argument: the random number \<open>rnd\<close> of the interval \<open>[0, 1)\<close> that the
  generator produced, scaled as \<open>random.uniform\<close> documents it.
\<close>

definition RETRYABLE_ERROR_CODES :: "string list" where
  "RETRYABLE_ERROR_CODES =
     [''comfy_timeout'', ''comfy_disconnect'', ''comfy_transient'', ''worker_lease_expired'',
      ''worker_unreachable'']"

definition NON_RETRYABLE_ERROR_CODES :: "string list" where
  "NON_RETRYABLE_ERROR_CODES =
     [''comfy_rejected'', ''workflow_invalid'', ''quota_exceeded'', ''malformed_response'',
      ''comfy_permanent'']"

definition is_retryable :: "string \<Rightarrow> int \<Rightarrow> int \<Rightarrow> bool" where
  "is_retryable error_code attempt_no max_attempts =
     (if attempt_no \<ge> max_attempts then False
      else if error_code \<in> set NON_RETRYABLE_ERROR_CODES then False
      else error_code \<in> set RETRYABLE_ERROR_CODES)"

record backoff_config =
  base_seconds :: rat
  factor :: rat
  max_seconds :: rat
  jitter_ratio :: rat

definition default_backoff :: backoff_config where
  "default_backoff = \<lparr>base_seconds = 2, factor = 2, max_seconds = 120, jitter_ratio = 1/5\<rparr>"

definition uniform :: "rat \<Rightarrow> rat \<Rightarrow> rat \<Rightarrow> rat" where
  "uniform a b rnd = a + (b - a) * rnd"

definition backoff_raw :: "backoff_config \<Rightarrow> int \<Rightarrow> rat" where
  "backoff_raw cfg attempt_no =
     min (base_seconds cfg * factor cfg ^ nat (max (attempt_no - 1) 0)) (max_seconds cfg)"

definition compute_backoff_seconds :: "int \<Rightarrow> backoff_config \<Rightarrow> rat \<Rightarrow> rat" where
  "compute_backoff_seconds attempt_no cfg rnd =
     (let raw = backoff_raw cfg attempt_no;
          jitter_span = raw * jitter_ratio cfg
      in max 0 (raw + uniform (- jitter_span) jitter_span rnd))"

subsection \<open>Library lemmas\<close>

lemma error_codes_disjoint: "set RETRYABLE_ERROR_CODES \<inter> set NON_RETRYABLE_ERROR_CODES = {}"
  by (simp add: RETRYABLE_ERROR_CODES_def NON_RETRYABLE_ERROR_CODES_def)

lemma is_retryable_iff:
  "is_retryable c n m \<longleftrightarrow> n < m \<and> c \<in> set RETRYABLE_ERROR_CODES"
  using error_codes_disjoint by (auto simp: is_retryable_def)

lemma uniform_bounds:
  assumes "0 \<le> s" "0 \<le> rnd" "rnd \<le> 1"
  shows "- s \<le> uniform (- s) s rnd \<and> uniform (- s) s rnd \<le> s"
proof -
  from assms have "0 \<le> s * rnd" "s * rnd \<le> s" by (simp_all add: mult_left_le)
  then show ?thesis by (simp add: uniform_def algebra_simps)
qed

lemma compute_backoff_nonneg [simp]: "0 \<le> compute_backoff_seconds n cfg rnd"
  by (simp add: compute_backoff_seconds_def Let_def)

lemma backoff_raw_default_bounds: "2 \<le> backoff_raw default_backoff n \<and> backoff_raw default_backoff n \<le> 120"
  by (simp add: backoff_raw_def default_backoff_def one_le_power)

lemma backoff_raw_default_mono:
  assumes "n \<le> m"
  shows "backoff_raw default_backoff n \<le> backoff_raw default_backoff m"
proof -
  from assms have "nat (max (n - 1) 0) \<le> nat (max (m - 1) 0)" by (simp add: nat_mono)
  then have "(2::rat) ^ nat (max (n - 1) 0) \<le> 2 ^ nat (max (m - 1) 0)" by (intro power_increasing) simp_all
  then show ?thesis unfolding backoff_raw_def default_backoff_def
    by (intro min.mono) simp_all
qed

subsection \<open>Properties\<close>

text \<open>With the configured backoff every wait lies within twenty per cent of the exponential
  value: it is at least 1.6 seconds, at most 144 seconds, whatever the random draw and however
  many attempts failed, so that a waiting job becomes claimable again after a bounded time.\<close>

theorem backoff_bounds:
  assumes "0 \<le> rnd" and "rnd \<le> 1"
  shows "4 / 5 * backoff_raw default_backoff n \<le> compute_backoff_seconds n default_backoff rnd \<and>
    compute_backoff_seconds n default_backoff rnd \<le> 6 / 5 * backoff_raw default_backoff n \<and>
    8 / 5 \<le> compute_backoff_seconds n default_backoff rnd \<and>
    compute_backoff_seconds n default_backoff rnd \<le> 144"
proof -
  let ?r = "backoff_raw default_backoff n"
  have r: "2 \<le> ?r" "?r \<le> 120" by (simp_all add: backoff_raw_default_bounds)
  then have "- (?r / 5) \<le> uniform (- (?r / 5)) (?r / 5) rnd \<and> uniform (- (?r / 5)) (?r / 5) rnd \<le> ?r / 5"
    using assms by (intro uniform_bounds) simp_all
  moreover have "compute_backoff_seconds n default_backoff rnd =
      max 0 (?r + uniform (- (?r / 5)) (?r / 5) rnd)"
    by (simp add: compute_backoff_seconds_def Let_def) (simp add: default_backoff_def)
  ultimately show ?thesis using r by auto
qed

theorem backoff_bounds_witness:
  "compute_backoff_seconds 3 default_backoff (3/4) \<le> 6 / 5 * 8"
  using backoff_bounds [of "3/4" 3] by (simp add: backoff_raw_def default_backoff_def)

end
