(* ===== verification/Memory_Queue.thy ===== *)
theory Memory_Queue
  imports Job_Queue Retry
begin

section \<open>InMemoryJobQueue (adapters/queue/__init__.py)\<close>

text \<open>
  The in-process adapter: the dictionary of job objects, each mutated in place, and the order
  list the class keeps but never reads. A returned job is the object after the call, a value here.
\<close>

subsection \<open>State and operations\<close>

record mem_queue =
  mq_jobs :: "(uuid \<times> queued_job) list"
  mq_order :: "uuid list"

definition mem_init :: mem_queue where
  "mem_init = \<lparr>mq_jobs = [], mq_order = []\<rparr>"

definition on_jobs :: "((uuid \<times> queued_job) list \<Rightarrow> (uuid \<times> queued_job) list) \<Rightarrow> mem_queue \<Rightarrow> mem_queue" where
  "on_jobs f q = q\<lparr>mq_jobs := f (mq_jobs q)\<rparr>"

definition mem_enqueue :: "queued_job \<Rightarrow> mem_queue \<Rightarrow> mem_queue" where
  "mem_enqueue job q = \<lparr>mq_jobs = dput (j_id job) job (mq_jobs q), mq_order = mq_order q @ [j_id job]\<rparr>"

definition mem_get :: "uuid \<Rightarrow> mem_queue \<Rightarrow> queued_job option" where
  "mem_get jid q = dget (mq_jobs q) jid"

definition claim_key_of :: "queued_job \<Rightarrow> claim_key" where
  "claim_key_of j = Claim_Key (j_effective_priority j) (j_queued_at j)"

definition mem_candidates :: "time \<Rightarrow> string list option \<Rightarrow> mem_queue \<Rightarrow> queued_job list" where
  "mem_candidates now kinds q = sort_key claim_key_of
     (filter (\<lambda>j. is_backlog j \<and> kind_in kinds j \<and>
        (case j_available_at j of None \<Rightarrow> True | Some t \<Rightarrow> t \<le> now)) (map snd (mq_jobs q)))"

definition count_of :: "(uuid \<times> int) list \<Rightarrow> uuid \<Rightarrow> int" where
  "count_of counts u = (case dget counts u of Some n \<Rightarrow> n | None \<Rightarrow> 0)"

definition add_count :: "uuid \<Rightarrow> (uuid \<times> int) list \<Rightarrow> (uuid \<times> int) list" where
  "add_count u counts = dput u (count_of counts u + 1) counts"

definition mem_active_counts :: "int \<Rightarrow> mem_queue \<Rightarrow> (uuid \<times> int) list" where
  "mem_active_counts max_active_per_user q =
     (if 0 < max_active_per_user
      then fold (\<lambda>j counts. if is_active j then add_count (j_user_id j) counts else counts)
             (map snd (mq_jobs q)) []
      else [])"

text \<open>The loop over the candidates: the dictionary, the counts and the claimed jobs.\<close>

fun mem_claim_loop ::
  "int \<Rightarrow> int \<Rightarrow> queued_job list \<Rightarrow> (uuid \<times> int) list \<Rightarrow> (uuid \<times> queued_job) list \<Rightarrow> queued_job list
     \<Rightarrow> (uuid \<times> queued_job) list \<times> queued_job list" where
  "mem_claim_loop cap maxa [] counts jobs claimed = (jobs, claimed)"
| "mem_claim_loop cap maxa (job # cs) counts jobs claimed =
     (if cap \<le> int (length claimed) then (jobs, claimed)
      else if 0 < maxa \<and> maxa \<le> count_of counts (j_user_id job)
        then mem_claim_loop cap maxa cs counts jobs claimed
      else mem_claim_loop cap maxa cs
             (if 0 < maxa then add_count (j_user_id job) counts else counts)
             (dupd (j_id job) (\<lambda>j. j\<lparr>j_state := Dispatched\<rparr>) jobs)
             (claimed @ [job\<lparr>j_state := Dispatched\<rparr>]))"

definition mem_claim_next ::
  "time \<Rightarrow> int \<Rightarrow> string list option \<Rightarrow> int \<Rightarrow> mem_queue \<Rightarrow> mem_queue \<times> queued_job list" where
  "mem_claim_next now worker_capacity kinds max_active_per_user q =
     (case mem_claim_loop worker_capacity max_active_per_user (mem_candidates now kinds q)
        (mem_active_counts max_active_per_user q) (mq_jobs q) [] of
        (jobs, claimed) \<Rightarrow> (q\<lparr>mq_jobs := jobs\<rparr>, claimed))"

definition mem_claim_next_with_lease ::
  "time \<Rightarrow> int \<Rightarrow> string \<Rightarrow> rat \<Rightarrow> string list option \<Rightarrow> int \<Rightarrow> mem_queue \<Rightarrow> mem_queue \<times> queued_job list" where
  "mem_claim_next_with_lease now worker_capacity owner lease_seconds kinds max_active_per_user q =
     (case mem_claim_next now worker_capacity kinds max_active_per_user q of
        (q', claimed) \<Rightarrow>
          let stamp = (\<lambda>j. j\<lparr>j_lease_owner := Some owner,
                j_lease_expires_at := Some (now + timedelta_us lease_seconds)\<rparr>)
          in (on_jobs (fold (\<lambda>j. dupd (j_id j) stamp) claimed) q', map stamp claimed))"

definition mem_list_active :: "mem_queue \<Rightarrow> queued_job list" where
  "mem_list_active q = filter is_active (map snd (mq_jobs q))"

definition mem_count_active :: "string list option \<Rightarrow> mem_queue \<Rightarrow> nat" where
  "mem_count_active kinds q = dcount (\<lambda>j. is_active j \<and> kind_in kinds j) (mq_jobs q)"

definition mem_renew_lease :: "time \<Rightarrow> uuid \<Rightarrow> rat \<Rightarrow> mem_queue \<Rightarrow> mem_queue" where
  "mem_renew_lease now jid lease_seconds q =
     (case dget (mq_jobs q) jid of
        None \<Rightarrow> q
      | Some job \<Rightarrow> if \<not> is_active job then q
          else on_jobs (dupd jid (\<lambda>j. j\<lparr>j_lease_expires_at := Some (now + timedelta_us lease_seconds)\<rparr>)) q)"

definition mem_mark_running :: "uuid \<Rightarrow> mem_queue \<Rightarrow> mem_queue" where
  "mem_mark_running jid q =
     (if dmem jid (mq_jobs q)
      then on_jobs (dupd jid (\<lambda>j. j\<lparr>j_state := Running, j_prompt_id := None\<rparr>)) q else q)"

definition mem_mark_succeeded :: "uuid \<Rightarrow> dict \<Rightarrow> mem_queue \<Rightarrow> mem_queue" where
  "mem_mark_succeeded jid res q =
     (case dget (mq_jobs q) jid of
        None \<Rightarrow> q
      | Some job \<Rightarrow> if is_terminal (j_state job) then q
          else on_jobs (dupd jid (\<lambda>j. j\<lparr>j_state := Succeeded, j_result := Some res,
                 j_lease_owner := None, j_lease_expires_at := None,
                 j_error_code := None, j_error_detail := None\<rparr>)) q)"

definition mem_mark_failed :: "uuid \<Rightarrow> string \<Rightarrow> string option \<Rightarrow> mem_queue \<Rightarrow> mem_queue" where
  "mem_mark_failed jid error_code error_detail q =
     (case dget (mq_jobs q) jid of
        None \<Rightarrow> q
      | Some job \<Rightarrow> if is_terminal (j_state job) then q
          else on_jobs (dupd jid (\<lambda>j. j\<lparr>j_state := Failed, j_error_code := Some error_code,
                 j_error_detail := error_detail, j_lease_owner := None,
                 j_lease_expires_at := None\<rparr>)) q)"

definition mem_mark_retry_wait ::
  "time \<Rightarrow> rat \<Rightarrow> uuid \<Rightarrow> string \<Rightarrow> string option \<Rightarrow> rat option \<Rightarrow> mem_queue \<Rightarrow> mem_queue" where
  "mem_mark_retry_wait now rnd jid error_code error_detail delay_seconds q =
     (case dget (mq_jobs q) jid of
        None \<Rightarrow> q
      | Some job \<Rightarrow> if is_terminal (j_state job) then q
          else let attempt = j_current_attempt job + 1;
                   delay = (case delay_seconds of Some d \<Rightarrow> d
                            | None \<Rightarrow> compute_backoff_seconds attempt default_backoff rnd)
               in on_jobs (dupd jid (\<lambda>j. j\<lparr>j_state := RetryWait, j_error_code := Some error_code,
                    j_error_detail := error_detail, j_current_attempt := attempt,
                    j_lease_owner := None, j_lease_expires_at := None,
                    j_available_at := Some (now + timedelta_us delay)\<rparr>)) q)"

definition mem_set_prompt_id :: "uuid \<Rightarrow> string \<Rightarrow> mem_queue \<Rightarrow> mem_queue" where
  "mem_set_prompt_id jid prompt_id q =
     (if dmem jid (mq_jobs q)
      then on_jobs (dupd jid (\<lambda>j. j\<lparr>j_prompt_id := Some prompt_id\<rparr>)) q else q)"

definition mem_cancel :: "uuid \<Rightarrow> mem_queue \<Rightarrow> mem_queue \<times> bool" where
  "mem_cancel jid q =
     (case dget (mq_jobs q) jid of
        None \<Rightarrow> (q, False)
      | Some job \<Rightarrow> if j_state job \<in> {Succeeded, Failed, Cancelled} then (q, False)
          else (on_jobs (dupd jid (\<lambda>j. j\<lparr>j_state := Cancelled\<rparr>)) q, True))"

definition mem_find_by_idempotency_key :: "uuid \<Rightarrow> string \<Rightarrow> string \<Rightarrow> mem_queue \<Rightarrow> queued_job option" where
  "mem_find_by_idempotency_key user_id key kd q =
     find (\<lambda>j. j_user_id j = user_id \<and> j_idempotency_key j = key \<and> j_kind j = kd) (map snd (mq_jobs q))"

definition mem_count_user_backlog :: "uuid \<Rightarrow> mem_queue \<Rightarrow> nat" where
  "mem_count_user_backlog user_id q = dcount (\<lambda>j. j_user_id j = user_id \<and> is_backlog j) (mq_jobs q)"

definition mem_count_conversation_backlog :: "uuid \<Rightarrow> mem_queue \<Rightarrow> nat" where
  "mem_count_conversation_backlog conv q =
     dcount (\<lambda>j. j_conversation_id j = Some conv \<and> is_backlog j) (mq_jobs q)"

definition mem_count_global_backlog :: "mem_queue \<Rightarrow> nat" where
  "mem_count_global_backlog q = dcount is_backlog (mq_jobs q)"

definition mem_count_backlog_for_kinds :: "string list option \<Rightarrow> mem_queue \<Rightarrow> nat" where
  "mem_count_backlog_for_kinds kinds q = dcount (\<lambda>j. is_backlog j \<and> kind_in kinds j) (mq_jobs q)"

text \<open>\<open>for idx, j in enumerate(candidates): if j.id == job_id: return idx\<close>\<close>

fun index_of :: "uuid \<Rightarrow> nat \<Rightarrow> queued_job list \<Rightarrow> nat option" where
  "index_of jid idx [] = None"
| "index_of jid idx (j # js) = (if j_id j = jid then Some idx else index_of jid (Suc idx) js)"

definition mem_queue_rank :: "uuid \<Rightarrow> string list option \<Rightarrow> mem_queue \<Rightarrow> nat option" where
  "mem_queue_rank jid kinds q =
     (case dget (mq_jobs q) jid of
        None \<Rightarrow> None
      | Some job \<Rightarrow> if \<not> is_backlog job then None
          else index_of jid 0 (sort_key claim_key_of
                 (filter (\<lambda>j. is_backlog j \<and> kind_in kinds j) (map snd (mq_jobs q)))))"

text \<open>The adapter as a port.\<close>

definition mem_port :: "mem_queue job_queue_port" where
  "mem_port =
     \<lparr>jq_enqueue = (\<lambda>now job q. Inr (mem_enqueue job q)),
      jq_get = mem_get,
      jq_claim_with_lease = mem_claim_next_with_lease,
      jq_list_active = mem_list_active,
      jq_count_active = mem_count_active,
      jq_renew_lease = mem_renew_lease,
      jq_mark_running = (\<lambda>now. mem_mark_running),
      jq_mark_succeeded = (\<lambda>now. mem_mark_succeeded),
      jq_mark_failed = (\<lambda>now. mem_mark_failed),
      jq_mark_retry_wait = mem_mark_retry_wait,
      jq_set_prompt_id = mem_set_prompt_id,
      jq_cancel = (\<lambda>now. mem_cancel),
      jq_find_by_idempotency_key = mem_find_by_idempotency_key,
      jq_count_user_backlog = mem_count_user_backlog,
      jq_count_conversation_backlog = mem_count_conversation_backlog,
      jq_count_global_backlog = mem_count_global_backlog,
      jq_count_backlog_for_kinds = mem_count_backlog_for_kinds,
      jq_queue_rank = (\<lambda>now. mem_queue_rank)\<rparr>"

lemma mem_port_simps [simp]:
  "jq_enqueue mem_port = (\<lambda>now job q. Inr (mem_enqueue job q))"
  "jq_get mem_port = mem_get"
  "jq_claim_with_lease mem_port = mem_claim_next_with_lease"
  "jq_list_active mem_port = mem_list_active"
  "jq_count_active mem_port = mem_count_active"
  "jq_renew_lease mem_port = mem_renew_lease"
  "jq_mark_running mem_port = (\<lambda>now. mem_mark_running)"
  "jq_mark_succeeded mem_port = (\<lambda>now. mem_mark_succeeded)"
  "jq_mark_failed mem_port = (\<lambda>now. mem_mark_failed)"
  "jq_mark_retry_wait mem_port = mem_mark_retry_wait"
  "jq_set_prompt_id mem_port = mem_set_prompt_id"
  "jq_cancel mem_port = (\<lambda>now. mem_cancel)"
  "jq_find_by_idempotency_key mem_port = mem_find_by_idempotency_key"
  "jq_count_user_backlog mem_port = mem_count_user_backlog"
  "jq_count_conversation_backlog mem_port = mem_count_conversation_backlog"
  "jq_count_global_backlog mem_port = mem_count_global_backlog"
  "jq_count_backlog_for_kinds mem_port = mem_count_backlog_for_kinds"
  "jq_queue_rank mem_port = (\<lambda>now. mem_queue_rank)"
  by (simp_all add: mem_port_def)

subsection \<open>Library lemmas\<close>

definition mem_ok :: "mem_queue \<Rightarrow> bool" where
  "mem_ok q \<longleftrightarrow> distinct (map fst (mq_jobs q)) \<and> (\<forall>(k, j) \<in> set (mq_jobs q). j_id j = k)"

lemma mem_ok_init [wf_intros]: "mem_ok mem_init"
  by (simp add: mem_ok_def mem_init_def)

lemma mem_ok_distinct: "mem_ok q \<Longrightarrow> distinct (map fst (mq_jobs q))"
  by (simp add: mem_ok_def)

lemma mem_get_id: "mem_ok q \<Longrightarrow> mem_get i q = Some j \<Longrightarrow> j_id j = i"
  by (auto simp: mem_ok_def mem_get_def dest!: dget_SomeD)

lemma mem_get_iff: "mem_ok q \<Longrightarrow> mem_get (j_id j) q = Some j \<longleftrightarrow> j \<in> set (map snd (mq_jobs q))"
  unfolding mem_ok_def mem_get_def by (auto simp: dget_set) force

lemma map_fst_ids: "mem_ok q \<Longrightarrow> map j_id (map snd (mq_jobs q)) = map fst (mq_jobs q)"
  by (auto simp: mem_ok_def)

lemma mem_ids_distinct: "mem_ok q \<Longrightarrow> distinct (map j_id (map snd (mq_jobs q)))"
  using map_fst_ids mem_ok_distinct by metis

lemma on_jobs_ok [wf_intros]:
  "mem_ok q \<Longrightarrow> (\<And>j. j_id (f j) = j_id j) \<Longrightarrow> mem_ok (on_jobs (dupd i f) q)"
  by (auto simp: mem_ok_def on_jobs_def set_dupd)

lemma mem_get_on_jobs [store_simps]:
  "mem_get k (on_jobs (dupd i f) q) = (if k = i then map_option f (mem_get i q) else mem_get k q)"
  by (simp add: mem_get_def on_jobs_def)

lemma dmem_mem_get: "dmem i (mq_jobs q) \<longleftrightarrow> mem_get i q \<noteq> None"
  by (simp add: mem_get_def dmem_iff_dget)

text \<open>A batch of in-place updates, one per job of a list of distinct jobs.\<close>

lemma keys_fold_dupd [simp]: "map fst (fold (\<lambda>j. dupd (j_id j) f) js d) = map fst d"
  by (induction js arbitrary: d) auto

lemma dget_fold_dupd:
  "distinct (map j_id js) \<Longrightarrow>
    dget (fold (\<lambda>j. dupd (j_id j) f) js d) i = (if i \<in> j_id ` set js then map_option f (dget d i) else dget d i)"
  by (induction js arbitrary: d) auto

lemma mem_ok_fold [wf_intros]:
  "mem_ok q \<Longrightarrow> (\<And>j. j_id (f j) = j_id j) \<Longrightarrow> mem_ok (on_jobs (fold (\<lambda>j. dupd (j_id j) f) js) q)"
proof (induction js arbitrary: q)
  case (Cons j js)
  then have "mem_ok (on_jobs (fold (\<lambda>j. dupd (j_id j) f) js) (on_jobs (dupd (j_id j) f) q))"
    by (simp add: on_jobs_ok)
  then show ?case by (simp add: on_jobs_def)
qed (simp add: on_jobs_def)

text \<open>The claim loop is the abstract selection.\<close>

lemma count_add [simp]: "count_of (add_count u c) v = (if v = u then count_of c v + 1 else count_of c v)"
  by (simp add: count_of_def add_count_def)

definition dispatch :: "queued_job \<Rightarrow> queued_job" where
  "dispatch j = j\<lparr>j_state := Dispatched\<rparr>"

lemma mem_claim_loop_pick:
  "(0 < maxa \<Longrightarrow> count_of counts = cnt) \<Longrightarrow>
    mem_claim_loop cap maxa cs counts jobs cl =
      (fold (\<lambda>j. dupd (j_id j) dispatch) (pick j_user_id (cap - int (length cl)) maxa cnt cs) jobs,
       cl @ map dispatch (pick j_user_id (cap - int (length cl)) maxa cnt cs))"
proof (induction cap maxa cs counts jobs cl arbitrary: cnt rule: mem_claim_loop.induct)
  case (1 cap maxa counts jobs cl)
  then show ?case by simp
next
  case (2 cap maxa job cs counts jobs cl)
  consider "cap \<le> int (length cl)"
    | "int (length cl) < cap" "0 < maxa" "maxa \<le> cnt (j_user_id job)"
    | "int (length cl) < cap" "\<not> (0 < maxa \<and> maxa \<le> cnt (j_user_id job))" by linarith
  then show ?case
  proof cases
    case 1
    then show ?thesis by simp
  next
    case a: 2
    with "2.prems" have "count_of counts (j_user_id job) = cnt (j_user_id job)" by simp
    with a "2.IH"(1) [OF _ _ "2.prems"] show ?thesis by simp
  next
    case a: 3
    have guard: "\<not> (0 < maxa \<and> maxa \<le> count_of counts (j_user_id job))" using a "2.prems" by auto
    have "0 < maxa \<Longrightarrow> count_of (if 0 < maxa then add_count (j_user_id job) counts else counts) =
        bump cnt (j_user_id job)" using "2.prems" by (auto simp: fun_eq_iff bump_apply)
    note IH = "2.IH"(2) [OF _ guard this]
    let ?cs = "if 0 < maxa then add_count (j_user_id job) counts else counts"
    have loop: "mem_claim_loop cap maxa (job # cs) counts jobs cl =
        mem_claim_loop cap maxa cs ?cs (dupd (j_id job) dispatch jobs) (cl @ [dispatch job])"
      using a(1) guard unfolding dispatch_def [abs_def] by auto
    have rest: "pick j_user_id (cap - int (length cl)) maxa cnt (job # cs) =
        job # pick j_user_id (cap - int (length (cl @ [dispatch job]))) maxa (bump cnt (j_user_id job)) cs"
      using a by (auto simp: diff_diff_eq add.commute)
    show ?thesis unfolding loop rest using IH a(1) by (simp add: dispatch_def [abs_def])
  qed
qed

lemma active_counts_eq:
  "count_of (fold (\<lambda>j counts. if is_active j then add_count (j_user_id j) counts else counts) js c) u =
     count_of c u + user_jobs j_user_id u (filter is_active js)"
  by (induction js arbitrary: c) auto

definition active_of :: "mem_queue \<Rightarrow> uuid \<Rightarrow> int" where
  "active_of q u = user_jobs j_user_id u (filter is_active (map snd (mq_jobs q)))"

lemma mem_active_counts_eq: "0 < maxa \<Longrightarrow> count_of (mem_active_counts maxa q) = active_of q"
  by (simp add: fun_eq_iff mem_active_counts_def active_of_def active_counts_eq) (simp add: count_of_def)

definition mem_selected :: "time \<Rightarrow> int \<Rightarrow> string list option \<Rightarrow> int \<Rightarrow> mem_queue \<Rightarrow> queued_job list" where
  "mem_selected now cap kinds maxa q = pick j_user_id cap maxa (active_of q) (mem_candidates now kinds q)"

lemma mem_claim_next_selected:
  "mem_claim_next now cap kinds maxa q =
     (on_jobs (fold (\<lambda>j. dupd (j_id j) dispatch) (mem_selected now cap kinds maxa q)) q,
      map dispatch (mem_selected now cap kinds maxa q))"
  using mem_claim_loop_pick [of maxa "mem_active_counts maxa q" "active_of q" cap
      "mem_candidates now kinds q" "mq_jobs q" "[]"]
  by (simp add: mem_claim_next_def mem_selected_def on_jobs_def mem_active_counts_eq)

lemma mem_candidates_in:
  "mem_ok q \<Longrightarrow> j \<in> set (mem_candidates now kinds q) \<longleftrightarrow>
    mem_get (j_id j) q = Some j \<and> is_backlog j \<and> kind_in kinds j \<and>
    (case j_available_at j of None \<Rightarrow> True | Some t \<Rightarrow> t \<le> now)"
  by (auto simp: mem_candidates_def mem_get_iff)

lemma mem_candidates_distinct: "mem_ok q \<Longrightarrow> distinct (map j_id (mem_candidates now kinds q))"
  unfolding mem_candidates_def by (rule distinct_map_sort_filter) (rule mem_ids_distinct)

lemma mem_selected_distinct: "mem_ok q \<Longrightarrow> distinct (map j_id (mem_selected now cap kinds maxa q))"
  by (simp add: mem_selected_def distinct_pick mem_candidates_distinct)

lemma mem_selected_in:
  "mem_ok q \<Longrightarrow> j \<in> set (mem_selected now cap kinds maxa q) \<Longrightarrow>
    mem_get (j_id j) q = Some j \<and> is_backlog j \<and> kind_in kinds j"
  using mem_candidates_in by (auto simp: mem_selected_def dest!: pick_subset)

lemma dispatch_simps [simp]:
  "j_id (dispatch j) = j_id j" "j_state (dispatch j) = Dispatched" "same_job j (dispatch j)"
  "j_current_attempt (dispatch j) = j_current_attempt j" "j_user_id (dispatch j) = j_user_id j"
  by (simp_all add: dispatch_def same_job_def)

text \<open>The claim with a lease: which jobs it returns and what it makes of the dictionary.\<close>

definition stamp :: "string \<Rightarrow> time \<Rightarrow> queued_job \<Rightarrow> queued_job" where
  "stamp owner expires j = j\<lparr>j_lease_owner := Some owner, j_lease_expires_at := Some expires\<rparr>"

lemma stamp_simps [simp]:
  "j_id (stamp ow ex j) = j_id j" "j_state (stamp ow ex j) = j_state j" "same_job j (stamp ow ex j)"
  "j_current_attempt (stamp ow ex j) = j_current_attempt j" "j_user_id (stamp ow ex j) = j_user_id j"
  by (simp_all add: stamp_def same_job_def)

lemma mem_claim_with_lease_selected:
  "mem_claim_next_with_lease now cap ow secs kinds maxa q =
    (let sel = mem_selected now cap kinds maxa q; st = stamp ow (now + timedelta_us secs) in
      (on_jobs (fold (\<lambda>j. dupd (j_id j) st) (map dispatch sel))
         (on_jobs (fold (\<lambda>j. dupd (j_id j) dispatch) sel) q), map (\<lambda>j. st (dispatch j)) sel))"
  by (simp add: mem_claim_next_with_lease_def mem_claim_next_selected stamp_def [abs_def] Let_def comp_def)

lemma mem_get_claimed:
  assumes "mem_ok q" "mem_claim_next_with_lease now cap ow secs kinds maxa q = (q', cl)"
  shows "mem_get i q' = (if i \<in> j_id ` set cl
     then map_option (\<lambda>j. stamp ow (now + timedelta_us secs) (dispatch j)) (mem_get i q) else mem_get i q)"
    and "mem_ok q'" and "j_id ` set cl = j_id ` set (mem_selected now cap kinds maxa q)"
proof -
  let ?sel = "mem_selected now cap kinds maxa q" and ?st = "stamp ow (now + timedelta_us secs)"
  from assms(2) have eq: "q' = on_jobs (fold (\<lambda>j. dupd (j_id j) ?st) (map dispatch ?sel))
       (on_jobs (fold (\<lambda>j. dupd (j_id j) dispatch) ?sel) q)" "cl = map (\<lambda>j. ?st (dispatch j)) ?sel"
    by (simp_all add: mem_claim_with_lease_selected Let_def)
  show ids: "j_id ` set cl = j_id ` set ?sel" by (simp add: eq(2) image_image)
  have d: "distinct (map j_id ?sel)" "distinct (map j_id (map dispatch ?sel))"
    using mem_selected_distinct [OF assms(1)] by (simp_all add: comp_def)
  show "mem_ok q'" using assms(1) by (auto simp: eq(1) intro!: mem_ok_fold)
  show "mem_get i q' = (if i \<in> j_id ` set cl
     then map_option (\<lambda>j. ?st (dispatch j)) (mem_get i q) else mem_get i q)"
    unfolding ids mem_get_def eq(1)
    by (simp add: on_jobs_def dget_fold_dupd [OF d(1)] dget_fold_dupd [OF d(2)] image_image
        option.map_comp comp_def)
qed

subsection \<open>The adapter keeps the contract\<close>

lemma mem_running_law:
  "mem_ok q \<Longrightarrow> mem_ok (mem_mark_running i q)"
  "mem_get k (mem_mark_running i q) =
     (if k = i then map_option (\<lambda>j. j\<lparr>j_state := Running, j_prompt_id := None\<rparr>) (mem_get i q) else mem_get k q)"
  by (auto simp: mem_mark_running_def dmem_mem_get mem_get_on_jobs intro: on_jobs_ok)

lemma mem_prompt_law:
  "mem_ok q \<Longrightarrow> mem_ok (mem_set_prompt_id i pid q)"
  "mem_get k (mem_set_prompt_id i pid q) =
     (if k = i then map_option (\<lambda>j. j\<lparr>j_prompt_id := Some pid\<rparr>) (mem_get i q) else mem_get k q)"
  by (auto simp: mem_set_prompt_id_def dmem_mem_get mem_get_on_jobs intro: on_jobs_ok)

lemma mem_renew_law:
  "mem_ok q \<Longrightarrow> mem_ok (mem_renew_lease now i secs q)"
  "mem_get k (mem_renew_lease now i secs q) =
     (if k = i then map_option (\<lambda>j. if is_active j
        then j\<lparr>j_lease_expires_at := Some (now + timedelta_us secs)\<rparr> else j) (mem_get i q)
      else mem_get k q)"
  by (auto simp: mem_renew_lease_def mem_get_on_jobs simp flip: mem_get_def intro!: on_jobs_ok
      split: option.split)

lemma mem_succeeded_law:
  "mem_ok q \<Longrightarrow> mem_ok (mem_mark_succeeded i res q)"
  "mem_get k (mem_mark_succeeded i res q) =
     (if k = i then map_option (\<lambda>j. if is_terminal (j_state j) then j
        else j\<lparr>j_state := Succeeded, j_result := Some res, j_lease_owner := None,
               j_lease_expires_at := None, j_error_code := None, j_error_detail := None\<rparr>) (mem_get i q)
      else mem_get k q)"
  by (auto simp: mem_mark_succeeded_def mem_get_on_jobs simp flip: mem_get_def intro!: on_jobs_ok
      split: option.split)

lemma mem_failed_law:
  "mem_ok q \<Longrightarrow> mem_ok (mem_mark_failed i code detail q)"
  "mem_get k (mem_mark_failed i code detail q) =
     (if k = i then map_option (\<lambda>j. if is_terminal (j_state j) then j
        else j\<lparr>j_state := Failed, j_error_code := Some code, j_error_detail := detail,
               j_lease_owner := None, j_lease_expires_at := None\<rparr>) (mem_get i q)
      else mem_get k q)"
  by (auto simp: mem_mark_failed_def mem_get_on_jobs simp flip: mem_get_def intro!: on_jobs_ok
      split: option.split)

definition retry_delay :: "rat \<Rightarrow> int \<Rightarrow> rat option \<Rightarrow> rat" where
  "retry_delay rnd attempt delay =
     (case delay of Some d \<Rightarrow> d | None \<Rightarrow> compute_backoff_seconds attempt default_backoff rnd)"

lemma mem_retry_law:
  "mem_ok q \<Longrightarrow> mem_ok (mem_mark_retry_wait now rnd i code detail delay q)"
  "mem_get k (mem_mark_retry_wait now rnd i code detail delay q) =
     (if k = i then map_option (\<lambda>j. if is_terminal (j_state j) then j
        else j\<lparr>j_state := RetryWait, j_error_code := Some code, j_error_detail := detail,
               j_current_attempt := j_current_attempt j + 1,
               j_lease_owner := None, j_lease_expires_at := None,
               j_available_at := Some (now + timedelta_us (retry_delay rnd (j_current_attempt j + 1) delay))\<rparr>)
        (mem_get i q)
      else mem_get k q)"
  by (auto simp: mem_mark_retry_wait_def mem_get_on_jobs Let_def retry_delay_def simp flip: mem_get_def
      intro!: on_jobs_ok split: option.split)

lemma mem_cancel_law:
  "mem_ok q \<Longrightarrow> mem_ok (fst (mem_cancel i q))"
  "mem_get k (fst (mem_cancel i q)) =
     (if k = i then map_option (\<lambda>j. if is_terminal (j_state j) then j else j\<lparr>j_state := Cancelled\<rparr>) (mem_get i q)
      else mem_get k q)"
  "snd (mem_cancel i q) \<longleftrightarrow> (\<exists>j. mem_get i q = Some j \<and> \<not> is_terminal (j_state j))"
  by (auto simp: mem_cancel_def mem_get_on_jobs is_terminal_iff simp flip: mem_get_def
      intro!: on_jobs_ok split: option.split)

lemma mem_cancel_contract:
  assumes "mem_ok q" "mem_cancel i q = (q', dn)"
  shows "mem_ok q' \<and> (\<forall>k. k \<noteq> i \<longrightarrow> mem_get k q' = mem_get k q) \<and>
      (\<forall>j. mem_get i q = Some j \<longrightarrow> (dn \<longleftrightarrow> \<not> is_terminal (j_state j)) \<and>
         (\<exists>j'. mem_get i q' = Some j' \<and> same_job j j' \<and> j_current_attempt j' = j_current_attempt j \<and>
           (if is_terminal (j_state j) then j' = j else j_state j' = Cancelled))) \<and>
      (mem_get i q = None \<longrightarrow> \<not> dn \<and> mem_get i q' = None)"
proof -
  have "q' = fst (mem_cancel i q)" "dn = snd (mem_cancel i q)" using assms(2) by simp_all
  then show ?thesis using assms(1) by (auto simp: mem_cancel_law same_job_def)
qed

lemma mem_enqueue_law:
  "mem_ok q \<Longrightarrow> mem_ok (mem_enqueue j q)"
  "mem_get k (mem_enqueue j q) = (if k = j_id j then Some j else mem_get k q)"
proof -
  assume ok: "mem_ok q"
  let ?d = "dput (j_id j) j (mq_jobs q)"
  have dist: "distinct (map fst ?d)" using mem_ok_distinct [OF ok] by simp
  have "j_id v = k" if "(k, v) \<in> set ?d" for k v
  proof -
    have "dget ?d k = Some v" using that dist dget_set by fast
    then show ?thesis using mem_get_id [OF ok, of k v] by (simp add: mem_get_def split: if_splits)
  qed
  with dist show "mem_ok (mem_enqueue j q)" by (auto simp: mem_ok_def mem_enqueue_def)
next
  show "mem_get k (mem_enqueue j q) = (if k = j_id j then Some j else mem_get k q)"
    by (simp add: mem_get_def mem_enqueue_def)
qed

lemma mem_claim_law:
  assumes "mem_ok q" "mem_claim_next_with_lease now cap ow secs kinds maxa q = (q', cl)"
  shows "mem_ok q' \<and> distinct (map j_id cl) \<and> length cl \<le> nat cap \<and>
      (\<forall>j \<in> set cl. \<exists>j0 j1. mem_get (j_id j) q = Some j0 \<and> is_backlog j0 \<and> kind_in kinds j0 \<and>
         same_job j0 j \<and> mem_get (j_id j) q' = Some j1 \<and> same_job j0 j1 \<and>
         j_state j1 = Dispatched \<and> j_current_attempt j1 = j_current_attempt j0) \<and>
      (\<forall>i. i \<notin> j_id ` set cl \<longrightarrow> mem_get i q' = mem_get i q)"
proof -
  let ?sel = "mem_selected now cap kinds maxa q" and ?st = "stamp ow (now + timedelta_us secs)"
  from assms(2) have cl: "cl = map (\<lambda>j. ?st (dispatch j)) ?sel"
    by (simp add: mem_claim_with_lease_selected Let_def)
  note g = mem_get_claimed [OF assms]
  have "\<exists>j0 j1. mem_get (j_id j) q = Some j0 \<and> is_backlog j0 \<and> kind_in kinds j0 \<and>
      same_job j0 j \<and> mem_get (j_id j) q' = Some j1 \<and> same_job j0 j1 \<and>
      j_state j1 = Dispatched \<and> j_current_attempt j1 = j_current_attempt j0" if "j \<in> set cl" for j
  proof -
    from that obtain s where s: "s \<in> set ?sel" "j = ?st (dispatch s)" by (auto simp: cl)
    have "j_id s \<in> j_id ` set cl" using that s(2) by (auto intro!: rev_image_eqI)
    with s(2) mem_selected_in [OF assms(1) s(1)] g(1) [of "j_id s"] show ?thesis
      by (simp add: stamp_def dispatch_def same_job_def)
  qed
  moreover have "distinct (map j_id cl)" "length cl \<le> nat cap"
    using mem_selected_distinct [OF assms(1)] length_pick
    by (simp_all add: cl comp_def mem_selected_def)
  ultimately show ?thesis using g by simp
qed

lemma mem_count_law: "mem_ok q \<Longrightarrow> dcount p (mq_jobs q) = card (jobs_with (\<lambda>i. mem_get i q) p)"
  by (simp add: mem_get_def [abs_def] jobs_with_dget mem_ok_distinct)

lemma find_Some_in: "find p xs = Some x \<Longrightarrow> x \<in> set xs \<and> p x"
  by (induction xs) (auto split: if_splits)

lemma mem_find_law:
  assumes "mem_ok q"
  shows "mem_find_by_idempotency_key u key kd q = Some j \<Longrightarrow>
      mem_get (j_id j) q = Some j \<and> j_user_id j = u \<and> j_idempotency_key j = key \<and> j_kind j = kd"
    and "mem_find_by_idempotency_key u key kd q = None \<Longrightarrow> mem_get i q = Some j \<Longrightarrow>
      \<not> (j_user_id j = u \<and> j_idempotency_key j = key \<and> j_kind j = kd)"
proof -
  show "mem_get (j_id j) q = Some j \<and> j_user_id j = u \<and> j_idempotency_key j = key \<and> j_kind j = kd"
    if "mem_find_by_idempotency_key u key kd q = Some j"
    using find_Some_in [OF that [unfolded mem_find_by_idempotency_key_def]] mem_get_iff [OF assms] by simp
  show "\<not> (j_user_id j = u \<and> j_idempotency_key j = key \<and> j_kind j = kd)"
    if a: "mem_find_by_idempotency_key u key kd q = None" "mem_get i q = Some j"
  proof -
    have "j \<in> set (map snd (mq_jobs q))" using a(2) mem_get_id [OF assms a(2)] mem_get_iff [OF assms] by blast
    with a(1) show ?thesis unfolding mem_find_by_idempotency_key_def find_None_iff by blast
  qed
qed

lemma mem_list_active_law:
  assumes "mem_ok q"
  shows "distinct (map j_id (mem_list_active q))"
    and "j \<in> set (mem_list_active q) \<longleftrightarrow> mem_get (j_id j) q = Some j \<and> is_active j"
  using distinct_map_filter [OF mem_ids_distinct [OF assms]] mem_get_iff [OF assms, of j]
  by (auto simp: mem_list_active_def)

interpretation mem: job_queue mem_port mem_ok
proof (unfold_locales, goal_cases)
  case 1 then show ?case by (simp add: mem_port_def mem_get_def [abs_def])
next
  case 2 then show ?case by (simp add: mem_port_def mem_get_id)
next
  case 3 then show ?case by (auto simp: mem_port_def mem_enqueue_law)
next
  case 4 then show ?case using mem_claim_law by (simp add: mem_port_def)
next
  case 5 then show ?case by (simp add: mem_port_def mem_list_active_law)
next
  case 6 then show ?case by (simp add: mem_port_def mem_count_active_def mem_count_law)
next
  case 7 then show ?case by (simp add: mem_port_def mem_count_user_backlog_def mem_count_law)
next
  case 8 then show ?case by (simp add: mem_port_def mem_count_global_backlog_def mem_count_law)
next
  case 9 then show ?case using mem_find_law(1) by (simp add: mem_port_def)
next
  case 10 then show ?case using mem_find_law(2) by (simp add: mem_port_def)
next
  case 11 then show ?case by (auto simp: mem_port_def mem_renew_law same_job_def)
next
  case 12 then show ?case by (auto simp: mem_port_def mem_running_law same_job_def)
next
  case 13 then show ?case by (auto simp: mem_port_def mem_prompt_law same_job_def)
next
  case 14 then show ?case by (auto simp: mem_port_def mem_succeeded_law same_job_def)
next
  case 15 then show ?case by (auto simp: mem_port_def mem_failed_law same_job_def)
next
  case 16 then show ?case by (auto simp: mem_port_def mem_retry_law same_job_def)
next
  case 17
  then show ?case unfolding mem_port_def job_queue_port.simps by (rule mem_cancel_contract)
qed

subsection \<open>Active jobs per user\<close>

lemma user_jobs_filter: "user_jobs j_user_id u (filter p js) = int (length (filter (\<lambda>j. p j \<and> j_user_id j = u) js))"
  by (simp add: user_jobs_def conj_commute)

lemma active_of_card:
  "mem_ok q \<Longrightarrow> active_of q u = int (card (jobs_with (\<lambda>i. mem_get i q) (\<lambda>j. is_active j \<and> j_user_id j = u)))"
  unfolding mem_count_law [symmetric] active_of_def user_jobs_filter dcount_def by simp

lemma user_jobs_map_same:
  "(\<And>j. j_user_id (f j) = j_user_id j) \<Longrightarrow> user_jobs j_user_id u (map f js) = user_jobs j_user_id u js"
  by (induction js) simp_all

lemma mem_claim_active_of:
  assumes "mem_ok q" "mem_claim_next_with_lease now cap ow secs kinds maxa q = (q', cl)"
  shows "active_of q' u = active_of q u + user_jobs j_user_id u (mem_selected now cap kinds maxa q)"
proof -
  from assms(2) have c: "jq_claim_with_lease mem_port now cap ow secs kinds maxa q = (q', cl)"
    by (simp add: mem_port_def)
  have g: "(\<lambda>i. jq_get mem_port i x) = (\<lambda>i. mem_get i x)" for x by (simp add: mem_port_def)
  have "mem_ok q'" by (rule mem_get_claimed(2) [OF assms])
  moreover have "cl = map (\<lambda>j. stamp ow (now + timedelta_us secs) (dispatch j)) (mem_selected now cap kinds maxa q)"
    using assms(2) by (simp add: mem_claim_with_lease_selected Let_def)
  then have "int (length (filter (\<lambda>j. j_user_id j = u) cl)) = user_jobs j_user_id u (mem_selected now cap kinds maxa q)"
    by (simp only: user_jobs_def [symmetric]) (simp add: user_jobs_map_same)
  ultimately show ?thesis
    using mem.claim_count [OF assms(1) c, where r = "\<lambda>j. j_user_id j = u"] assms(1)
    by (simp add: g active_of_card same_job_def)
qed

subsection \<open>Properties\<close>

text \<open>C1. A claim is fair and wastes nothing: the claimed jobs come in claim order, at most
  \<open>worker_capacity\<close> of them, no user ends above the per-user cap because of it, and a claimable
  job that was left behind is either of a user at that cap, or the capacity was used up entirely
  by jobs that are all ahead of it in claim order.\<close>

theorem mem_claim_fair:
  assumes "mem_ok q" and "mem_claim_next_with_lease now cap ow secs kinds maxa q = (q', cl)"
  shows "sorted (map claim_key_of cl) \<and> length cl \<le> nat cap \<and>
    (0 < maxa \<longrightarrow> (\<forall>u. active_of q' u \<le> max (active_of q u) maxa)) \<and>
    (\<forall>x \<in> set (mem_candidates now kinds q). j_id x \<notin> j_id ` set cl \<longrightarrow>
       0 < maxa \<and> maxa \<le> active_of q' (j_user_id x) \<or>
       length cl = nat cap \<and> (\<forall>y \<in> set cl. claim_key_of y \<le> claim_key_of x))"
proof -
  let ?st = "\<lambda>j. stamp ow (now + timedelta_us secs) (dispatch j)"
  let ?c = "mem_candidates now kinds q"
  define sel where "sel = pick j_user_id cap maxa (active_of q) ?c"
  have cl: "cl = map ?st sel"
    using assms(2) by (simp add: mem_claim_with_lease_selected Let_def mem_selected_def sel_def)
  have key: "claim_key_of (?st j) = claim_key_of j" for j
    by (simp add: claim_key_of_def stamp_def dispatch_def)
  have ids: "j_id ` set cl = j_id ` set sel" by (simp add: cl image_image)
  have srt: "sorted (map claim_key_of ?c)" by (simp add: mem_candidates_def)
  have act: "active_of q' u = active_of q u + user_jobs j_user_id u sel" for u
    using mem_claim_active_of [OF assms] by (simp add: mem_selected_def sel_def)
  have "sorted (map claim_key_of cl)" using sorted_pick [OF srt] by (simp add: cl comp_def key sel_def)
  moreover have "length cl \<le> nat cap" using length_pick by (simp add: cl sel_def)
  moreover have "active_of q' u \<le> max (active_of q u) maxa" if "0 < maxa" for u
    using pick_user_cap [OF that] by (simp add: act sel_def)
  moreover have "0 < maxa \<and> maxa \<le> active_of q' (j_user_id x) \<or>
       length cl = nat cap \<and> (\<forall>y \<in> set cl. claim_key_of y \<le> claim_key_of x)"
    if x: "x \<in> set ?c" "j_id x \<notin> j_id ` set cl" for x
  proof -
    from x(2) have "x \<notin> set sel" unfolding ids by blast
    with x(1) pick_conserving [of j_user_id cap maxa "active_of q" ?c x] pick_in_order [OF srt, of x j_user_id cap maxa "active_of q"]
      length_pick [of j_user_id cap maxa "active_of q" ?c]
    show ?thesis unfolding act cl sel_def [symmetric]
      by (cases "0 < maxa \<and> maxa \<le> active_of q (j_user_id x) + user_jobs j_user_id (j_user_id x) sel")
        (auto simp: key not_less not_le)
  qed
  ultimately show ?thesis by blast
qed

definition example_job :: "uuid \<Rightarrow> uuid \<Rightarrow> time \<Rightarrow> queued_job" where
  "example_job i u t = new_queued_job i u ''image_basic'' Queued 0 0 [] (nat_str i) t None"

definition example_queue :: mem_queue where
  "example_queue = fold mem_enqueue [example_job 1 7 10, example_job 2 7 20, example_job 3 8 30] mem_init"

lemma example_queue_ok: "mem_ok example_queue"
  by (auto simp: example_queue_def intro!: mem_enqueue_law(1) mem_ok_init)

theorem mem_claim_fair_witness:
  "length (snd (mem_claim_next_with_lease 100 5 ''s'' 30 None 1 example_queue)) \<le> 5"
  using mem_claim_fair [OF example_queue_ok surjective_pairing, of 100 5 "''s''" 30 None 1] by auto

lemma index_of_take:
  "distinct (map j_id xs) \<Longrightarrow> index_of i k xs = Some r \<Longrightarrow> k \<le> r \<and> (i \<in> j_id ` set (take n xs) \<longleftrightarrow> r < k + n)"
proof (induction i k xs arbitrary: n rule: index_of.induct)
  case (2 i k j js)
  then show ?case by (cases n) (auto split: if_splits dest: in_set_takeD)
qed simp

lemma mem_rank_candidates:
  assumes "\<forall>j \<in> set (map snd (mq_jobs q)). is_backlog j \<longrightarrow> (case j_available_at j of None \<Rightarrow> True | Some t \<Rightarrow> t \<le> now)"
  shows "sort_key claim_key_of (filter (\<lambda>j. is_backlog j \<and> kind_in kinds j) (map snd (mq_jobs q))) =
    mem_candidates now kinds q"
  unfolding mem_candidates_def using assms by (intro arg_cong [of _ _ "sort_key claim_key_of"] filter_cong) auto

text \<open>C3. The reported queue position is the claim position: as long as no backoff delay or per-user
  cap interferes, a job of rank \<open>r\<close> is among the jobs of the next claim exactly if the claim has
  more than \<open>r\<close> slots.\<close>

theorem mem_rank_is_claim_position:
  assumes "mem_ok q" and "mem_queue_rank jid kinds q = Some r"
    and "\<forall>j \<in> set (map snd (mq_jobs q)). is_backlog j \<longrightarrow> (case j_available_at j of None \<Rightarrow> True | Some t \<Rightarrow> t \<le> now)"
  shows "jid \<in> j_id ` set (snd (mem_claim_next_with_lease now cap ow secs kinds 0 q)) \<longleftrightarrow> int r < cap"
proof -
  obtain q' cl where c: "mem_claim_next_with_lease now cap ow secs kinds 0 q = (q', cl)" by force
  have "index_of jid 0 (mem_candidates now kinds q) = Some r"
    using assms(2) mem_rank_candidates [OF assms(3), of kinds]
    by (auto simp: mem_queue_rank_def split: option.splits if_splits)
  from index_of_take [OF mem_candidates_distinct [OF assms(1)] this]
  have "jid \<in> j_id ` set (take (nat cap) (mem_candidates now kinds q)) \<longleftrightarrow> r < nat cap" by simp
  then show ?thesis
    using mem_get_claimed(3) [OF assms(1) c] c by (auto simp: mem_selected_def pick_uncapped)
qed

theorem mem_rank_is_claim_position_witness:
  "3 \<notin> j_id ` set (snd (mem_claim_next_with_lease 100 2 ''s'' 30 None 0 example_queue))"
proof -
  have r: "mem_queue_rank 3 None example_queue = Some 2"
    by (simp add: mem_queue_rank_def example_queue_def example_job_def new_queued_job_def mem_enqueue_def
        mem_init_def is_backlog_def kind_in_def claim_key_of_def)
  have "\<forall>j \<in> set (map snd (mq_jobs example_queue)). j_available_at j = None"
    by (simp add: example_queue_def example_job_def new_queued_job_def mem_enqueue_def mem_init_def)
  with mem_rank_is_claim_position [OF example_queue_ok r] show ?thesis by auto
qed



text \<open>The guard that \<open>mark_running\<close> lacks: a job that was cancelled (or is otherwise finished)
  while its dispatch was under way is put back into \<open>running\<close>, whatever its final state was.\<close>

theorem mem_mark_running_resurrects:
  "mem_get i (mem_mark_running i (fst (mem_cancel i (mem_enqueue (example_job i u t) q)))) =
     Some (example_job i u t\<lparr>j_state := Running, j_prompt_id := None\<rparr>)"
  by (simp add: mem_running_law mem_cancel_law mem_enqueue_law) (simp add: example_job_def new_queued_job_def)

text \<open>The queue does not follow the transition map that calls itself the only source of legal
  moves: every claim takes a job from a state from which the map does not allow \<open>dispatched\<close>, and
  a cancellation of an active job skips \<open>cancelling\<close>.\<close>

theorem queue_bypasses_transition_map:
  assumes "mem_ok q" and "mem_claim_next_with_lease now cap ow secs kinds maxa q = (q', cl)"
    and "j \<in> set cl"
  shows "\<exists>j0 j1. mem_get (j_id j) q = Some j0 \<and> mem_get (j_id j) q' = Some j1 \<and>
    \<not> can_transition (j_state j0) (j_state j1) \<and>
    (\<exists>j2. mem_get (j_id j) (fst (mem_cancel (j_id j) q')) = Some j2 \<and>
       \<not> can_transition (j_state j1) (j_state j2))"
proof -
  from mem_claim_law [OF assms(1,2)] assms(3) obtain j0 j1 where j: "mem_get (j_id j) q = Some j0"
    "is_backlog j0" "mem_get (j_id j) q' = Some j1" "j_state j1 = Dispatched" by blast
  have "\<not> can_transition (j_state j0) Dispatched"
    using j(2) by (auto simp: is_backlog_def can_transition_def)
  moreover have "\<not> can_transition Dispatched Cancelled" by (simp add: can_transition_def)
  ultimately show ?thesis using j by (simp add: mem_cancel_law)
qed

theorem queue_bypasses_transition_map_witness:
  "\<exists>j. mem_get 1 (fst (mem_claim_next_with_lease 100 1 ''s'' 30 None 1 example_queue)) = Some j"
proof -
  have "1 \<in> j_id ` set (snd (mem_claim_next_with_lease 100 1 ''s'' 30 None 1 example_queue))"
    by (simp add: example_queue_def example_job_def new_queued_job_def mem_enqueue_def mem_init_def
        mem_claim_next_with_lease_def mem_claim_next_def mem_candidates_def mem_active_counts_def
        is_backlog_def is_active_def kind_in_def claim_key_of_def count_of_def Let_def)
  then obtain j where "j \<in> set (snd (mem_claim_next_with_lease 100 1 ''s'' 30 None 1 example_queue))" "j_id j = 1"
    by auto
  with queue_bypasses_transition_map [OF example_queue_ok surjective_pairing this(1)] show ?thesis by auto
qed

end
