(* ===== verification/Workflows.thy ===== *)
theory Workflows
  imports Prelude
begin

section \<open>The workflow allowlist (domain/jobs/workflow_registry.py)\<close>

text \<open>
  The registry of named, versioned workflows and its lookups. The graph templates are empty
  dictionaries in the source. A frozen set of names is a list here, read through \<open>set\<close>.
\<close>

record workflow_definition =
  wf_name :: string
  wf_version :: string
  wf_model_family :: string
  wf_graph_template :: dict
  wf_backend :: string

definition REGISTRY :: "((string \<times> string) \<times> workflow_definition) list" where
  "REGISTRY =
     [((''txt2img_basic'', ''v1''), \<lparr>wf_name = ''txt2img_basic'', wf_version = ''v1'',
         wf_model_family = ''sdxl'', wf_graph_template = [], wf_backend = ''comfyui''\<rparr>),
      ((''img2img_basic'', ''v1''), \<lparr>wf_name = ''img2img_basic'', wf_version = ''v1'',
         wf_model_family = ''sdxl'', wf_graph_template = [], wf_backend = ''comfyui''\<rparr>),
      ((''image_basic'', ''v1''), \<lparr>wf_name = ''image_basic'', wf_version = ''v1'',
         wf_model_family = ''sdxl'', wf_graph_template = [], wf_backend = ''comfyui''\<rparr>),
      ((''poster_infographic'', ''v1''), \<lparr>wf_name = ''poster_infographic'', wf_version = ''v1'',
         wf_model_family = ''gemini-image'', wf_graph_template = [], wf_backend = ''gemini''\<rparr>)]"

datatype workflow_error = UnknownWorkflowError string

definition resolve_workflow :: "string \<Rightarrow> string \<Rightarrow> workflow_error + workflow_definition" where
  "resolve_workflow name version =
     (case dget REGISTRY (name, version) of
        None \<Rightarrow> Inl (UnknownWorkflowError (''unknown workflow '' @ name @ ''@'' @ version))
      | Some w \<Rightarrow> Inr w)"

definition list_workflows :: "workflow_definition list" where
  "list_workflows = map snd REGISTRY"

definition backend_for_kind :: "string \<Rightarrow> string option" where
  "backend_for_kind kind = map_option wf_backend (find (\<lambda>w. wf_name w = kind) (map snd REGISTRY))"

definition kinds_for_backend :: "string \<Rightarrow> string list" where
  "kinds_for_backend backend = map wf_name (filter (\<lambda>w. wf_backend w = backend) (map snd REGISTRY))"

subsection \<open>Library lemmas\<close>

lemma kinds_for_backend_iff:
  "k \<in> set (kinds_for_backend b) \<longleftrightarrow> backend_for_kind k = Some b"
  by (auto simp: kinds_for_backend_def backend_for_kind_def REGISTRY_def)

lemma resolve_workflow_cases:
  assumes "resolve_workflow n v = Inr w"
  shows "v = ''v1'' \<and> wf_name w = n \<and> backend_for_kind n = Some (wf_backend w) \<and>
     wf_backend w \<in> {''comfyui'', ''gemini''}"
proof -
  have all: "\<forall>((n, v), w) \<in> set REGISTRY. v = ''v1'' \<and> wf_name w = n \<and>
      backend_for_kind n = Some (wf_backend w) \<and> wf_backend w \<in> {''comfyui'', ''gemini''}"
    by code_simp
  from assms have "dget REGISTRY (n, v) = Some w"
    unfolding resolve_workflow_def by (cases "dget REGISTRY (n, v)") simp_all
  then have "((n, v), w) \<in> set REGISTRY" by (rule dget_SomeD)
  from bspec [OF all this] show ?thesis by simp
qed

lemma resolve_workflow_known:
  "resolve_workflow ''image_basic'' ''v1'' = Inr \<lparr>wf_name = ''image_basic'', wf_version = ''v1'',
     wf_model_family = ''sdxl'', wf_graph_template = [], wf_backend = ''comfyui''\<rparr>"
  "resolve_workflow ''poster_infographic'' ''v1'' = Inr \<lparr>wf_name = ''poster_infographic'',
     wf_version = ''v1'', wf_model_family = ''gemini-image'', wf_graph_template = [], wf_backend = ''gemini''\<rparr>"
  by (simp_all add: resolve_workflow_def REGISTRY_def)

subsection \<open>Properties\<close>

text \<open>The two capacity pools of the scheduler partition the admissible work: every workflow
  that admission can resolve belongs to exactly one of the kinds of \<open>comfyui\<close> and the kinds of
  \<open>gemini\<close>, the one its definition names, so no admitted job is invisible to both passes or
  visible to both.\<close>

theorem backends_partition_workflows:
  assumes "resolve_workflow n v = Inr w"
  shows "(n \<in> set (kinds_for_backend ''comfyui'')) \<noteq> (n \<in> set (kinds_for_backend ''gemini'')) \<and>
    n \<in> set (kinds_for_backend (wf_backend w))"
  using resolve_workflow_cases [OF assms] by (auto simp: kinds_for_backend_iff)

theorem backends_partition_workflows_witness:
  "''poster_infographic'' \<notin> set (kinds_for_backend ''comfyui'')"
proof -
  have "''poster_infographic'' \<in> set (kinds_for_backend ''gemini'')"
    by (simp add: kinds_for_backend_def REGISTRY_def)
  with backends_partition_workflows [OF resolve_workflow_known(2)] show ?thesis by blast
qed

end
