(* ===== verification/Postgres_Queue.thy ===== *)
theory Postgres_Queue
  imports Job_Queue Retry Workflows
begin

section \<open>PostgresJobQueue (adapters/queue/postgres.py)\<close>

text \<open>
  The tables the adapter writes (db/models.py) as lists of rows, and each of its methods as one
  transaction on them: a transaction is atomic, so a method is a function from tables to tables.
  \<open>now\<close> is the time of the transaction. Rows that another transaction holds are the argument
  \<open>locked\<close>, which \<open>FOR UPDATE SKIP LOCKED\<close> passes over. Where SQL leaves the order of rows
  open (ties of the sort key, \<open>RETURNING\<close>) the model uses the order of the table.
\<close>

subsection \<open>Tables\<close>

record gen_row =
  g_id :: uuid
  g_user_id :: uuid
  g_conversation_id :: "uuid option"
  g_kind :: string
  g_model_family :: string
  g_workflow_version :: string
  g_state :: job_state
  g_priority :: int
  g_effective_priority :: rat
  g_idempotency_key :: string
  g_input_payload :: dict
  g_assigned_worker_id :: "uuid option"
  g_current_attempt :: int
  g_max_attempts :: int
  g_queued_at :: time
  g_available_at :: time
  g_started_at :: "time option"
  g_finished_at :: "time option"
  g_cancel_requested_at :: "time option"
  g_error_code :: "string option"
  g_error_detail_sanitized :: "string option"

record attempt_row =
  a_job_id :: uuid
  a_attempt_no :: int
  a_state :: string
  a_lease_owner :: string
  a_lease_expires_at :: time
  a_comfy_prompt_id :: "string option"
  a_submitted_at :: time
  a_finished_at :: "time option"
  a_error_code :: "string option"
  a_metrics :: dict

record event_row =
  e_job_id :: uuid
  e_sequence_no :: int
  e_event_type :: string
  e_payload :: dict

text \<open>The ids that the foreign keys of \<open>generation_jobs\<close> refer to are kept beside the tables.\<close>

record pg_db =
  generation_jobs :: "gen_row list"
  job_attempts :: "attempt_row list"
  job_events :: "event_row list"
  known_users :: "uuid list"
  known_conversations :: "uuid list"

definition update_where :: "('r \<Rightarrow> bool) \<Rightarrow> ('r \<Rightarrow> 'r) \<Rightarrow> 'r list \<Rightarrow> 'r list" where
  "update_where p f rows = map (\<lambda>r. if p r then f r else r) rows"

definition update_jobs :: "(gen_row \<Rightarrow> bool) \<Rightarrow> (gen_row \<Rightarrow> gen_row) \<Rightarrow> pg_db \<Rightarrow> pg_db" where
  "update_jobs p f db = db\<lparr>generation_jobs := update_where p f (generation_jobs db)\<rparr>"

definition in_backlog :: "gen_row \<Rightarrow> bool" where
  "in_backlog r \<longleftrightarrow> g_state r \<in> {Queued, RetryWait}"

definition in_active :: "gen_row \<Rightarrow> bool" where
  "in_active r \<longleftrightarrow> g_state r \<in> {Dispatched, Running}"

definition row_kind_in :: "string list option \<Rightarrow> gen_row \<Rightarrow> bool" where
  "row_kind_in kinds r \<longleftrightarrow> (case kinds of None \<Rightarrow> True | Some ks \<Rightarrow> g_kind r \<in> set ks)"

definition open_row :: "uuid \<Rightarrow> gen_row \<Rightarrow> bool" where
  "open_row jid r \<longleftrightarrow> g_id r = jid \<and> g_state r \<notin> {Succeeded, Failed, Cancelled}"

subsection \<open>Rows to jobs\<close>

definition resolve_workflow_defaults :: "string \<Rightarrow> queue_error + string \<times> string" where
  "resolve_workflow_defaults kd =
     (case find (\<lambda>w. wf_name w = kd) list_workflows of
        Some w \<Rightarrow> Inr (wf_model_family w, wf_version w)
      | None \<Rightarrow> Inl (Unresolvable_Kind kd))"

text \<open>The \<open>LEFT JOIN LATERAL ... ORDER BY attempt_no DESC LIMIT 1\<close>.\<close>

definition latest_attempt :: "pg_db \<Rightarrow> uuid \<Rightarrow> attempt_row option" where
  "latest_attempt db jid =
     (case sort_key (\<lambda>a. - a_attempt_no a) (filter (\<lambda>a. a_job_id a = jid) (job_attempts db)) of
        [] \<Rightarrow> None | a # _ \<Rightarrow> Some a)"

definition metrics_result :: "dict \<Rightarrow> dict option" where
  "metrics_result metrics = (case dget metrics ''result'' of Some (JObj d) \<Rightarrow> Some d | _ \<Rightarrow> None)"

definition row_to_queued_job :: "pg_db \<Rightarrow> gen_row \<Rightarrow> queued_job" where
  "row_to_queued_job db r = (let a = latest_attempt db (g_id r) in
     \<lparr>j_id = g_id r, j_user_id = g_user_id r, j_kind = g_kind r, j_state = g_state r,
      j_priority = g_priority r, j_effective_priority = g_effective_priority r,
      j_input_payload = g_input_payload r, j_idempotency_key = g_idempotency_key r,
      j_queued_at = g_queued_at r, j_current_attempt = g_current_attempt r,
      j_max_attempts = g_max_attempts r, j_assigned_worker_id = g_assigned_worker_id r,
      j_error_code = g_error_code r, j_error_detail = g_error_detail_sanitized r,
      j_result = Option.bind a (\<lambda>a. metrics_result (a_metrics a)),
      j_lease_owner = map_option a_lease_owner a,
      j_lease_expires_at = map_option a_lease_expires_at a,
      j_prompt_id = Option.bind a a_comfy_prompt_id,
      j_conversation_id = None, j_available_at = None\<rparr>)"

definition select_jobs :: "(gen_row \<Rightarrow> bool) \<Rightarrow> pg_db \<Rightarrow> queued_job list" where
  "select_jobs p db = map (row_to_queued_job db) (filter p (generation_jobs db))"

definition first_job :: "(gen_row \<Rightarrow> bool) \<Rightarrow> pg_db \<Rightarrow> queued_job option" where
  "first_job p db = (case select_jobs p db of [] \<Rightarrow> None | j # _ \<Rightarrow> Some j)"

subsection \<open>Internal helpers of the adapter\<close>

definition append_event :: "uuid \<Rightarrow> string \<Rightarrow> dict \<Rightarrow> pg_db \<Rightarrow> pg_db" where
  "append_event jid event_type payload db =
     (let ns = map e_sequence_no (filter (\<lambda>e. e_job_id e = jid) (job_events db))
      in db\<lparr>job_events := job_events db @ [\<lparr>e_job_id = jid,
            e_sequence_no = (if ns = [] then 0 else Max (set ns)) + 1,
            e_event_type = event_type, e_payload = payload\<rparr>]\<rparr>)"

definition on_latest_attempt :: "uuid \<Rightarrow> (attempt_row \<Rightarrow> attempt_row) \<Rightarrow> pg_db \<Rightarrow> pg_db" where
  "on_latest_attempt jid f db =
     (let ns = map a_attempt_no (filter (\<lambda>a. a_job_id a = jid) (job_attempts db))
      in db\<lparr>job_attempts := update_where (\<lambda>a. a_job_id a = jid \<and> a_attempt_no a = Max (set ns)) f
             (job_attempts db)\<rparr>)"

definition update_latest_attempt ::
  "time \<Rightarrow> uuid \<Rightarrow> string \<Rightarrow> bool \<Rightarrow> string option \<Rightarrow> dict option \<Rightarrow> pg_db \<Rightarrow> pg_db" where
  "update_latest_attempt now jid st finished error_code extra_metrics =
     on_latest_attempt jid (\<lambda>a. a\<lparr>a_state := st,
        a_finished_at := (if finished then Some now else a_finished_at a),
        a_error_code := (case error_code of Some c \<Rightarrow> Some c | None \<Rightarrow> a_error_code a),
        a_metrics := (case extra_metrics of Some m \<Rightarrow> dmerge (a_metrics a) m | None \<Rightarrow> a_metrics a)\<rparr>)"

subsection \<open>Enqueue and get\<close>

definition inserted_row :: "queued_job \<Rightarrow> string \<Rightarrow> string \<Rightarrow> gen_row" where
  "inserted_row job model_family workflow_version =
     \<lparr>g_id = j_id job, g_user_id = j_user_id job, g_conversation_id = j_conversation_id job,
      g_kind = j_kind job, g_model_family = model_family,
      g_workflow_version = workflow_version, g_state = j_state job,
      g_priority = j_priority job, g_effective_priority = j_effective_priority job,
      g_idempotency_key = j_idempotency_key job, g_input_payload = j_input_payload job,
      g_assigned_worker_id = None, g_current_attempt = j_current_attempt job,
      g_max_attempts = j_max_attempts job, g_queued_at = j_queued_at job,
      g_available_at = (case j_available_at job of Some t \<Rightarrow> t | None \<Rightarrow> j_queued_at job),
      g_started_at = None, g_finished_at = None, g_cancel_requested_at = None,
      g_error_code = None, g_error_detail_sanitized = None\<rparr>"

text \<open>The constraints of the table: primary key, unique key, state check, foreign keys.\<close>

definition violates :: "queued_job \<Rightarrow> pg_db \<Rightarrow> bool" where
  "violates job db \<longleftrightarrow>
     (\<exists>r \<in> set (generation_jobs db). g_id r = j_id job) \<or>
     (\<exists>r \<in> set (generation_jobs db). g_user_id r = j_user_id job \<and>
        g_idempotency_key r = j_idempotency_key job \<and> g_kind r = j_kind job) \<or>
     (case j_state job of OtherState s \<Rightarrow> True | _ \<Rightarrow> False) \<or>
     j_user_id job \<notin> set (known_users db) \<or>
     (case j_conversation_id job of None \<Rightarrow> False | Some c \<Rightarrow> c \<notin> set (known_conversations db))"

definition pg_enqueue :: "time \<Rightarrow> queued_job \<Rightarrow> pg_db \<Rightarrow> queue_error + pg_db" where
  "pg_enqueue now job db =
     (case resolve_workflow_defaults (j_kind job) of
        Inl e \<Rightarrow> Inl e
      | Inr (model_family, workflow_version) \<Rightarrow>
          if violates job db then Inl Integrity_Error
          else Inr (append_event (j_id job) ''created'' []
            (db\<lparr>generation_jobs := generation_jobs db @ [inserted_row job model_family workflow_version]\<rparr>)))"

definition pg_get :: "uuid \<Rightarrow> pg_db \<Rightarrow> queued_job option" where
  "pg_get jid db = first_job (\<lambda>r. g_id r = jid) db"

subsection \<open>Claiming\<close>

definition DEFAULT_UNLEASED_LEASE_SECONDS :: rat where
  "DEFAULT_UNLEASED_LEASE_SECONDS = 300"

definition AGING_INCREMENT_PER_MINUTE :: rat where
  "AGING_INCREMENT_PER_MINUTE = 1 / 2"

definition aged_priority :: "time \<Rightarrow> int \<Rightarrow> time \<Rightarrow> rat" where
  "aged_priority now pr qat = of_int pr + of_int (now - qat) / 1000000 / 60 * AGING_INCREMENT_PER_MINUTE"

definition row_key :: "time \<Rightarrow> gen_row \<Rightarrow> claim_key" where
  "row_key now r = Claim_Key (aged_priority now (g_priority r) (g_queued_at r)) (g_queued_at r)"

definition claimable :: "time \<Rightarrow> (uuid \<Rightarrow> bool) \<Rightarrow> string list option \<Rightarrow> gen_row \<Rightarrow> bool" where
  "claimable now locked kinds r \<longleftrightarrow> in_backlog r \<and> g_available_at r \<le> now \<and> row_kind_in kinds r \<and> \<not> locked (g_id r)"

definition finalize_claimed_row ::
  "time \<Rightarrow> string \<Rightarrow> time \<Rightarrow> gen_row \<Rightarrow> pg_db \<Rightarrow> pg_db \<times> queued_job" where
  "finalize_claimed_row now owner lease_expires_at r db =
     (let attempt_no = g_current_attempt r + 1;
          same = (\<lambda>a. a_job_id a = g_id r \<and> a_attempt_no a = attempt_no);
          attempts = (if list_ex same (job_attempts db)
            then update_where same (\<lambda>a. a\<lparr>a_lease_owner := owner, a_lease_expires_at := lease_expires_at\<rparr>)
                   (job_attempts db)
            else job_attempts db @ [\<lparr>a_job_id = g_id r, a_attempt_no = attempt_no,
                   a_state = ''dispatched'', a_lease_owner = owner,
                   a_lease_expires_at = lease_expires_at, a_comfy_prompt_id = None,
                   a_submitted_at = now, a_finished_at = None, a_error_code = None, a_metrics = []\<rparr>])
      in (append_event (g_id r) ''dispatched'' [(''attempt_no'', JInt attempt_no)]
            (db\<lparr>job_attempts := attempts\<rparr>),
          \<lparr>j_id = g_id r, j_user_id = g_user_id r, j_kind = g_kind r, j_state = g_state r,
           j_priority = g_priority r, j_effective_priority = g_effective_priority r,
           j_input_payload = g_input_payload r, j_idempotency_key = g_idempotency_key r,
           j_queued_at = g_queued_at r, j_current_attempt = g_current_attempt r,
           j_max_attempts = g_max_attempts r, j_assigned_worker_id = g_assigned_worker_id r,
           j_error_code = g_error_code r, j_error_detail = g_error_detail_sanitized r,
           j_result = None, j_lease_owner = Some owner, j_lease_expires_at = Some lease_expires_at,
           j_prompt_id = None, j_conversation_id = None, j_available_at = None\<rparr>))"

fun finalize_all :: "time \<Rightarrow> string \<Rightarrow> time \<Rightarrow> gen_row list \<Rightarrow> pg_db \<Rightarrow> pg_db \<times> queued_job list" where
  "finalize_all now owner ex [] db = (db, [])"
| "finalize_all now owner ex (r # rs) db =
     (case finalize_claimed_row now owner ex r db of (db', j) \<Rightarrow>
        (case finalize_all now owner ex rs db' of (db'', js) \<Rightarrow> (db'', j # js)))"

definition set_dispatched :: "uuid list \<Rightarrow> pg_db \<Rightarrow> pg_db" where
  "set_dispatched ids = update_jobs (\<lambda>r. g_id r \<in> set ids) (\<lambda>r. r\<lparr>g_state := Dispatched\<rparr>)"

text \<open>\<open>max_active_per_user <= 0\<close>: one statement claims the batch.\<close>

definition pg_claim_batch ::
  "time \<Rightarrow> (uuid \<Rightarrow> bool) \<Rightarrow> int \<Rightarrow> string list option \<Rightarrow> string \<Rightarrow> time \<Rightarrow> pg_db \<Rightarrow> pg_db \<times> queued_job list" where
  "pg_claim_batch now locked worker_capacity kinds owner ex db =
     (let ids = map g_id (take (nat worker_capacity)
            (sort_key (row_key now) (filter (claimable now locked kinds) (generation_jobs db))));
          db' = set_dispatched ids db
      in finalize_all now owner ex (filter (\<lambda>r. g_id r \<in> set ids) (generation_jobs db')) db')"

text \<open>\<open>max_active_per_user > 0\<close>: one row per statement, the user's active jobs counted anew.\<close>

definition pg_active_of :: "pg_db \<Rightarrow> uuid \<Rightarrow> int" where
  "pg_active_of db u = int (length (filter (\<lambda>r. g_user_id r = u \<and> in_active r) (generation_jobs db)))"

definition pg_next_row :: "time \<Rightarrow> (uuid \<Rightarrow> bool) \<Rightarrow> string list option \<Rightarrow> int \<Rightarrow> pg_db \<Rightarrow> gen_row option" where
  "pg_next_row now locked kinds maxa db =
     (case sort_key (row_key now) (filter (\<lambda>r. claimable now locked kinds r \<and>
             pg_active_of db (g_user_id r) < maxa) (generation_jobs db)) of
        [] \<Rightarrow> None | r # _ \<Rightarrow> Some r)"

fun pg_claim_each ::
  "time \<Rightarrow> (uuid \<Rightarrow> bool) \<Rightarrow> nat \<Rightarrow> string list option \<Rightarrow> int \<Rightarrow> string \<Rightarrow> time \<Rightarrow> pg_db
     \<Rightarrow> pg_db \<times> queued_job list" where
  "pg_claim_each now locked 0 kinds maxa owner ex db = (db, [])"
| "pg_claim_each now locked (Suc n) kinds maxa owner ex db =
     (case pg_next_row now locked kinds maxa db of
        None \<Rightarrow> (db, [])
      | Some r \<Rightarrow>
          (case finalize_claimed_row now owner ex (r\<lparr>g_state := Dispatched\<rparr>) (set_dispatched [g_id r] db) of
             (db', j) \<Rightarrow> (case pg_claim_each now locked n kinds maxa owner ex db' of
                (db'', js) \<Rightarrow> (db'', j # js))))"

definition pg_claim ::
  "(uuid \<Rightarrow> bool) \<Rightarrow> time \<Rightarrow> int \<Rightarrow> string \<Rightarrow> rat \<Rightarrow> string list option \<Rightarrow> int \<Rightarrow> pg_db \<Rightarrow> pg_db \<times> queued_job list" where
  "pg_claim locked now worker_capacity owner lease_seconds kinds max_active_per_user db =
     (if worker_capacity \<le> 0 then (db, [])
      else let ex = now + timedelta_us lease_seconds in
        if max_active_per_user \<le> 0 then pg_claim_batch now locked worker_capacity kinds owner ex db
        else pg_claim_each now locked (nat worker_capacity) kinds max_active_per_user owner ex db)"

definition pg_claim_next ::
  "(uuid \<Rightarrow> bool) \<Rightarrow> time \<Rightarrow> int \<Rightarrow> string list option \<Rightarrow> int \<Rightarrow> pg_db \<Rightarrow> pg_db \<times> queued_job list" where
  "pg_claim_next locked now worker_capacity kinds max_active_per_user =
     pg_claim locked now worker_capacity ''unleased'' DEFAULT_UNLEASED_LEASE_SECONDS kinds max_active_per_user"

definition pg_list_active :: "pg_db \<Rightarrow> queued_job list" where
  "pg_list_active db = select_jobs in_active db"

definition count_rows :: "(gen_row \<Rightarrow> bool) \<Rightarrow> pg_db \<Rightarrow> nat" where
  "count_rows p db = length (filter p (generation_jobs db))"

definition pg_count_active :: "string list option \<Rightarrow> pg_db \<Rightarrow> nat" where
  "pg_count_active kinds = count_rows (\<lambda>r. in_active r \<and> row_kind_in kinds r)"

subsection \<open>Transitions\<close>

definition pg_renew_lease :: "time \<Rightarrow> uuid \<Rightarrow> rat \<Rightarrow> pg_db \<Rightarrow> pg_db" where
  "pg_renew_lease now jid lease_seconds =
     on_latest_attempt jid (\<lambda>a. a\<lparr>a_lease_expires_at := now + timedelta_us lease_seconds\<rparr>)"

definition pg_mark_running :: "time \<Rightarrow> uuid \<Rightarrow> pg_db \<Rightarrow> pg_db" where
  "pg_mark_running now jid =
     update_jobs (open_row jid) (\<lambda>r. r\<lparr>g_state := Running, g_started_at := Some now\<rparr>)"

definition pg_mark_succeeded :: "time \<Rightarrow> uuid \<Rightarrow> dict \<Rightarrow> pg_db \<Rightarrow> pg_db" where
  "pg_mark_succeeded now jid res db =
     (if \<not> list_ex (open_row jid) (generation_jobs db) then db
      else append_event jid ''job_succeeded'' []
        (update_latest_attempt now jid ''succeeded'' True None (Some [(''result'', JObj res)])
          (update_jobs (open_row jid) (\<lambda>r. r\<lparr>g_state := Succeeded, g_finished_at := Some now,
             g_error_code := None, g_error_detail_sanitized := None\<rparr>) db)))"

definition json_opt :: "string option \<Rightarrow> json" where
  "json_opt x = (case x of None \<Rightarrow> JNull | Some s \<Rightarrow> JStr s)"

definition pg_mark_failed :: "time \<Rightarrow> uuid \<Rightarrow> string \<Rightarrow> string option \<Rightarrow> pg_db \<Rightarrow> pg_db" where
  "pg_mark_failed now jid error_code error_detail db =
     (if \<not> list_ex (open_row jid) (generation_jobs db) then db
      else append_event jid ''job_failed''
          [(''error_code'', JStr error_code), (''detail'', json_opt error_detail)]
        (update_latest_attempt now jid ''failed'' True (Some error_code) None
          (update_jobs (open_row jid) (\<lambda>r. r\<lparr>g_state := Failed, g_finished_at := Some now,
             g_error_code := Some error_code, g_error_detail_sanitized := error_detail\<rparr>) db)))"

definition pg_mark_retry_wait ::
  "time \<Rightarrow> rat \<Rightarrow> uuid \<Rightarrow> string \<Rightarrow> string option \<Rightarrow> rat option \<Rightarrow> pg_db \<Rightarrow> pg_db" where
  "pg_mark_retry_wait now rnd jid error_code error_detail delay_seconds db =
     (case find (\<lambda>r. g_id r = jid) (generation_jobs db) of
        None \<Rightarrow> db
      | Some row \<Rightarrow>
          let next_attempt = g_current_attempt row + 1;
              delay = (case delay_seconds of Some d \<Rightarrow> d
                       | None \<Rightarrow> compute_backoff_seconds next_attempt default_backoff rnd);
              available_at = now + timedelta_us delay
          in if \<not> list_ex (open_row jid) (generation_jobs db) then db
             else append_event jid ''job_retry_scheduled''
                 [(''error_code'', JStr error_code), (''detail'', json_opt error_detail),
                  (''delay_seconds'', JFloat (Fin delay))]
               (update_latest_attempt now jid ''retry_wait'' True (Some error_code) None
                 (update_jobs (open_row jid) (\<lambda>r. r\<lparr>g_state := RetryWait,
                    g_current_attempt := g_current_attempt r + 1, g_error_code := Some error_code,
                    g_error_detail_sanitized := error_detail, g_available_at := available_at\<rparr>) db)))"

definition pg_set_prompt_id :: "uuid \<Rightarrow> string \<Rightarrow> pg_db \<Rightarrow> pg_db" where
  "pg_set_prompt_id jid prompt_id = on_latest_attempt jid (\<lambda>a. a\<lparr>a_comfy_prompt_id := Some prompt_id\<rparr>)"

definition pg_cancel :: "time \<Rightarrow> uuid \<Rightarrow> pg_db \<Rightarrow> pg_db \<times> bool" where
  "pg_cancel now jid db =
     (if \<not> list_ex (open_row jid) (generation_jobs db) then (db, False)
      else (append_event jid ''job_cancelled'' []
        (update_jobs (open_row jid) (\<lambda>r. r\<lparr>g_state := Cancelled, g_cancel_requested_at := Some now,
           g_finished_at := Some now\<rparr>) db), True))"

subsection \<open>Queries\<close>

definition pg_find_by_idempotency_key :: "uuid \<Rightarrow> string \<Rightarrow> string \<Rightarrow> pg_db \<Rightarrow> queued_job option" where
  "pg_find_by_idempotency_key user_id key kd =
     first_job (\<lambda>r. g_user_id r = user_id \<and> g_idempotency_key r = key \<and> g_kind r = kd)"

definition pg_count_user_backlog :: "uuid \<Rightarrow> pg_db \<Rightarrow> nat" where
  "pg_count_user_backlog user_id = count_rows (\<lambda>r. g_user_id r = user_id \<and> in_backlog r)"

definition pg_count_conversation_backlog :: "uuid \<Rightarrow> pg_db \<Rightarrow> nat" where
  "pg_count_conversation_backlog conv = count_rows (\<lambda>r. g_conversation_id r = Some conv \<and> in_backlog r)"

definition pg_count_global_backlog :: "pg_db \<Rightarrow> nat" where
  "pg_count_global_backlog = count_rows in_backlog"

definition pg_count_backlog_for_kinds :: "string list option \<Rightarrow> pg_db \<Rightarrow> nat" where
  "pg_count_backlog_for_kinds kinds = count_rows (\<lambda>r. in_backlog r \<and> row_kind_in kinds r)"

definition pg_queue_rank :: "time \<Rightarrow> uuid \<Rightarrow> string list option \<Rightarrow> pg_db \<Rightarrow> nat option" where
  "pg_queue_rank now jid kinds db =
     (case find (\<lambda>r. g_id r = jid) (generation_jobs db) of
        None \<Rightarrow> None
      | Some target \<Rightarrow>
          if \<not> in_backlog target then None
          else Some (count_rows (\<lambda>r. in_backlog r \<and> row_kind_in kinds r \<and>
             (aged_priority now (g_priority r) (g_queued_at r) >
                aged_priority now (g_priority target) (g_queued_at target) \<or>
              (aged_priority now (g_priority r) (g_queued_at r) =
                 aged_priority now (g_priority target) (g_queued_at target) \<and>
               g_queued_at r < g_queued_at target))) db))"

text \<open>The adapter as a port; \<open>locked\<close> are the rows other transactions hold while it claims.\<close>

definition pg_port :: "(uuid \<Rightarrow> bool) \<Rightarrow> pg_db job_queue_port" where
  "pg_port locked =
     \<lparr>jq_enqueue = pg_enqueue,
      jq_get = pg_get,
      jq_claim_with_lease = pg_claim locked,
      jq_list_active = pg_list_active,
      jq_count_active = pg_count_active,
      jq_renew_lease = pg_renew_lease,
      jq_mark_running = pg_mark_running,
      jq_mark_succeeded = pg_mark_succeeded,
      jq_mark_failed = pg_mark_failed,
      jq_mark_retry_wait = pg_mark_retry_wait,
      jq_set_prompt_id = pg_set_prompt_id,
      jq_cancel = pg_cancel,
      jq_find_by_idempotency_key = pg_find_by_idempotency_key,
      jq_count_user_backlog = pg_count_user_backlog,
      jq_count_conversation_backlog = pg_count_conversation_backlog,
      jq_count_global_backlog = pg_count_global_backlog,
      jq_count_backlog_for_kinds = pg_count_backlog_for_kinds,
      jq_queue_rank = pg_queue_rank\<rparr>"

lemma pg_port_simps [simp]:
  "jq_enqueue (pg_port locked) = pg_enqueue"
  "jq_get (pg_port locked) = pg_get"
  "jq_claim_with_lease (pg_port locked) = pg_claim locked"
  "jq_list_active (pg_port locked) = pg_list_active"
  "jq_count_active (pg_port locked) = pg_count_active"
  "jq_renew_lease (pg_port locked) = pg_renew_lease"
  "jq_mark_running (pg_port locked) = pg_mark_running"
  "jq_mark_succeeded (pg_port locked) = pg_mark_succeeded"
  "jq_mark_failed (pg_port locked) = pg_mark_failed"
  "jq_mark_retry_wait (pg_port locked) = pg_mark_retry_wait"
  "jq_set_prompt_id (pg_port locked) = pg_set_prompt_id"
  "jq_cancel (pg_port locked) = pg_cancel"
  "jq_find_by_idempotency_key (pg_port locked) = pg_find_by_idempotency_key"
  "jq_count_user_backlog (pg_port locked) = pg_count_user_backlog"
  "jq_count_conversation_backlog (pg_port locked) = pg_count_conversation_backlog"
  "jq_count_global_backlog (pg_port locked) = pg_count_global_backlog"
  "jq_count_backlog_for_kinds (pg_port locked) = pg_count_backlog_for_kinds"
  "jq_queue_rank (pg_port locked) = pg_queue_rank"
  by (simp_all add: pg_port_def)

subsection \<open>Library lemmas\<close>

definition pg_ok :: "pg_db \<Rightarrow> bool" where
  "pg_ok db \<longleftrightarrow> distinct (map g_id (generation_jobs db))"

lemma row_to_queued_job_simps [simp]:
  "j_id (row_to_queued_job db r) = g_id r" "j_user_id (row_to_queued_job db r) = g_user_id r"
  "j_kind (row_to_queued_job db r) = g_kind r" "j_state (row_to_queued_job db r) = g_state r"
  "j_priority (row_to_queued_job db r) = g_priority r"
  "j_input_payload (row_to_queued_job db r) = g_input_payload r"
  "j_idempotency_key (row_to_queued_job db r) = g_idempotency_key r"
  "j_queued_at (row_to_queued_job db r) = g_queued_at r"
  "j_current_attempt (row_to_queued_job db r) = g_current_attempt r"
  "j_max_attempts (row_to_queued_job db r) = g_max_attempts r"
  "j_error_code (row_to_queued_job db r) = g_error_code r"
  "j_error_detail (row_to_queued_job db r) = g_error_detail_sanitized r"
  by (simp_all add: row_to_queued_job_def Let_def)

lemma row_predicates [simp]:
  "is_backlog (row_to_queued_job db r) = in_backlog r" "is_active (row_to_queued_job db r) = in_active r"
  "kind_in ks (row_to_queued_job db r) = row_kind_in ks r"
  by (simp_all add: is_backlog_def is_active_def in_backlog_def in_active_def kind_in_def row_kind_in_def
      split: option.split)

text \<open>The row of an id, and what updates and other tables do to it.\<close>

definition row_of :: "pg_db \<Rightarrow> uuid \<Rightarrow> gen_row option" where
  "row_of db i = find (\<lambda>r. g_id r = i) (generation_jobs db)"

lemma first_job_find: "first_job p db = map_option (row_to_queued_job db) (find p (generation_jobs db))"
proof -
  have "(case map f (filter p rs) of [] \<Rightarrow> None | j # _ \<Rightarrow> Some j) = map_option f (find p rs)"
    for f :: "gen_row \<Rightarrow> queued_job" and rs by (induction rs) auto
  then show ?thesis by (simp add: first_job_def select_jobs_def)
qed

lemma pg_get_row: "pg_get i db = map_option (row_to_queued_job db) (row_of db i)"
  by (simp add: pg_get_def first_job_find row_of_def)

lemma row_of_id: "row_of db i = Some r \<Longrightarrow> g_id r = i"
  unfolding row_of_def by (induction "generation_jobs db") (auto simp: find_Some_iff)

lemma row_of_iff: "pg_ok db \<Longrightarrow> row_of db (g_id r) = Some r \<longleftrightarrow> r \<in> set (generation_jobs db)"
proof -
  have "distinct (map g_id rs) \<Longrightarrow> find (\<lambda>x. g_id x = g_id r) rs = Some r \<longleftrightarrow> r \<in> set rs" for rs
  proof (induction rs)
    case (Cons a rs)
    then show ?case by (cases "g_id a = g_id r") (auto dest: image_eqI [of "g_id r" g_id r])
  qed simp
  then show "pg_ok db \<Longrightarrow> row_of db (g_id r) = Some r \<longleftrightarrow> r \<in> set (generation_jobs db)"
    by (simp add: pg_ok_def row_of_def)
qed

lemma find_map_update:
  "(\<And>r. g_id (f r) = g_id r) \<Longrightarrow>
    find (\<lambda>r. g_id r = i) (map f rs) = map_option f (find (\<lambda>r. g_id r = i) rs)"
  by (induction rs) auto

lemma row_of_update_jobs [store_simps]:
  assumes "\<And>r. g_id (f r) = g_id r"
  shows "row_of (update_jobs p f db) i = map_option (\<lambda>r. if p r then f r else r) (row_of db i)"
  unfolding row_of_def update_jobs_def update_where_def
  using find_map_update [of "\<lambda>r. if p r then f r else r"] assms by simp

lemma jobs_other_tables [simp]:
  "generation_jobs (append_event i et pl db) = generation_jobs db"
  "generation_jobs (on_latest_attempt i g db) = generation_jobs db"
  "generation_jobs (update_latest_attempt now i st fin ec em db) = generation_jobs db"
  "generation_jobs (fst (finalize_claimed_row now ow ex r db)) = generation_jobs db"
  by (simp_all add: append_event_def on_latest_attempt_def update_latest_attempt_def
      finalize_claimed_row_def Let_def)

lemma row_of_other_tables [simp]:
  "row_of (append_event i et pl db) = row_of db"
  "row_of (on_latest_attempt i g db) = row_of db"
  "row_of (update_latest_attempt now i st fin ec em db) = row_of db"
  by (simp_all add: row_of_def fun_eq_iff)

lemma pg_ok_other_tables [simp]:
  "pg_ok (append_event i et pl db) = pg_ok db" "pg_ok (on_latest_attempt i g db) = pg_ok db"
  "pg_ok (update_latest_attempt now i st fin ec em db) = pg_ok db"
  by (simp_all add: pg_ok_def)

lemma pg_ok_update_jobs [wf_intros]:
  "pg_ok db \<Longrightarrow> (\<And>r. g_id (f r) = g_id r) \<Longrightarrow> pg_ok (update_jobs p f db)"
proof -
  assume a: "pg_ok db" "\<And>r. g_id (f r) = g_id r"
  have "map g_id (generation_jobs (update_jobs p f db)) = map g_id (generation_jobs db)"
    using a(2) by (simp add: update_jobs_def update_where_def)
  with a(1) show ?thesis by (simp only: pg_ok_def)
qed

subsubsection \<open>Attempts do not change what the contract observes\<close>

text \<open>Two views of a job that agree on everything but the lease, the prompt and the result.\<close>

lemma pg_get_attempts:
  "row_of db' i = row_of db i \<Longrightarrow> latest_attempt db' i = latest_attempt db i \<Longrightarrow> pg_get i db' = pg_get i db"
  by (cases "row_of db i") (simp_all add: pg_get_row row_to_queued_job_def Let_def row_of_id)

lemma latest_attempt_update_jobs [simp]: "latest_attempt (update_jobs p f db) i = latest_attempt db i"
  by (simp add: latest_attempt_def update_jobs_def)

lemma latest_attempt_append_event [simp]: "latest_attempt (append_event k et pl db) i = latest_attempt db i"
  by (simp add: latest_attempt_def append_event_def Let_def)

lemma filter_update_where_other:
  "(\<And>r. p r \<Longrightarrow> \<not> s r) \<Longrightarrow> (\<And>r. s (f r) = s r) \<Longrightarrow> filter s (update_where p f rows) = filter s rows"
  by (induction rows) (auto simp: update_where_def)

lemma latest_attempt_other:
  assumes "i \<noteq> k" "\<And>a. a_job_id (f a) = a_job_id a"
  shows "latest_attempt (on_latest_attempt k f db) i = latest_attempt db i"
proof -
  have "filter (\<lambda>a. a_job_id a = i) (job_attempts (on_latest_attempt k f db)) =
      filter (\<lambda>a. a_job_id a = i) (job_attempts db)"
    using assms by (auto simp: on_latest_attempt_def Let_def intro!: filter_update_where_other)
  then show ?thesis by (simp add: latest_attempt_def)
qed

lemma latest_attempt_finalize_other:
  assumes "i \<noteq> g_id r"
  shows "latest_attempt (fst (finalize_claimed_row now ow ex r db)) i = latest_attempt db i"
proof -
  let ?n = "g_current_attempt r + 1"
  have "filter (\<lambda>a. a_job_id a = i) (update_where (\<lambda>a. a_job_id a = g_id r \<and> a_attempt_no a = ?n)
     (\<lambda>a. a\<lparr>a_lease_owner := ow, a_lease_expires_at := ex\<rparr>) as) = filter (\<lambda>a. a_job_id a = i) as" for as :: "attempt_row list"
    using assms by (intro filter_update_where_other) auto
  then have "filter (\<lambda>a. a_job_id a = i) (job_attempts (fst (finalize_claimed_row now ow ex r db))) =
      filter (\<lambda>a. a_job_id a = i) (job_attempts db)"
    using assms by (simp add: finalize_claimed_row_def Let_def append_event_def)
  then show ?thesis by (simp add: latest_attempt_def)
qed

lemma row_of_finalize [simp]: "row_of (fst (finalize_claimed_row now ow ex r db)) = row_of db"
  by (simp add: row_of_def fun_eq_iff)

lemma finalize_claimed_job:
  "finalize_claimed_row now ow ex r db = (db', j) \<Longrightarrow> j_id j = g_id r \<and> j_state j = g_state r \<and>
     j_user_id j = g_user_id r \<and> same_job (row_to_queued_job dbx r) j"
  by (auto simp: finalize_claimed_row_def Let_def same_job_def)

lemma finalize_all_law:
  "finalize_all now ow ex rs db = (db', js) \<Longrightarrow>
     generation_jobs db' = generation_jobs db \<and> map j_id js = map g_id rs \<and>
     list_all2 (\<lambda>r j. same_job (row_to_queued_job db r) j) rs js \<and>
     (\<forall>i. i \<notin> g_id ` set rs \<longrightarrow> latest_attempt db' i = latest_attempt db i)"
proof (induction now ow ex rs db arbitrary: db' js rule: finalize_all.induct)
  case (1 now ow ex db)
  then show ?case by simp
next
  case (2 now ow ex r rs db)
  obtain d1 j where f: "finalize_claimed_row now ow ex r db = (d1, j)" by force
  obtain d2 js' where g: "finalize_all now ow ex rs d1 = (d2, js')" by force
  from "2.prems" f g have eq: "db' = d2" "js = j # js'" by simp_all
  from f have d1: "generation_jobs d1 = generation_jobs db"
    "\<And>i. i \<noteq> g_id r \<Longrightarrow> latest_attempt d1 i = latest_attempt db i"
    using jobs_other_tables(4) [of now ow ex r db] latest_attempt_finalize_other [of _ r now ow ex db]
    by (metis fst_conv)+
  have sj: "same_job (row_to_queued_job d1 x) y = same_job (row_to_queued_job db x) y" for x y
    by (simp add: same_job_def)
  from "2.IH" [OF f [symmetric] g] d1 finalize_claimed_job [OF f, of db] show ?case
    by (auto simp: eq sj)
qed

lemma row_of_cong: "generation_jobs db' = generation_jobs db \<Longrightarrow> row_of db' = row_of db"
  by (simp add: row_of_def fun_eq_iff)

subsubsection \<open>Both claim paths are the abstract selection\<close>

definition pg_candidates :: "time \<Rightarrow> (uuid \<Rightarrow> bool) \<Rightarrow> string list option \<Rightarrow> pg_db \<Rightarrow> gen_row list" where
  "pg_candidates now locked kinds db =
     sort_key (row_key now) (filter (claimable now locked kinds) (generation_jobs db))"

lemma pg_candidates_in:
  "r \<in> set (pg_candidates now locked kinds db) \<longleftrightarrow>
     r \<in> set (generation_jobs db) \<and> claimable now locked kinds r"
  by (auto simp: pg_candidates_def)

lemma pg_candidates_distinct: "pg_ok db \<Longrightarrow> distinct (map g_id (pg_candidates now locked kinds db))"
  unfolding pg_candidates_def pg_ok_def by (rule distinct_map_sort_filter)

lemma generation_jobs_set_dispatched:
  "generation_jobs (set_dispatched ids db) =
     map (\<lambda>r. if g_id r \<in> set ids then r\<lparr>g_state := Dispatched\<rparr> else r) (generation_jobs db)"
  by (simp add: set_dispatched_def update_jobs_def update_where_def)

lemma pg_ok_set_dispatched: "pg_ok db \<Longrightarrow> pg_ok (set_dispatched ids db)"
  unfolding set_dispatched_def by (rule pg_ok_update_jobs) simp_all

lemma pg_next_row_candidates:
  "pg_next_row now locked kinds maxa db =
     (case filter (\<lambda>r. pg_active_of db (g_user_id r) < maxa) (pg_candidates now locked kinds db) of
        [] \<Rightarrow> None | r # _ \<Rightarrow> Some r)"
  by (simp add: pg_next_row_def pg_candidates_def sort_key_filter_stable conj_commute)

lemma pg_candidates_dispatched:
  assumes "pg_ok db" "r \<in> set (pg_candidates now locked kinds db)"
    and "generation_jobs db1 = generation_jobs (set_dispatched [g_id r] db)"
  shows "pg_candidates now locked kinds db1 = remove1 r (pg_candidates now locked kinds db)"
proof -
  let ?c = "claimable now locked kinds" and ?f = "\<lambda>x. if g_id x = g_id r then x\<lparr>g_state := Dispatched\<rparr> else x"
  have r: "r \<in> set (generation_jobs db)" using assms(2) by (simp add: pg_candidates_in)
  have one: "g_id x = g_id r \<longleftrightarrow> x = r" if "x \<in> set (generation_jobs db)" for x
    using assms(1) that r by (auto simp: pg_ok_def distinct_map inj_on_def)
  have "filter ?c (map ?f rs) = filter (\<lambda>x. x \<noteq> r) (filter ?c rs)"
    if "set rs \<subseteq> set (generation_jobs db)" for rs
    using that by (induction rs) (auto simp: one claimable_def in_backlog_def)
  then have "filter ?c (generation_jobs db1) = filter (\<lambda>x. x \<noteq> r) (filter ?c (generation_jobs db))"
    by (simp add: assms(3) generation_jobs_set_dispatched)
  moreover have "distinct (pg_candidates now locked kinds db)"
    using pg_candidates_distinct [OF assms(1)] by (simp add: distinct_map)
  ultimately show ?thesis
    by (simp add: distinct_remove1_removeAll removeAll_filter_not_eq sort_key_filter_stable)
      (simp add: pg_candidates_def sort_key_filter_stable eq_commute)
qed

lemma pg_active_of_dispatched:
  assumes "pg_ok db" "r \<in> set (generation_jobs db)" "in_backlog r"
    and "generation_jobs db1 = generation_jobs (set_dispatched [g_id r] db)"
  shows "pg_active_of db1 = bump (pg_active_of db) (g_user_id r)"
proof
  fix u
  let ?f = "\<lambda>x. if g_id x = g_id r then x\<lparr>g_state := Dispatched\<rparr> else x"
  let ?p = "\<lambda>x. g_user_id x = u \<and> in_active x"
  have act: "in_active (x\<lparr>g_state := Dispatched\<rparr>)" for x :: gen_row by (simp add: in_active_def)
  have na: "\<not> in_active r" using assms(3) by (auto simp: in_backlog_def in_active_def)
  define h where "h x = ?p (?f x)" for x
  have h: "h x \<longleftrightarrow> ?p x" if "g_id x \<noteq> g_id r" for x using that by (simp add: h_def)
  have hr: "h r \<longleftrightarrow> g_user_id r = u" using act by (simp add: h_def)
  have skip: "length (filter h rs) = length (filter ?p rs)" if "g_id r \<notin> g_id ` set rs" for rs
    using that h by (induction rs) auto
  have "length (filter h rs) = length (filter ?p rs) + (if u = g_user_id r then 1 else 0)"
    if "distinct (map g_id rs)" "r \<in> set rs" for rs
    using that
  proof (induction rs)
    case (Cons x rs)
    show ?case
    proof (cases "x = r")
      case True
      with Cons.prems have "g_id r \<notin> g_id ` set rs" by simp
      from skip [OF this] True na hr show ?thesis by simp
    next
      case False
      with Cons.prems have "g_id x \<noteq> g_id r" "r \<in> set rs" by (auto simp: image_iff)
      with Cons h show ?thesis by simp
    qed
  qed simp
  moreover have "?p \<circ> ?f = h" by (simp add: fun_eq_iff h_def)
  then have "filter ?p (map ?f rs) = map ?f (filter h rs)" for rs by (simp only: filter_map)
  ultimately show "pg_active_of db1 u = bump (pg_active_of db) (g_user_id r) u"
    using assms(1,2)
    by (simp add: pg_active_of_def assms(4) generation_jobs_set_dispatched pg_ok_def bump_apply del: filter_map)
qed

lemma same_row: "same_job (row_to_queued_job d r) = same_job (row_to_queued_job d' r)"
  by (simp add: same_job_def fun_eq_iff)

lemma same_row_state: "same_job (row_to_queued_job d (r\<lparr>g_state := st\<rparr>)) = same_job (row_to_queued_job d r)"
  by (simp add: same_job_def fun_eq_iff)

text \<open>What a claim that took the rows \<open>sel\<close> leaves behind.\<close>

definition claimed_rows :: "pg_db \<Rightarrow> gen_row list \<Rightarrow> pg_db \<Rightarrow> queued_job list \<Rightarrow> bool" where
  "claimed_rows db sel db' js \<longleftrightarrow>
     generation_jobs db' = generation_jobs (set_dispatched (map g_id sel) db) \<and>
     j_id ` set js = g_id ` set sel \<and> distinct (map j_id js) \<and> length js = length sel \<and>
     (\<forall>j \<in> set js. \<exists>r \<in> set sel. same_job (row_to_queued_job db r) j) \<and>
     (\<forall>i. i \<notin> g_id ` set sel \<longrightarrow> latest_attempt db' i = latest_attempt db i)"

lemma pg_claim_each_law:
  "pg_ok db \<Longrightarrow> 0 < maxa \<Longrightarrow> pg_claim_each now locked n kinds maxa ow ex db = (db', js) \<Longrightarrow>
    (let sel = pick g_user_id (int n) maxa (pg_active_of db) (pg_candidates now locked kinds db)
     in map j_id js = map g_id sel \<and> claimed_rows db sel db' js)"
proof (induction n arbitrary: db db' js)
  case 0
  then show ?case by (cases "pg_candidates now locked kinds db")
      (auto simp: claimed_rows_def generation_jobs_set_dispatched)
next
  case (Suc n)
  let ?c = "pg_candidates now locked kinds db" and ?a = "pg_active_of db"
  show ?case
  proof (cases "filter (\<lambda>r. ?a (g_user_id r) < maxa) ?c")
    case Nil
    with Suc.prems have "db' = db" "js = []" by (simp_all add: pg_next_row_candidates)
    with Nil Suc.prems(2) show ?thesis
      by (simp add: pick_unfold claimed_rows_def generation_jobs_set_dispatched)
  next
    case (Cons r rs)
    then have "r \<in> set (filter (\<lambda>r. ?a (g_user_id r) < maxa) ?c)" by simp
    then have rin: "r \<in> set ?c" by simp
    then have r: "r \<in> set (generation_jobs db)" "in_backlog r" by (simp_all add: pg_candidates_in claimable_def)
    let ?d = "set_dispatched [g_id r] db"
    obtain db1 j where f: "finalize_claimed_row now ow ex (r\<lparr>g_state := Dispatched\<rparr>) ?d = (db1, j)" by force
    obtain db2 js' where g: "pg_claim_each now locked n kinds maxa ow ex db1 = (db2, js')" by force
    from Suc.prems(3) Cons f g have eq: "db' = db2" "js = j # js'" by (simp_all add: pg_next_row_candidates)
    have gj: "generation_jobs db1 = generation_jobs ?d"
      using jobs_other_tables(4) [of now ow ex "r\<lparr>g_state := Dispatched\<rparr>" ?d] f by simp
    have ok1: "pg_ok db1" using pg_ok_set_dispatched [OF Suc.prems(1)] gj by (simp add: pg_ok_def)
    let ?sel = "pick g_user_id (int n) maxa (bump ?a (g_user_id r)) (remove1 r ?c)"
    from Suc.IH [OF ok1 Suc.prems(2) g]
    have IH: "map j_id js' = map g_id ?sel" "claimed_rows db1 ?sel db2 js'"
      by (simp_all add: Let_def pg_candidates_dispatched [OF Suc.prems(1) rin gj]
          pg_active_of_dispatched [OF Suc.prems(1) r gj])
    have sel: "pick g_user_id (int (Suc n)) maxa ?a ?c = r # ?sel"
      using Suc.prems(2) Cons by (simp add: pick_unfold)
    have dist: "distinct (map g_id (r # ?sel))"
      unfolding sel [symmetric] by (rule distinct_pick [OF pg_candidates_distinct [OF Suc.prems(1)]])
    have jr: "j_id j = g_id r" "same_job (row_to_queued_job db r) j"
      using finalize_claimed_job [OF f, of db] unfolding same_row_state by simp_all
    have la: "latest_attempt db1 i = latest_attempt db i" if "i \<noteq> g_id r" for i
      using latest_attempt_finalize_other [of i "r\<lparr>g_state := Dispatched\<rparr>" now ow ex ?d] that f
      by (simp add: set_dispatched_def)
    have "generation_jobs db2 = generation_jobs (set_dispatched (map g_id (r # ?sel)) db)"
      using IH(2) by (simp add: claimed_rows_def gj generation_jobs_set_dispatched)
    moreover have ids: "map j_id (j # js') = map g_id (r # ?sel)" using IH(1) jr by simp
    then have "j_id ` set (j # js') = g_id ` set (r # ?sel)" "length (j # js') = length (r # ?sel)"
      "distinct (map j_id (j # js'))"
      using dist by (metis list.set_map, metis length_map, simp only:)
    moreover have "\<exists>r' \<in> set (r # ?sel). same_job (row_to_queued_job db r') x" if "x \<in> set (j # js')" for x
    proof (cases "x = j")
      case True
      with jr(2) show ?thesis by simp
    next
      case False
      with that IH(2) obtain r' where "r' \<in> set ?sel" "same_job (row_to_queued_job db1 r') x"
        unfolding claimed_rows_def by auto
      then show ?thesis using same_row [of db1 r' db] by auto
    qed
    moreover have "latest_attempt db2 i = latest_attempt db i" if "i \<notin> g_id ` set (r # ?sel)" for i
      using that IH(2) la by (simp add: claimed_rows_def)
    ultimately have "claimed_rows db (r # ?sel) db2 (j # js')" unfolding claimed_rows_def by blast
    then show ?thesis using eq sel IH(1) jr by (simp only: Let_def) simp
  qed
qed

lemma filter_dispatched:
  "filter (\<lambda>r. g_id r \<in> ids) (map (\<lambda>r. if g_id r \<in> ids then r\<lparr>g_state := Dispatched\<rparr> else r) rows) =
     map (\<lambda>r. r\<lparr>g_state := Dispatched\<rparr>) (filter (\<lambda>r. g_id r \<in> ids) (rows :: gen_row list))"
  by (induction rows) auto

lemma pg_claim_batch_law:
  assumes "pg_ok db" "pg_claim_batch now locked cap kinds ow ex db = (db', js)"
  shows "claimed_rows db (take (nat cap) (pg_candidates now locked kinds db)) db' js"
proof -
  let ?sel = "take (nat cap) (pg_candidates now locked kinds db)"
  let ?ids = "map g_id ?sel" and ?d = "set_dispatched (map g_id ?sel) db"
  let ?rs = "filter (\<lambda>r. g_id r \<in> set ?ids) (generation_jobs ?d)"
  have "finalize_all now ow ex ?rs ?d = (db', js)"
    using assms(2) by (simp add: pg_claim_batch_def Let_def pg_candidates_def)
  note f = finalize_all_law [OF this]
  have sub: "set ?sel \<subseteq> set (generation_jobs db)"
    using set_take_subset pg_candidates_in by fastforce
  have rs: "?rs = map (\<lambda>r. r\<lparr>g_state := Dispatched\<rparr>) (filter (\<lambda>r. g_id r \<in> set ?ids) (generation_jobs db))"
    unfolding generation_jobs_set_dispatched by (rule filter_dispatched)
  have ids: "g_id ` set ?rs = g_id ` set ?sel"
    unfolding rs using sub by (auto simp: image_iff) (metis subsetD)
  have d1: "distinct (map g_id ?rs)"
    using pg_ok_set_dispatched [OF assms(1)] unfolding pg_ok_def by (rule distinct_map_filter)
  have d2: "distinct (map g_id ?sel)"
    using pg_candidates_distinct [OF assms(1)] by (simp add: take_map [symmetric])
  have len: "length ?rs = length ?sel"
    using distinct_card [OF d1] distinct_card [OF d2] ids by (simp only: list.set_map length_map)
  have jids: "map j_id js = map g_id ?rs" using f by blast
  have "\<exists>r \<in> set ?sel. same_job (row_to_queued_job db r) j" if "j \<in> set js" for j
  proof -
    from that f obtain r' where r': "r' \<in> set ?rs" "same_job (row_to_queued_job ?d r') j"
      using list_all2_in [of _ ?rs js j] by blast
    then obtain r where r: "r \<in> set (generation_jobs db)" "g_id r \<in> set ?ids" "r' = r\<lparr>g_state := Dispatched\<rparr>"
      unfolding rs by auto
    from r(2) obtain r2 where "r2 \<in> set ?sel" "g_id r2 = g_id r" by (auto simp del: set_take_subset)
    moreover from this sub r(1) assms(1) have "r2 = r"
      by (auto simp: pg_ok_def distinct_map inj_on_def)
    moreover have "same_job (row_to_queued_job db r) j"
      using r'(2) unfolding r(3) same_row_state same_row [of ?d r db] .
    ultimately show ?thesis by blast
  qed
  moreover have "j_id ` set js = g_id ` set ?sel" using jids ids by (metis list.set_map)
  moreover have "distinct (map j_id js)" "length js = length ?sel"
    using jids d1 len by (simp_all, metis length_map)
  moreover have "latest_attempt db' i = latest_attempt db i" if "i \<notin> g_id ` set ?sel" for i
    using f that ids by (simp add: set_dispatched_def)
  ultimately show ?thesis using f unfolding claimed_rows_def by simp
qed

lemma pg_claim_law:
  assumes "pg_ok db" "pg_claim locked now cap ow secs kinds maxa db = (db', js)"
  shows "claimed_rows db (pick g_user_id cap maxa (pg_active_of db) (pg_candidates now locked kinds db)) db' js"
proof -
  consider "cap \<le> 0" | "0 < cap" "maxa \<le> 0" | "0 < cap" "0 < maxa" by linarith
  then show ?thesis
  proof cases
    case 1
    with assms show ?thesis by (simp add: pg_claim_def claimed_rows_def generation_jobs_set_dispatched)
  next
    case 2
    then have "pg_claim_batch now locked cap kinds ow (now + timedelta_us secs) db = (db', js)"
      using assms(2) by (simp add: pg_claim_def Let_def)
    from pg_claim_batch_law [OF assms(1) this] 2 show ?thesis by (simp add: pick_uncapped)
  next
    case 3
    then have "pg_claim_each now locked (nat cap) kinds maxa ow (now + timedelta_us secs) db = (db', js)"
      using assms(2) by (simp add: pg_claim_def Let_def)
    from pg_claim_each_law [OF assms(1) 3(2) this] 3 show ?thesis by (simp add: Let_def)
  qed
qed

subsection \<open>The adapter keeps the contract\<close>

lemma pg_get_id: "pg_get i db = Some j \<Longrightarrow> j_id j = i"
  by (auto simp: pg_get_row row_of_id)

lemma row_of_claimed:
  assumes "generation_jobs db' = generation_jobs (set_dispatched ids db)"
  shows "row_of db' i = map_option (\<lambda>r. if i \<in> set ids then r\<lparr>g_state := Dispatched\<rparr> else r) (row_of db i)"
proof -
  have "row_of db' i = row_of (set_dispatched ids db) i" by (simp add: row_of_def assms)
  then show ?thesis
    by (cases "row_of db i") (auto simp: set_dispatched_def row_of_update_jobs dest: row_of_id)
qed

lemma pg_claim_contract:
  assumes "pg_ok db" "pg_claim locked now cap ow secs kinds maxa db = (db', cl)"
  shows "pg_ok db' \<and> distinct (map j_id cl) \<and> length cl \<le> nat cap \<and>
      (\<forall>j \<in> set cl. \<exists>j0 j1. pg_get (j_id j) db = Some j0 \<and> is_backlog j0 \<and> kind_in kinds j0 \<and>
         same_job j0 j \<and> pg_get (j_id j) db' = Some j1 \<and> same_job j0 j1 \<and>
         j_state j1 = Dispatched \<and> j_current_attempt j1 = j_current_attempt j0) \<and>
      (\<forall>i. i \<notin> j_id ` set cl \<longrightarrow> pg_get i db' = pg_get i db)"
proof -
  let ?sel = "pick g_user_id cap maxa (pg_active_of db) (pg_candidates now locked kinds db)"
  note c = pg_claim_law [OF assms, unfolded claimed_rows_def]
  have rows: "row_of db' i = map_option (\<lambda>r. if i \<in> g_id ` set ?sel then r\<lparr>g_state := Dispatched\<rparr> else r) (row_of db i)" for i
    using row_of_claimed [of db' "map g_id ?sel" db i] c by simp
  have "pg_ok db'" using c pg_ok_set_dispatched [OF assms(1), of "map g_id ?sel"] by (simp add: pg_ok_def)
  moreover have "length cl \<le> nat cap" using c length_pick by simp
  moreover have "\<exists>j0 j1. pg_get (j_id j) db = Some j0 \<and> is_backlog j0 \<and> kind_in kinds j0 \<and>
         same_job j0 j \<and> pg_get (j_id j) db' = Some j1 \<and> same_job j0 j1 \<and>
         j_state j1 = Dispatched \<and> j_current_attempt j1 = j_current_attempt j0" if "j \<in> set cl" for j
  proof -
    from c that obtain r where r: "r \<in> set ?sel" "same_job (row_to_queued_job db r) j" by blast
    from r(2) have id: "j_id j = g_id r" by (simp add: same_job_def)
    from pick_subset [OF r(1)] have "r \<in> set (generation_jobs db)" and cm: "claimable now locked kinds r"
      by (simp_all add: pg_candidates_in)
    then have row: "row_of db (g_id r) = Some r" using row_of_iff [OF assms(1)] by blast
    have "row_of db' (g_id r) = Some (r\<lparr>g_state := Dispatched\<rparr>)" using rows [of "g_id r"] r(1) row by simp
    with row r(2) cm show ?thesis by (simp add: id pg_get_row claimable_def same_job_def)
  qed
  moreover have "pg_get i db' = pg_get i db" if "i \<notin> j_id ` set cl" for i
    using that c rows by (intro pg_get_attempts) (auto simp: option.map_ident)
  ultimately show ?thesis using c by blast
qed

lemma pg_count_law:
  assumes "pg_ok db"
  shows "count_rows (\<lambda>r. p (row_to_queued_job db r)) db = card (jobs_with (\<lambda>i. pg_get i db) p)"
proof -
  let ?rs = "filter (\<lambda>r. p (row_to_queued_job db r)) (generation_jobs db)"
  have "jobs_with (\<lambda>i. pg_get i db) p = g_id ` set ?rs"
  proof (rule set_eqI)
    fix i show "i \<in> jobs_with (\<lambda>i. pg_get i db) p \<longleftrightarrow> i \<in> g_id ` set ?rs"
      using row_of_iff [OF assms] row_of_id by (force simp: jobs_with_def pg_get_row)
  qed
  moreover have "distinct (map g_id ?rs)" using assms unfolding pg_ok_def by (rule distinct_map_filter)
  ultimately show ?thesis using distinct_card [of "map g_id ?rs"] by (simp add: count_rows_def)
qed

lemma open_row_iff: "open_row i r \<longleftrightarrow> g_id r = i \<and> \<not> is_terminal (g_state r)"
  by (auto simp: open_row_def is_terminal_iff)

lemma open_row_exists:
  assumes "pg_ok db"
  shows "list_ex (open_row i) (generation_jobs db) \<longleftrightarrow> (\<exists>r. row_of db i = Some r \<and> \<not> is_terminal (g_state r))"
  using row_of_iff [OF assms] row_of_id by (fastforce simp: list_ex_iff open_row_iff)

text \<open>A guarded update shows in the view of its job and nowhere else.\<close>

definition observed :: "(gen_row \<Rightarrow> gen_row) \<Rightarrow> uuid \<Rightarrow> pg_db \<Rightarrow> pg_db \<Rightarrow> bool" where
  "observed f i db db' \<longleftrightarrow>
     pg_ok db' \<and> (\<forall>k. k \<noteq> i \<longrightarrow> pg_get k db' = pg_get k db) \<and>
     (\<forall>r. row_of db i = Some r \<longrightarrow> row_of db' i = Some (f r)) \<and> (row_of db i = None \<longrightarrow> row_of db' i = None)"

lemma observed_get:
  "observed f i db db' \<Longrightarrow> pg_get i db = Some j \<Longrightarrow>
    \<exists>r. row_of db i = Some r \<and> j = row_to_queued_job db r \<and> pg_get i db' = Some (row_to_queued_job db' (f r))"
  by (auto simp: observed_def pg_get_row)

lemma observed_none: "observed f i db db' \<Longrightarrow> pg_get i db = None \<Longrightarrow> pg_get i db' = None"
  by (auto simp: observed_def pg_get_row)

lemma observed_frame: "observed f i db db' \<Longrightarrow> k \<noteq> i \<Longrightarrow> pg_get k db' = pg_get k db"
  by (simp add: observed_def)

lemma observed_ok: "observed f i db db' \<Longrightarrow> pg_ok db'"
  by (simp add: observed_def)

lemma observed_update:
  assumes "pg_ok db" "\<And>r. g_id (f r) = g_id r"
  shows "observed (\<lambda>r. if is_terminal (g_state r) then r else f r) i db (update_jobs (open_row i) f db)"
proof -
  have row: "row_of (update_jobs (open_row i) f db) k =
      map_option (\<lambda>r. if open_row i r then f r else r) (row_of db k)" for k
    using assms(2) by (rule row_of_update_jobs)
  have "pg_get k (update_jobs (open_row i) f db) = pg_get k db" if "k \<noteq> i" for k
    using that by (intro pg_get_attempts) (cases "row_of db k"; auto simp: row open_row_iff dest: row_of_id)+
  moreover have "row_of (update_jobs (open_row i) f db) i = Some (if is_terminal (g_state r) then r else f r)"
    if "row_of db i = Some r" for r
    using that row_of_id [OF that] by (simp add: row open_row_iff)
  ultimately show ?thesis using assms pg_ok_update_jobs unfolding observed_def by (simp add: row)
qed

lemma observed_attempt:
  assumes "observed f i db db'" "\<And>a. a_job_id (h a) = a_job_id a"
  shows "observed f i db (on_latest_attempt i h db')"
proof -
  have "pg_get k (on_latest_attempt i h db') = pg_get k db'" if "k \<noteq> i" for k
    using that assms(2) by (intro pg_get_attempts) (simp_all add: latest_attempt_other)
  with assms(1) show ?thesis by (simp add: observed_def)
qed

lemma observed_latest:
  "observed f i db db' \<Longrightarrow> observed f i db (update_latest_attempt now i st fin ec em db')"
  unfolding update_latest_attempt_def by (rule observed_attempt) simp_all

lemma observed_event: "observed f i db db' \<Longrightarrow> observed f i db (append_event i et pl db')"
proof -
  have "pg_get k (append_event i et pl db') = pg_get k db'" for k by (rule pg_get_attempts) simp_all
  then show "observed f i db db' \<Longrightarrow> ?thesis" by (simp add: observed_def)
qed

lemma observed_same: "pg_ok db \<Longrightarrow> observed (\<lambda>r. r) i db db"
  by (simp add: observed_def)

lemmas observed_rules = observed_event observed_latest observed_attempt observed_update observed_same

text \<open>The six transitions: closed jobs leave the tables untouched, open ones are updated.\<close>

lemma pg_running_law:
  "pg_ok db \<Longrightarrow> observed (\<lambda>r. if is_terminal (g_state r) then r
     else r\<lparr>g_state := Running, g_started_at := Some now\<rparr>) i db (pg_mark_running now i db)"
  unfolding pg_mark_running_def by (rule observed_update) simp_all

lemma pg_succeeded_law:
  assumes "pg_ok db"
  shows "(\<nexists>r. row_of db i = Some r \<and> \<not> is_terminal (g_state r)) \<Longrightarrow> pg_mark_succeeded now i res db = db"
    and "(\<exists>r. row_of db i = Some r \<and> \<not> is_terminal (g_state r)) \<Longrightarrow>
      observed (\<lambda>r. if is_terminal (g_state r) then r else r\<lparr>g_state := Succeeded,
        g_finished_at := Some now, g_error_code := None, g_error_detail_sanitized := None\<rparr>) i db
        (pg_mark_succeeded now i res db)"
  using assms by (auto simp: pg_mark_succeeded_def open_row_exists intro!: observed_rules)

lemma pg_failed_law:
  assumes "pg_ok db"
  shows "(\<nexists>r. row_of db i = Some r \<and> \<not> is_terminal (g_state r)) \<Longrightarrow> pg_mark_failed now i code detail db = db"
    and "(\<exists>r. row_of db i = Some r \<and> \<not> is_terminal (g_state r)) \<Longrightarrow>
      observed (\<lambda>r. if is_terminal (g_state r) then r else r\<lparr>g_state := Failed,
        g_finished_at := Some now, g_error_code := Some code, g_error_detail_sanitized := detail\<rparr>) i db
        (pg_mark_failed now i code detail db)"
  using assms by (auto simp: pg_mark_failed_def open_row_exists intro!: observed_rules)

lemma pg_retry_law:
  assumes "pg_ok db"
  shows "(\<nexists>r. row_of db i = Some r \<and> \<not> is_terminal (g_state r)) \<Longrightarrow>
      pg_mark_retry_wait now rnd i code detail delay db = db"
    and "(\<exists>r. row_of db i = Some r \<and> \<not> is_terminal (g_state r)) \<Longrightarrow>
      \<exists>t. observed (\<lambda>r. if is_terminal (g_state r) then r else r\<lparr>g_state := RetryWait,
        g_current_attempt := g_current_attempt r + 1, g_error_code := Some code,
        g_error_detail_sanitized := detail, g_available_at := t\<rparr>) i db
        (pg_mark_retry_wait now rnd i code detail delay db)"
  using assms by (auto simp: pg_mark_retry_wait_def open_row_exists Let_def simp flip: row_of_def
      split: option.split intro!: exI observed_rules)

lemma pg_cancel_law:
  assumes "pg_ok db"
  shows "(\<nexists>r. row_of db i = Some r \<and> \<not> is_terminal (g_state r)) \<Longrightarrow> pg_cancel now i db = (db, False)"
    and "(\<exists>r. row_of db i = Some r \<and> \<not> is_terminal (g_state r)) \<Longrightarrow> snd (pg_cancel now i db) \<and>
      observed (\<lambda>r. if is_terminal (g_state r) then r else r\<lparr>g_state := Cancelled,
        g_cancel_requested_at := Some now, g_finished_at := Some now\<rparr>) i db (fst (pg_cancel now i db))"
  using assms by (auto simp: pg_cancel_def open_row_exists intro!: observed_rules)

text \<open>From an observed update to the shape the contract asks for.\<close>

lemma observed_contract:
  assumes "observed f i db db'"
    and "\<And>r j'. row_of db i = Some r \<Longrightarrow> j' = row_to_queued_job db' (f r) \<Longrightarrow> q (row_to_queued_job db r) j'"
  shows "pg_ok db' \<and> (\<forall>k. k \<noteq> i \<longrightarrow> pg_get k db' = pg_get k db) \<and>
    (\<forall>j. pg_get i db = Some j \<longrightarrow> (\<exists>j'. pg_get i db' = Some j' \<and> q j j')) \<and>
    (pg_get i db = None \<longrightarrow> pg_get i db' = None)"
  using assms observed_get [OF assms(1)] by (auto simp: observed_def pg_get_row)

lemma same_contract:
  assumes "pg_ok db" "\<And>j. pg_get i db = Some j \<Longrightarrow> q j j"
  shows "pg_ok db \<and> (\<forall>k. k \<noteq> i \<longrightarrow> pg_get k db = pg_get k db) \<and>
    (\<forall>j. pg_get i db = Some j \<longrightarrow> (\<exists>j'. pg_get i db = Some j' \<and> q j j')) \<and>
    (pg_get i db = None \<longrightarrow> pg_get i db = None)"
  using assms by blast

lemma closed_job: "(\<nexists>r. row_of db i = Some r \<and> \<not> is_terminal (g_state r)) \<Longrightarrow> pg_get i db = Some j \<Longrightarrow>
    is_terminal (j_state j)"
  by (auto simp: pg_get_row)

lemma pg_enqueue_contract:
  assumes "pg_ok db" "pg_enqueue now j db = Inr db'"
  shows "pg_ok db' \<and> (\<exists>j'. pg_get (j_id j) db' = Some j' \<and> same_job j j' \<and> j_state j' = j_state j \<and>
         j_current_attempt j' = j_current_attempt j) \<and>
      (\<forall>i. i \<noteq> j_id j \<longrightarrow> pg_get i db' = pg_get i db)"
proof -
  from assms(2) obtain mf wv where e: "\<not> violates j db" "db' = append_event (j_id j) ''created'' []
      (db\<lparr>generation_jobs := generation_jobs db @ [inserted_row j mf wv]\<rparr>)"
    by (auto simp: pg_enqueue_def split: sum.splits if_splits)
  define r where "r = inserted_row j mf wv"
  define tbl where "tbl = db\<lparr>generation_jobs := generation_jobs db @ [r]\<rparr>"
  have r: "generation_jobs tbl = generation_jobs db @ [r]" "job_attempts tbl = job_attempts db"
    "db' = append_event (j_id j) ''created'' [] tbl" "g_id r = j_id j" "g_state r = j_state j"
    "same_job j (row_to_queued_job db' r)" "\<forall>x \<in> set (generation_jobs db). g_id x \<noteq> j_id j"
    "g_current_attempt r = j_current_attempt j"
    using e by (simp_all add: tbl_def r_def inserted_row_def same_job_def violates_def)
  have row: "row_of db' i = (if i = j_id j then Some r else row_of db i)" for i
  proof -
    have "find p (xs @ [x]) = (case find p xs of None \<Rightarrow> if p x then Some x else None | Some y \<Rightarrow> Some y)"
      for p :: "gen_row \<Rightarrow> bool" and xs x by (induction xs) auto
    moreover have "find (\<lambda>x. g_id x = j_id j) (generation_jobs db) = None"
      using r(7) by (simp add: find_None_iff)
    ultimately show ?thesis using r(1,3,4) by (auto simp: row_of_def split: option.split)
  qed
  have "pg_ok db'" using assms(1) r by (auto simp: pg_ok_def)
  moreover have "pg_get i db' = pg_get i db" if "i \<noteq> j_id j" for i
  proof (rule pg_get_attempts)
    show "row_of db' i = row_of db i" using that row by simp
    show "latest_attempt db' i = latest_attempt db i" unfolding r(3) latest_attempt_append_event
      by (simp add: latest_attempt_def r(2))
  qed
  ultimately show ?thesis using r(5,6,8) by (simp add: pg_get_row row)
qed

lemma pg_mark_contracts:
  assumes "pg_ok db"
  shows pg_running_contract: "pg_ok (pg_mark_running now i db) \<and>
      (\<forall>k. k \<noteq> i \<longrightarrow> pg_get k (pg_mark_running now i db) = pg_get k db) \<and>
      (\<forall>j. pg_get i db = Some j \<longrightarrow> (\<exists>j'. pg_get i (pg_mark_running now i db) = Some j' \<and>
         same_job j j' \<and> j_current_attempt j' = j_current_attempt j \<and>
         (j_state j' = Running \<or> is_terminal (j_state j) \<and> j_state j' = j_state j))) \<and>
      (pg_get i db = None \<longrightarrow> pg_get i (pg_mark_running now i db) = None)"
    and pg_prompt_contract: "pg_ok (pg_set_prompt_id i pid db) \<and>
      (\<forall>k. k \<noteq> i \<longrightarrow> pg_get k (pg_set_prompt_id i pid db) = pg_get k db) \<and>
      (\<forall>j. pg_get i db = Some j \<longrightarrow> (\<exists>j'. pg_get i (pg_set_prompt_id i pid db) = Some j' \<and>
         same_job j j' \<and> j_state j' = j_state j \<and> j_current_attempt j' = j_current_attempt j)) \<and>
      (pg_get i db = None \<longrightarrow> pg_get i (pg_set_prompt_id i pid db) = None)"
    and pg_renew_contract: "pg_ok (pg_renew_lease now i secs db) \<and>
      (\<forall>k. k \<noteq> i \<longrightarrow> pg_get k (pg_renew_lease now i secs db) = pg_get k db) \<and>
      (\<forall>j. pg_get i db = Some j \<longrightarrow> (\<exists>j'. pg_get i (pg_renew_lease now i secs db) = Some j' \<and>
         same_job j j' \<and> j_state j' = j_state j \<and> j_current_attempt j' = j_current_attempt j)) \<and>
      (pg_get i db = None \<longrightarrow> pg_get i (pg_renew_lease now i secs db) = None)"
proof -
  show "pg_ok (pg_mark_running now i db) \<and>
      (\<forall>k. k \<noteq> i \<longrightarrow> pg_get k (pg_mark_running now i db) = pg_get k db) \<and>
      (\<forall>j. pg_get i db = Some j \<longrightarrow> (\<exists>j'. pg_get i (pg_mark_running now i db) = Some j' \<and>
         same_job j j' \<and> j_current_attempt j' = j_current_attempt j \<and>
         (j_state j' = Running \<or> is_terminal (j_state j) \<and> j_state j' = j_state j))) \<and>
      (pg_get i db = None \<longrightarrow> pg_get i (pg_mark_running now i db) = None)"
    by (rule observed_contract [OF pg_running_law [OF assms]]) (simp add: same_job_def)
  have "observed (\<lambda>r. r) i db (pg_set_prompt_id i pid db)"
    unfolding pg_set_prompt_id_def by (rule observed_attempt [OF observed_same [OF assms]]) simp
  then show "pg_ok (pg_set_prompt_id i pid db) \<and>
      (\<forall>k. k \<noteq> i \<longrightarrow> pg_get k (pg_set_prompt_id i pid db) = pg_get k db) \<and>
      (\<forall>j. pg_get i db = Some j \<longrightarrow> (\<exists>j'. pg_get i (pg_set_prompt_id i pid db) = Some j' \<and>
         same_job j j' \<and> j_state j' = j_state j \<and> j_current_attempt j' = j_current_attempt j)) \<and>
      (pg_get i db = None \<longrightarrow> pg_get i (pg_set_prompt_id i pid db) = None)"
    by (rule observed_contract) (simp add: same_job_def)
  have "observed (\<lambda>r. r) i db (pg_renew_lease now i secs db)"
    unfolding pg_renew_lease_def by (rule observed_attempt [OF observed_same [OF assms]]) simp
  then show "pg_ok (pg_renew_lease now i secs db) \<and>
      (\<forall>k. k \<noteq> i \<longrightarrow> pg_get k (pg_renew_lease now i secs db) = pg_get k db) \<and>
      (\<forall>j. pg_get i db = Some j \<longrightarrow> (\<exists>j'. pg_get i (pg_renew_lease now i secs db) = Some j' \<and>
         same_job j j' \<and> j_state j' = j_state j \<and> j_current_attempt j' = j_current_attempt j)) \<and>
      (pg_get i db = None \<longrightarrow> pg_get i (pg_renew_lease now i secs db) = None)"
    by (rule observed_contract) (simp add: same_job_def)
qed

lemma pg_succeeded_contract:
  assumes "pg_ok db"
  shows "pg_ok (pg_mark_succeeded now i res db) \<and>
      (\<forall>k. k \<noteq> i \<longrightarrow> pg_get k (pg_mark_succeeded now i res db) = pg_get k db) \<and>
      (\<forall>j. pg_get i db = Some j \<longrightarrow> (\<exists>j'. pg_get i (pg_mark_succeeded now i res db) = Some j' \<and>
         same_job j j' \<and> j_current_attempt j' = j_current_attempt j \<and>
         (if is_terminal (j_state j) then j' = j
          else j_state j' = Succeeded \<and> j_error_code j' = None \<and> j_error_detail j' = None))) \<and>
      (pg_get i db = None \<longrightarrow> pg_get i (pg_mark_succeeded now i res db) = None)"
proof (cases "\<exists>r. row_of db i = Some r \<and> \<not> is_terminal (g_state r)")
  case True
  show ?thesis
    by (rule observed_contract [OF pg_succeeded_law(2) [OF assms True]]) (use True in \<open>auto simp: same_job_def\<close>)
next
  case False
  show ?thesis unfolding pg_succeeded_law(1) [OF assms False]
    by (rule same_contract [OF assms]) (simp add: closed_job [OF False])
qed

lemma pg_failed_contract:
  assumes "pg_ok db"
  shows "pg_ok (pg_mark_failed now i code detail db) \<and>
      (\<forall>k. k \<noteq> i \<longrightarrow> pg_get k (pg_mark_failed now i code detail db) = pg_get k db) \<and>
      (\<forall>j. pg_get i db = Some j \<longrightarrow> (\<exists>j'. pg_get i (pg_mark_failed now i code detail db) = Some j' \<and>
         same_job j j' \<and> j_current_attempt j' = j_current_attempt j \<and>
         (if is_terminal (j_state j) then j' = j
          else j_state j' = Failed \<and> j_error_code j' = Some code \<and> j_error_detail j' = detail))) \<and>
      (pg_get i db = None \<longrightarrow> pg_get i (pg_mark_failed now i code detail db) = None)"
proof (cases "\<exists>r. row_of db i = Some r \<and> \<not> is_terminal (g_state r)")
  case True
  show ?thesis
    by (rule observed_contract [OF pg_failed_law(2) [OF assms True]]) (use True in \<open>auto simp: same_job_def\<close>)
next
  case False
  show ?thesis unfolding pg_failed_law(1) [OF assms False]
    by (rule same_contract [OF assms]) (simp add: closed_job [OF False])
qed

lemma pg_retry_contract:
  assumes "pg_ok db"
  shows "pg_ok (pg_mark_retry_wait now rnd i code detail delay db) \<and>
      (\<forall>k. k \<noteq> i \<longrightarrow> pg_get k (pg_mark_retry_wait now rnd i code detail delay db) = pg_get k db) \<and>
      (\<forall>j. pg_get i db = Some j \<longrightarrow>
         (\<exists>j'. pg_get i (pg_mark_retry_wait now rnd i code detail delay db) = Some j' \<and> same_job j j' \<and>
         (if is_terminal (j_state j) then j' = j
          else j_state j' = RetryWait \<and> j_current_attempt j' = j_current_attempt j + 1))) \<and>
      (pg_get i db = None \<longrightarrow> pg_get i (pg_mark_retry_wait now rnd i code detail delay db) = None)"
proof (cases "\<exists>r. row_of db i = Some r \<and> \<not> is_terminal (g_state r)")
  case True
  from pg_retry_law(2) [OF assms True] obtain t where "observed (\<lambda>r. if is_terminal (g_state r) then r
      else r\<lparr>g_state := RetryWait, g_current_attempt := g_current_attempt r + 1, g_error_code := Some code,
        g_error_detail_sanitized := detail, g_available_at := t\<rparr>) i db
      (pg_mark_retry_wait now rnd i code detail delay db)" by blast
  then show ?thesis by (rule observed_contract) (use True in \<open>auto simp: same_job_def\<close>)
next
  case False
  show ?thesis unfolding pg_retry_law(1) [OF assms False]
    by (rule same_contract [OF assms]) (simp add: closed_job [OF False])
qed

lemma pg_cancel_contract:
  assumes "pg_ok db" "pg_cancel now i db = (db', dn)"
  shows "pg_ok db' \<and> (\<forall>k. k \<noteq> i \<longrightarrow> pg_get k db' = pg_get k db) \<and>
      (\<forall>j. pg_get i db = Some j \<longrightarrow> (dn \<longleftrightarrow> \<not> is_terminal (j_state j)) \<and>
         (\<exists>j'. pg_get i db' = Some j' \<and> same_job j j' \<and> j_current_attempt j' = j_current_attempt j \<and>
           (if is_terminal (j_state j) then j' = j else j_state j' = Cancelled))) \<and>
      (pg_get i db = None \<longrightarrow> \<not> dn \<and> pg_get i db' = None)"
proof (cases "\<exists>r. row_of db i = Some r \<and> \<not> is_terminal (g_state r)")
  case True
  then have dn: dn and nt: "\<And>j. pg_get i db = Some j \<Longrightarrow> \<not> is_terminal (j_state j)" "pg_get i db \<noteq> None"
    using pg_cancel_law(2) [OF assms(1) True, of now] assms(2) by (auto simp: pg_get_row)
  have "observed (\<lambda>r. if is_terminal (g_state r) then r else r\<lparr>g_state := Cancelled,
      g_cancel_requested_at := Some now, g_finished_at := Some now\<rparr>) i db db'"
    using pg_cancel_law(2) [OF assms(1) True, of now] assms(2) by simp
  then have "pg_ok db' \<and> (\<forall>k. k \<noteq> i \<longrightarrow> pg_get k db' = pg_get k db) \<and>
    (\<forall>j. pg_get i db = Some j \<longrightarrow> (\<exists>j'. pg_get i db' = Some j' \<and>
       (same_job j j' \<and> j_current_attempt j' = j_current_attempt j \<and> j_state j' = Cancelled))) \<and>
    (pg_get i db = None \<longrightarrow> pg_get i db' = None)"
    by (rule observed_contract) (use True in \<open>auto simp: same_job_def\<close>)
  with dn nt show ?thesis by simp
next
  case False
  with assms pg_cancel_law(1) [OF assms(1) False, of now] closed_job [OF False] show ?thesis by auto
qed

lemma pg_find_contract:
  assumes "pg_ok db"
  shows "pg_find_by_idempotency_key u key kd db = Some j \<Longrightarrow>
      pg_get (j_id j) db = Some j \<and> j_user_id j = u \<and> j_idempotency_key j = key \<and> j_kind j = kd"
    and "pg_find_by_idempotency_key u key kd db = None \<Longrightarrow> pg_get i db = Some j \<Longrightarrow>
      \<not> (j_user_id j = u \<and> j_idempotency_key j = key \<and> j_kind j = kd)"
proof -
  let ?p = "\<lambda>r. g_user_id r = u \<and> g_idempotency_key r = key \<and> g_kind r = kd"
  have eq: "pg_find_by_idempotency_key u key kd db =
      map_option (row_to_queued_job db) (find ?p (generation_jobs db))"
    by (simp add: pg_find_by_idempotency_key_def first_job_find)
  show "pg_get (j_id j) db = Some j \<and> j_user_id j = u \<and> j_idempotency_key j = key \<and> j_kind j = kd"
    if a: "pg_find_by_idempotency_key u key kd db = Some j"
  proof -
    from a eq obtain r where r: "find ?p (generation_jobs db) = Some r" "j = row_to_queued_job db r" by auto
    have "find p rs = Some x \<Longrightarrow> x \<in> set rs \<and> p x" for p rs and x :: gen_row
      by (induction rs) (auto split: if_splits)
    from this [OF r(1)] row_of_iff [OF assms, of r] r(2) show ?thesis by (simp add: pg_get_row)
  qed
  show "\<not> (j_user_id j = u \<and> j_idempotency_key j = key \<and> j_kind j = kd)"
    if a: "pg_find_by_idempotency_key u key kd db = None" "pg_get i db = Some j"
  proof -
    from a(2) obtain r where r: "row_of db i = Some r" "j = row_to_queued_job db r" by (auto simp: pg_get_row)
    then have "r \<in> set (generation_jobs db)" using row_of_iff [OF assms, of r] row_of_id [OF r(1)] by simp
    with a(1) eq r(2) show ?thesis by (auto simp: find_None_iff)
  qed
qed

lemma pg_list_active_contract:
  assumes "pg_ok db"
  shows "distinct (map j_id (pg_list_active db))"
    and "j \<in> set (pg_list_active db) \<longleftrightarrow> pg_get (j_id j) db = Some j \<and> is_active j"
proof -
  show "distinct (map j_id (pg_list_active db))"
    using assms distinct_map_filter [of g_id "generation_jobs db" in_active]
    by (simp add: pg_list_active_def select_jobs_def comp_def pg_ok_def)
  show "j \<in> set (pg_list_active db) \<longleftrightarrow> pg_get (j_id j) db = Some j \<and> is_active j"
  proof
    assume "j \<in> set (pg_list_active db)"
    then obtain r where "r \<in> set (generation_jobs db)" "in_active r" "j = row_to_queued_job db r"
      by (auto simp: pg_list_active_def select_jobs_def)
    with row_of_iff [OF assms, of r] show "pg_get (j_id j) db = Some j \<and> is_active j" by (simp add: pg_get_row)
  next
    assume a: "pg_get (j_id j) db = Some j \<and> is_active j"
    then obtain r where r: "row_of db (j_id j) = Some r" "j = row_to_queued_job db r" by (auto simp: pg_get_row)
    moreover have "r \<in> set (generation_jobs db)" using row_of_iff [OF assms, of r] row_of_id [OF r(1)] r(1) by simp
    ultimately show "j \<in> set (pg_list_active db)" using a by (auto simp: pg_list_active_def select_jobs_def)
  qed
qed

lemma pg_finite: "pg_ok db \<Longrightarrow> finite (dom (\<lambda>i. pg_get i db))"
proof -
  assume ok: "pg_ok db"
  have "dom (\<lambda>i. pg_get i db) \<subseteq> g_id ` set (generation_jobs db)"
    using row_of_iff [OF ok] row_of_id by (force simp: pg_get_row dom_def)
  then show ?thesis by (rule finite_subset) simp
qed

lemma pg_counts:
  assumes "pg_ok db"
  shows "pg_count_active kinds db = card (jobs_with (\<lambda>i. pg_get i db) (\<lambda>j. is_active j \<and> kind_in kinds j))"
    and "pg_count_user_backlog u db = card (jobs_with (\<lambda>i. pg_get i db) (\<lambda>j. j_user_id j = u \<and> is_backlog j))"
    and "pg_count_global_backlog db = card (jobs_with (\<lambda>i. pg_get i db) is_backlog)"
  unfolding pg_count_law [OF assms, symmetric]
  by (simp_all add: pg_count_active_def pg_count_user_backlog_def pg_count_global_backlog_def)

lemma pg_running_terminal:
  assumes "pg_ok db" "pg_get i db = Some j" "is_terminal (j_state j)"
  shows "\<exists>j'. pg_get i (pg_mark_running now i db) = Some j' \<and> same_job j j' \<and> j_state j' = j_state j \<and>
      j_current_attempt j' = j_current_attempt j"
proof -
  from observed_get [OF pg_running_law [OF assms(1)] assms(2), of now] obtain r where
    "j = row_to_queued_job db r" "pg_get i (pg_mark_running now i db) =
      Some (row_to_queued_job (pg_mark_running now i db) (if is_terminal (g_state r) then r
        else r\<lparr>g_state := Running, g_started_at := Some now\<rparr>))" by blast
  with assms(3) show ?thesis by (simp add: same_job_def)
qed

interpretation pg: guarded_queue "pg_port locked" pg_ok for locked
proof (unfold_locales, goal_cases)
  case 1 then show ?case by (simp add: pg_port_def pg_finite)
next
  case 2 then show ?case by (simp add: pg_port_def pg_get_id)
next
  case 3 then show ?case using pg_enqueue_contract by (simp add: pg_port_def)
next
  case 4 then show ?case unfolding pg_port_def job_queue_port.simps by (rule pg_claim_contract)
next
  case 5 then show ?case by (simp add: pg_port_def pg_list_active_contract)
next
  case 6 then show ?case by (simp add: pg_port_def pg_counts)
next
  case 7 then show ?case by (simp add: pg_port_def pg_counts)
next
  case 8 then show ?case by (simp add: pg_port_def pg_counts)
next
  case 9 then show ?case using pg_find_contract(1) by (simp add: pg_port_def)
next
  case 10 then show ?case using pg_find_contract(2) by (simp add: pg_port_def)
next
  case 11 then show ?case unfolding pg_port_def job_queue_port.simps by (rule pg_renew_contract)
next
  case 12 then show ?case unfolding pg_port_def job_queue_port.simps by (rule pg_running_contract)
next
  case 13 then show ?case unfolding pg_port_def job_queue_port.simps by (rule pg_prompt_contract)
next
  case 14 then show ?case unfolding pg_port_def job_queue_port.simps by (rule pg_succeeded_contract)
next
  case 15 then show ?case unfolding pg_port_def job_queue_port.simps by (rule pg_failed_contract)
next
  case 16 then show ?case unfolding pg_port_def job_queue_port.simps by (rule pg_retry_contract)
next
  case 17 then show ?case unfolding pg_port_def job_queue_port.simps by (rule pg_cancel_contract)
next
  case 18 then show ?case unfolding pg_port_def job_queue_port.simps by (rule pg_running_terminal)
qed

subsection \<open>Properties\<close>

text \<open>C7. Both claim statements of the Postgres adapter, the one-statement batch and the
  row-by-row loop under the per-user cap, implement the abstract fair selection over the
  claimable, unlocked rows in the order of their aged priority: they take the same rows, in the
  loop also in that order, set them to \<open>dispatched\<close> and touch no other row.\<close>

theorem pg_claim_refines_selection:
  assumes "pg_ok db" and "pg_claim locked now cap ow secs kinds maxa db = (db', js)"
  defines "sel \<equiv> pick g_user_id cap maxa (pg_active_of db)
      (sort_key (row_key now) (filter (claimable now locked kinds) (generation_jobs db)))"
  shows "j_id ` set js = g_id ` set sel \<and> distinct (map j_id js) \<and> (0 < maxa \<longrightarrow> map j_id js = map g_id sel) \<and>
    generation_jobs db' =
      map (\<lambda>r. if g_id r \<in> g_id ` set sel then r\<lparr>g_state := Dispatched\<rparr> else r) (generation_jobs db)"
proof -
  have c: "claimed_rows db sel db' js"
    using pg_claim_law [OF assms(1,2)] by (simp add: sel_def pg_candidates_def)
  have "map j_id js = map g_id sel" if "0 < maxa"
  proof (cases "0 < cap")
    case True
    with that have "pg_claim_each now locked (nat cap) kinds maxa ow (now + timedelta_us secs) db = (db', js)"
      using assms(2) by (simp add: pg_claim_def Let_def)
    from pg_claim_each_law [OF assms(1) that this] True show ?thesis
      by (simp add: Let_def sel_def pg_candidates_def)
  qed (use c in \<open>simp add: claimed_rows_def sel_def\<close>)
  with c show ?thesis by (simp add: claimed_rows_def generation_jobs_set_dispatched)
qed

definition example_db :: pg_db where
  "example_db = \<lparr>generation_jobs = [], job_attempts = [], job_events = [], known_users = [7, 8],
     known_conversations = []\<rparr>"

definition example_pg_job :: "uuid \<Rightarrow> uuid \<Rightarrow> time \<Rightarrow> queued_job" where
  "example_pg_job i u t = new_queued_job i u ''image_basic'' Queued 0 0 [] (nat_str i) t None"

lemma example_enqueue:
  "pg_enqueue 5 (example_pg_job 1 7 5) example_db = Inr (append_event 1 ''created'' []
     (example_db\<lparr>generation_jobs := [inserted_row (example_pg_job 1 7 5) ''sdxl'' ''v1'']\<rparr>))"
  by (simp add: pg_enqueue_def resolve_workflow_defaults_def list_workflows_def REGISTRY_def
      violates_def example_db_def example_pg_job_def new_queued_job_def)

theorem pg_claim_refines_selection_witness:
  "\<exists>db. pg_enqueue 5 (example_pg_job 1 7 5) example_db = Inr db \<and>
    map j_id (snd (pg_claim (\<lambda>_. False) 9 1 ''s'' 30 None 1 db)) = [1]"
proof -
  let ?db = "append_event 1 ''created'' []
     (example_db\<lparr>generation_jobs := [inserted_row (example_pg_job 1 7 5) ''sdxl'' ''v1'']\<rparr>)"
  have ok: "pg_ok ?db" by (simp add: pg_ok_def)
  have "pick g_user_id 1 1 (pg_active_of ?db) (sort_key (row_key 9)
      (filter (claimable 9 (\<lambda>_. False) None) (generation_jobs ?db))) =
    [inserted_row (example_pg_job 1 7 5) ''sdxl'' ''v1'']"
    by (simp add: claimable_def in_backlog_def row_kind_in_def inserted_row_def example_pg_job_def
        new_queued_job_def pg_active_of_def in_active_def)
  then have "map j_id (snd (pg_claim (\<lambda>_. False) 9 1 ''s'' 30 None 1 ?db)) =
      map g_id [inserted_row (example_pg_job 1 7 5) ''sdxl'' ''v1'']"
    using pg_claim_refines_selection [OF ok surjective_pairing, of "\<lambda>_. False" 9 1 "''s''" 30 None 1]
    by (simp only: zero_less_one)
  moreover have "map g_id [inserted_row (example_pg_job 1 7 5) ''sdxl'' ''v1''] = [1]"
    by (simp add: inserted_row_def example_pg_job_def new_queued_job_def)
  ultimately have "map j_id (snd (pg_claim (\<lambda>_. False) 9 1 ''s'' 30 None 1 ?db)) = [1]" by (rule trans)
  with example_enqueue show ?thesis by (intro exI conjI)
qed



end
