(* ===== verification/Py_Json.thy ===== *)
theory Py_Json
  imports Prelude "HOL-Library.Sublist"
begin

section \<open>Reading JSON values the way Python does\<close>

text \<open>
  The services the backend talks to answer in JSON that the code takes apart with \<open>x.get(k)\<close>,
  \<open>x[k]\<close>, \<open>in\<close> and \<open>for\<close>. Each of these raises on a value of another shape; an exception is
  the name of its class, and \<open>bind_exc\<close> runs the rest of a computation that may raise.
\<close>

type_synonym exc = string

definition bind_exc :: "exc + 'a \<Rightarrow> ('a \<Rightarrow> exc + 'b) \<Rightarrow> exc + 'b" where
  "bind_exc x f = (case x of Inl e \<Rightarrow> Inl e | Inr a \<Rightarrow> f a)"

lemma bind_exc_simps [simp]: "bind_exc (Inl e) f = Inl e" "bind_exc (Inr a) f = f a"
  by (simp_all add: bind_exc_def)

lemma bind_exc_Inr [simp]: "bind_exc x f = Inr b \<longleftrightarrow> (\<exists>a. x = Inr a \<and> f a = Inr b)"
  by (cases x) simp_all

definition get_json :: "dict \<Rightarrow> string \<Rightarrow> json" where
  "get_json d k = (case dget d k of Some v \<Rightarrow> v | None \<Rightarrow> JNull)"

lemma get_json_dput [dict_simps, simp]: "get_json (dput k v d) k' = (if k' = k then v else get_json d k')"
  by (simp add: get_json_def)

lemma get_json_dpop [dict_simps, simp]: "get_json (dpop k d) k' = (if k' = k then JNull else get_json d k')"
  by (simp add: get_json_def)

text \<open>\<open>x.get(k)\<close>, \<open>x[k]\<close> and \<open>x.values()\<close>.\<close>

definition method_get :: "json \<Rightarrow> string \<Rightarrow> exc + json" where
  "method_get x k = (case x of JObj d \<Rightarrow> Inr (get_json d k) | _ \<Rightarrow> Inl ''AttributeError'')"

definition index_key :: "json \<Rightarrow> string \<Rightarrow> exc + json" where
  "index_key x k =
     (case x of
        JObj d \<Rightarrow> (case dget d k of Some v \<Rightarrow> Inr v | None \<Rightarrow> Inl ''KeyError'')
      | _ \<Rightarrow> Inl ''TypeError'')"

text \<open>\<open>x[n]\<close> for a number that is not negative; a string gives one character.\<close>

definition index_nat :: "json \<Rightarrow> nat \<Rightarrow> exc + json" where
  "index_nat x n =
     (case x of
        JList xs \<Rightarrow> if n < length xs then Inr (xs ! n) else Inl ''IndexError''
      | JStr s \<Rightarrow> if n < length s then Inr (JStr [s ! n]) else Inl ''IndexError''
      | JObj d \<Rightarrow> Inl ''KeyError''
      | _ \<Rightarrow> Inl ''TypeError'')"

definition method_values :: "json \<Rightarrow> exc + json list" where
  "method_values x = (case x of JObj d \<Rightarrow> Inr (map snd d) | _ \<Rightarrow> Inl ''AttributeError'')"

text \<open>\<open>x or []\<close> as the source of a \<open>for\<close>: a string iterates over its characters, a dictionary
  over its keys; a number is a \<open>TypeError\<close>.\<close>

definition iterate_json :: "json \<Rightarrow> exc + json list" where
  "iterate_json v =
     (if \<not> truthy v then Inr []
      else case v of
        JList xs \<Rightarrow> Inr xs
      | JStr s \<Rightarrow> Inr (map (\<lambda>c. JStr [c]) s)
      | JObj d \<Rightarrow> Inr (map (\<lambda>(k, _). JStr k) d)
      | _ \<Rightarrow> Inl ''TypeError'')"

text \<open>\<open>s in x\<close> for a text \<open>s\<close>.\<close>

definition text_in :: "string \<Rightarrow> json \<Rightarrow> exc + bool" where
  "text_in s x =
     (case x of
        JObj d \<Rightarrow> Inr (dmem s d)
      | JList xs \<Rightarrow> Inr (JStr s \<in> set xs)
      | JStr t \<Rightarrow> Inr (sublist s t)
      | _ \<Rightarrow> Inl ''TypeError'')"

text \<open>Lists and dictionaries cannot be keys of a dictionary.\<close>

fun hashable :: "json \<Rightarrow> bool" where
  "hashable (JList xs) = False"
| "hashable (JObj d) = False"
| "hashable j = True"

text \<open>\<open>x or default\<close>.\<close>

definition or_default :: "json \<Rightarrow> json \<Rightarrow> json" where
  "or_default x d = (if truthy x then x else d)"

end
