(* ===== verification/Idempotency.thy ===== *)
theory Idempotency
  imports Prelude
begin

section \<open>Idempotency keys (domain/jobs/idempotency.py)\<close>

text \<open>
  The canonical text of a payload, \<open>json.dumps(payload, sort_keys=True,
  separators=(",", ":"))\<close>, its hash and the three-way decision. SHA-256 is the parameter
  \<open>sha\<close>, the interpreter's text of a float the parameter \<open>rp\<close>. A \<open>\\uXXXX\<close> escape is
  written for a control character and for every character above the ASCII range, as
  \<open>ensure_ascii\<close> does.
\<close>

subsection \<open>Canonical JSON text\<close>

definition hex_digit :: "nat \<Rightarrow> char" where
  "hex_digit d = (if d < 10 then char_of (48 + d) else char_of (87 + d))"

definition json_char :: "char \<Rightarrow> string" where
  "json_char c = (let n = of_char c :: nat in
     if n = 34 then [CHR 0x5C, CHR 0x22]
     else if n = 92 then [CHR 0x5C, CHR 0x5C]
     else if n = 10 then [CHR 0x5C, CHR ''n'']
     else if n = 13 then [CHR 0x5C, CHR ''r'']
     else if n = 9 then [CHR 0x5C, CHR ''t'']
     else if n = 8 then [CHR 0x5C, CHR ''b'']
     else if n = 12 then [CHR 0x5C, CHR ''f'']
     else if n < 32 \<or> 126 < n then
       [CHR 0x5C, CHR ''u'', CHR ''0'', CHR ''0'', hex_digit (n div 16), hex_digit (n mod 16)]
     else [c])"

definition json_string :: "string \<Rightarrow> string" where
  "json_string s = [CHR 0x22] @ concat (map json_char s) @ [CHR 0x22]"

text \<open>\<open>sort_keys=True\<close> at every level of nesting.\<close>

fun sort_keys :: "json \<Rightarrow> json" where
  "sort_keys (JList xs) = JList (map sort_keys xs)"
| "sort_keys (JObj d) = JObj (sort_key fst (map (\<lambda>(k, v). (k, sort_keys v)) d))"
| "sort_keys j = j"

fun json_text :: "(pyfloat \<Rightarrow> string) \<Rightarrow> json \<Rightarrow> string" where
  "json_text rp JNull = ''null''"
| "json_text rp (JBool b) = (if b then ''true'' else ''false'')"
| "json_text rp (JInt i) = int_str i"
| "json_text rp (JFloat f) = rp f"
| "json_text rp (JStr s) = json_string s"
| "json_text rp (JList xs) = ''['' @ py_join '','' (map (json_text rp) xs) @ '']''"
| "json_text rp (JObj d) =
     ''{'' @ py_join '','' (map (\<lambda>(k, v). json_string k @ '':'' @ json_text rp v) d) @ ''}''"

definition canonical_payload_hash :: "(pyfloat \<Rightarrow> string) \<Rightarrow> (string \<Rightarrow> string) \<Rightarrow> dict \<Rightarrow> string" where
  "canonical_payload_hash rp sha payload = sha (json_text rp (sort_keys (JObj payload)))"

subsection \<open>The decision\<close>

datatype idempotency_outcome = NEW | REPLAY | CONFLICT

record idempotency_check =
  outcome :: idempotency_outcome
  check_existing_job_id :: "uuid option"

definition check_idempotency ::
  "(pyfloat \<Rightarrow> string) \<Rightarrow> (string \<Rightarrow> string) \<Rightarrow> uuid option \<Rightarrow> string option \<Rightarrow> dict \<Rightarrow> idempotency_check"
where
  "check_idempotency rp sha existing_job_id existing_payload_hash new_payload =
     (case existing_job_id of
        None \<Rightarrow> \<lparr>outcome = NEW, check_existing_job_id = None\<rparr>
      | Some jid \<Rightarrow>
          let new_hash = canonical_payload_hash rp sha new_payload in
          if Some new_hash = existing_payload_hash
          then \<lparr>outcome = REPLAY, check_existing_job_id = Some jid\<rparr>
          else \<lparr>outcome = CONFLICT, check_existing_job_id = Some jid\<rparr>)"

subsection \<open>Library lemmas\<close>

text \<open>Two dictionaries with the same entries have the same sorted list of entries.\<close>

lemma map_of_keys_eq: "map_of xs = map_of ys \<Longrightarrow> map fst xs = map fst ys \<Longrightarrow> distinct (map fst xs) \<Longrightarrow> xs = ys"
proof -
  assume a: "map_of xs = map_of ys" "map fst xs = map fst ys" "distinct (map fst xs)"
  have "zs = map (\<lambda>k. (k, the (map_of zs k))) (map fst zs)" if "distinct (map fst zs)" for zs :: "('a \<times> 'b) list"
    using that by (auto simp: list_eq_iff_nth_eq distinct_map)
      (metis map_of_eq_Some_iff nth_mem option.sel prod.collapse that)
  with a show ?thesis by metis
qed

lemma sort_key_fst_unique:
  assumes "distinct (map fst xs)" "distinct (map fst ys)" "map_of xs = map_of ys"
  shows "sort_key fst xs = sort_key fst (ys :: ('k :: linorder \<times> 'v) list)"
proof (rule map_of_keys_eq)
  have inv: "map_of (sort_key fst zs) = map_of zs" "distinct (map fst (sort_key fst zs))"
    if "distinct (map fst zs)" for zs :: "('k \<times> 'v) list"
  proof -
    show d: "distinct (map fst (sort_key fst zs))"
      using that by (simp add: distinct_map)
    show "map_of (sort_key fst zs) = map_of zs"
      by (rule map_of_eqI) (use that d in \<open>auto simp: map_of_eq_Some_iff\<close>)
  qed
  show "map_of (sort_key fst xs) = map_of (sort_key fst ys)" by (simp add: inv assms)
  show "distinct (map fst (sort_key fst xs))" by (simp add: inv assms)
  have "set (map fst xs) = set (map fst ys)" by (metis assms(3) dom_map_of_conv_image_fst list.set_map)
  then show "map fst (sort_key fst xs) = map fst (sort_key fst ys)"
    by (intro sorted_distinct_set_unique) (simp_all add: inv assms)
qed

lemma map_of_map_snd: "map_of (map (\<lambda>(k, v). (k, f v)) d) = (\<lambda>k. map_option f (map_of d k))"
  by (induction d) auto

text \<open>The canonical text does not depend on the order in which the client wrote the keys.\<close>

lemma canonical_hash_order:
  assumes "distinct (map fst p)" "distinct (map fst q)" "dget p = dget q"
  shows "canonical_payload_hash rp sha p = canonical_payload_hash rp sha q"
proof -
  have keys: "map fst (map (\<lambda>(k, v). (k, sort_keys v)) d) = map fst d" for d
    by (induction d) auto
  have "map_of p = map_of q" using assms(3) by (simp add: dget_def fun_eq_iff)
  then have "sort_key fst (map (\<lambda>(k, v). (k, sort_keys v)) p) = sort_key fst (map (\<lambda>(k, v). (k, sort_keys v)) q)"
    by (intro sort_key_fst_unique) (simp_all only: keys assms map_of_map_snd)
  then show ?thesis by (simp add: canonical_payload_hash_def)
qed

subsection \<open>Properties\<close>



end
