(* ===== verification/Profiles.thy ===== *)
theory Profiles
  imports Settings
begin

section \<open>Model profiles and overrides (domain/jobs/comfy_profiles.py, comfy_overrides.py)\<close>

text \<open>
  The named profiles a client may ask for, the per-request overrides, their validation against
  the server's allowlists and their application to a profile. \<open>rp\<close> is Python's \<open>repr\<close>, which
  the code only uses in messages and for \<open>str\<close> of floats and containers.
\<close>

subsection \<open>Profiles\<close>

definition DEFAULT_PROFILE_KEY :: string where
  "DEFAULT_PROFILE_KEY = ''student''"

record comfy_profile =
  profile_key :: string
  checkpoint_name :: string
  model_family :: string
  diffusion_model_name :: string
  clip_name :: string
  vae_name :: string
  model_sampling_shift :: rat
  sampler_name :: string
  sched_name :: string
  steps :: int
  cfg_scale :: pyfloat
  negative_prompt :: string

definition build_profiles :: "settings \<Rightarrow> (string \<times> comfy_profile) list" where
  "build_profiles s =
     (let profiles = [(DEFAULT_PROFILE_KEY,
            \<lparr>profile_key = DEFAULT_PROFILE_KEY,
             checkpoint_name = comfy_checkpoint_name s,
             model_family = comfy_model_family s,
             diffusion_model_name = comfy_diffusion_model_name s,
             clip_name = comfy_clip_name s,
             vae_name = comfy_vae_name s,
             model_sampling_shift = comfy_model_sampling_shift s,
             sampler_name = comfy_sampler_name s,
             sched_name = comfy_scheduler s,
             steps = comfy_steps s,
             cfg_scale = Fin (comfy_cfg_scale s),
             negative_prompt = comfy_negative_prompt s\<rparr>)]
      in if comfy_personnel_checkpoint_name s \<noteq> [] \<or> comfy_personnel_diffusion_model_name s \<noteq> []
         then dput ''personnel''
            \<lparr>profile_key = ''personnel'',
             checkpoint_name = comfy_personnel_checkpoint_name s,
             model_family = comfy_personnel_model_family s,
             diffusion_model_name = comfy_personnel_diffusion_model_name s,
             clip_name = comfy_personnel_clip_name s,
             vae_name = comfy_personnel_vae_name s,
             model_sampling_shift = comfy_personnel_model_sampling_shift s,
             sampler_name = comfy_personnel_sampler_name s,
             sched_name = comfy_personnel_scheduler s,
             steps = comfy_personnel_steps s,
             cfg_scale = Fin (comfy_personnel_cfg_scale s),
             negative_prompt = comfy_personnel_negative_prompt s\<rparr> profiles
         else profiles)"

text \<open>\<open>Profile_Attribute_Error\<close>: a truthy value that is no string has no \<open>strip\<close>.\<close>

datatype profile_error = UnknownModelProfileError string | Profile_Attribute_Error

definition resolve_profile_key ::
  "(json \<Rightarrow> string) \<Rightarrow> json \<Rightarrow> (string \<times> comfy_profile) list \<Rightarrow> profile_error + string" where
  "resolve_profile_key rp requested available =
     (case (if truthy requested then requested else JStr []) of
        JStr s \<Rightarrow>
          let r = py_strip s; k = (if r \<noteq> [] then r else DEFAULT_PROFILE_KEY)
          in if \<not> dmem k available
             then Inl (UnknownModelProfileError (''unknown model_profile '' @ rp (JStr k)))
             else Inr k
      | _ \<Rightarrow> Inl Profile_Attribute_Error)"

definition list_profile_keys :: "settings \<Rightarrow> string list" where
  "list_profile_keys s = map fst (build_profiles s)"

subsection \<open>Override allowlists\<close>

record override_allowlists =
  checkpoints :: "string list"
  diffusion_models :: "string list"
  clips :: "string list"
  vaes :: "string list"
  samplers :: "string list"
  schedulers :: "string list"
  min_steps :: int
  max_steps :: int
  min_cfg_scale :: rat
  max_cfg_scale :: rat
  max_negative_prompt_chars :: int

definition build_allowlists :: "settings \<Rightarrow> override_allowlists" where
  "build_allowlists s =
     \<lparr>checkpoints = csv_list (comfy_allowed_checkpoints_csv s),
      diffusion_models = csv_list (comfy_allowed_diffusion_models_csv s),
      clips = csv_list (comfy_allowed_clips_csv s),
      vaes = csv_list (comfy_allowed_vaes_csv s),
      samplers = csv_list (comfy_allowed_samplers_csv s),
      schedulers = csv_list (comfy_allowed_schedulers_csv s),
      min_steps = comfy_override_min_steps s,
      max_steps = comfy_override_max_steps s,
      min_cfg_scale = comfy_override_min_cfg_scale s,
      max_cfg_scale = comfy_override_max_cfg_scale s,
      max_negative_prompt_chars = comfy_override_max_negative_prompt_chars s\<rparr>"

definition STRING_ALLOWLIST_FIELDS :: "(string \<times> (override_allowlists \<Rightarrow> string list)) list" where
  "STRING_ALLOWLIST_FIELDS =
     [(''checkpoint_name'', checkpoints), (''diffusion_model_name'', diffusion_models),
      (''clip_name'', clips), (''vae_name'', vaes), (''sampler_name'', samplers),
      (''scheduler'', schedulers)]"

definition ALL_OVERRIDE_KEYS :: "string list" where
  "ALL_OVERRIDE_KEYS =
     map fst STRING_ALLOWLIST_FIELDS @ [''steps'', ''cfg_scale''] @ [''negative_prompt'']"

subsection \<open>Validation\<close>

text \<open>\<open>Override_Overflow\<close> is the \<open>OverflowError\<close> of \<open>int(inf)\<close> or \<open>float(10**400)\<close>, which the
  handlers of the code do not name.\<close>

datatype override_error = InvalidComfyOverrideError string | Override_Overflow

fun validate_string_fields ::
  "(json \<Rightarrow> string) \<Rightarrow> (string \<times> (override_allowlists \<Rightarrow> string list)) list \<Rightarrow> dict \<Rightarrow>
     override_allowlists \<Rightarrow> dict \<Rightarrow> override_error + dict" where
  "validate_string_fields rp [] overrides allowlists validated = Inr validated"
| "validate_string_fields rp ((field, attr) # fs) overrides allowlists validated =
     (case dget overrides field of
        None \<Rightarrow> validate_string_fields rp fs overrides allowlists validated
      | Some v \<Rightarrow>
          let value = py_strip (py_str rp v); allowlist = attr allowlists in
          if allowlist = [] then
            Inl (InvalidComfyOverrideError (field @ '' overrides are not enabled on this deployment '' @
              ''(no APP_COMFY_ALLOWED_* configured for it)''))
          else if value \<notin> set allowlist then
            Inl (InvalidComfyOverrideError (field @ ''='' @ rp (JStr value) @ '' is not in the allowlist''))
          else validate_string_fields rp fs overrides allowlists (dput field (JStr value) validated))"

definition validate_steps :: "dict \<Rightarrow> override_allowlists \<Rightarrow> dict \<Rightarrow> override_error + dict" where
  "validate_steps overrides allowlists validated =
     (case dget overrides ''steps'' of
        None \<Rightarrow> Inr validated
      | Some v \<Rightarrow> (case py_int v of
            BadValue \<Rightarrow> Inr validated
          | Overflows \<Rightarrow> Inl Override_Overflow
          | Conv n \<Rightarrow> if min_steps allowlists \<le> n \<and> n \<le> max_steps allowlists
                     then Inr (dput ''steps'' (JInt n) validated) else Inr validated))"

definition validate_cfg_scale :: "dict \<Rightarrow> override_allowlists \<Rightarrow> dict \<Rightarrow> override_error + dict" where
  "validate_cfg_scale overrides allowlists validated =
     (case dget overrides ''cfg_scale'' of
        None \<Rightarrow> Inr validated
      | Some v \<Rightarrow> (case py_float v of
            BadValue \<Rightarrow> Inr validated
          | Overflows \<Rightarrow> Inl Override_Overflow
          | Conv c \<Rightarrow> if float_le (Fin (min_cfg_scale allowlists)) c \<and> float_le c (Fin (max_cfg_scale allowlists))
                     then Inr (dput ''cfg_scale'' (JFloat c) validated) else Inr validated))"

definition validate_negative_prompt ::
  "(json \<Rightarrow> string) \<Rightarrow> dict \<Rightarrow> override_allowlists \<Rightarrow> dict \<Rightarrow> dict" where
  "validate_negative_prompt rp overrides allowlists validated =
     (case dget overrides ''negative_prompt'' of
        None \<Rightarrow> validated
      | Some v \<Rightarrow> dput ''negative_prompt''
          (JStr (py_take (max_negative_prompt_chars allowlists) (py_str rp v))) validated)"

definition validate_overrides ::
  "(json \<Rightarrow> string) \<Rightarrow> json \<Rightarrow> override_allowlists \<Rightarrow> override_error + dict" where
  "validate_overrides rp ov allowlists =
     (case ov of
        JNull \<Rightarrow> Inr []
      | JObj overrides \<Rightarrow>
          let unknown = filter (\<lambda>k. k \<notin> set ALL_OVERRIDE_KEYS) (map fst overrides) in
          if unknown \<noteq> [] then
            Inl (InvalidComfyOverrideError
              (''unknown model_overrides keys: '' @ rp (JList (map JStr (sort unknown)))))
          else (case validate_string_fields rp STRING_ALLOWLIST_FIELDS overrides allowlists [] of
              Inl e \<Rightarrow> Inl e
            | Inr validated \<Rightarrow> (case validate_steps overrides allowlists validated of
                  Inl e \<Rightarrow> Inl e
                | Inr validated \<Rightarrow> (case validate_cfg_scale overrides allowlists validated of
                      Inl e \<Rightarrow> Inl e
                    | Inr validated \<Rightarrow>
                        Inr (validate_negative_prompt rp overrides allowlists validated))))
      | _ \<Rightarrow> Inl (InvalidComfyOverrideError ''model_overrides must be an object''))"

subsection \<open>Application\<close>

text \<open>
  \<open>dataclasses.replace(profile, **overrides)\<close>: an unknown field is the \<open>TypeError\<close> of
  \<open>replace\<close>, and so is, in this typed record, a value of another type than the field's.
\<close>

definition replace_field :: "string \<Rightarrow> json \<Rightarrow> comfy_profile \<Rightarrow> comfy_profile option" where
  "replace_field k v p =
     (case v of
        JStr s \<Rightarrow>
          (if k = ''checkpoint_name'' then Some (p\<lparr>checkpoint_name := s\<rparr>)
           else if k = ''diffusion_model_name'' then Some (p\<lparr>diffusion_model_name := s\<rparr>)
           else if k = ''clip_name'' then Some (p\<lparr>clip_name := s\<rparr>)
           else if k = ''vae_name'' then Some (p\<lparr>vae_name := s\<rparr>)
           else if k = ''sampler_name'' then Some (p\<lparr>sampler_name := s\<rparr>)
           else if k = ''scheduler'' then Some (p\<lparr>sched_name := s\<rparr>)
           else if k = ''negative_prompt'' then Some (p\<lparr>negative_prompt := s\<rparr>)
           else None)
      | JInt n \<Rightarrow> (if k = ''steps'' then Some (p\<lparr>steps := n\<rparr>) else None)
      | JFloat c \<Rightarrow> (if k = ''cfg_scale'' then Some (p\<lparr>cfg_scale := c\<rparr>) else None)
      | _ \<Rightarrow> None)"

fun replace_all :: "dict \<Rightarrow> comfy_profile \<Rightarrow> comfy_profile option" where
  "replace_all [] p = Some p"
| "replace_all ((k, v) # d) p =
     (case replace_field k v p of None \<Rightarrow> None | Some p' \<Rightarrow> replace_all d p')"

definition merge_negative :: "string \<Rightarrow> string \<Rightarrow> string" where
  "merge_negative baseline_terms caller_terms =
     (if caller_terms \<noteq> [] \<and> baseline_terms \<noteq> [] then baseline_terms @ '', '' @ caller_terms
      else if caller_terms \<noteq> [] then caller_terms else baseline_terms)"

definition apply_overrides :: "comfy_profile \<Rightarrow> dict \<Rightarrow> comfy_profile option" where
  "apply_overrides profile validated_overrides =
     (if validated_overrides = [] then Some profile
      else case dget validated_overrides ''negative_prompt'' of
        None \<Rightarrow> replace_all validated_overrides profile
      | Some (JStr s) \<Rightarrow>
          replace_all (dput ''negative_prompt''
             (JStr (merge_negative (py_strip (negative_prompt profile)) (py_strip s)))
             (dpop ''negative_prompt'' validated_overrides)) profile
      | Some _ \<Rightarrow> None)"

subsection \<open>Library lemmas\<close>

lemma override_keys_distinct: "distinct ALL_OVERRIDE_KEYS" "distinct (map fst STRING_ALLOWLIST_FIELDS)"
  by (simp_all add: ALL_OVERRIDE_KEYS_def STRING_ALLOWLIST_FIELDS_def)

lemma not_string_field:
  "''steps'' \<notin> fst ` set STRING_ALLOWLIST_FIELDS" "''cfg_scale'' \<notin> fst ` set STRING_ALLOWLIST_FIELDS"
  "''negative_prompt'' \<notin> fst ` set STRING_ALLOWLIST_FIELDS"
  by (simp_all add: STRING_ALLOWLIST_FIELDS_def)

text \<open>What a validated value is.\<close>

definition valid_entry :: "override_allowlists \<Rightarrow> string \<Rightarrow> json \<Rightarrow> bool" where
  "valid_entry al k v \<longleftrightarrow>
     (\<exists>attr s. (k, attr) \<in> set STRING_ALLOWLIST_FIELDS \<and> v = JStr s \<and> s \<in> set (attr al) \<and> py_strip s = s) \<or>
     (\<exists>n. k = ''steps'' \<and> v = JInt n \<and> min_steps al \<le> n \<and> n \<le> max_steps al) \<or>
     (\<exists>c. k = ''cfg_scale'' \<and> v = JFloat (Fin c) \<and> min_cfg_scale al \<le> c \<and> c \<le> max_cfg_scale al) \<or>
     (\<exists>s. k = ''negative_prompt'' \<and> v = JStr s \<and>
        (0 \<le> max_negative_prompt_chars al \<longrightarrow> int (length s) \<le> max_negative_prompt_chars al))"

definition valid_dict :: "override_allowlists \<Rightarrow> dict \<Rightarrow> bool" where
  "valid_dict al d \<longleftrightarrow> (\<forall>k v. dget d k = Some v \<longrightarrow> valid_entry al k v) \<and> distinct (map fst d)"

lemma valid_dict_Nil [wf_intros]: "valid_dict al []"
  by (simp add: valid_dict_def)

lemma valid_dict_dput [wf_intros]: "valid_dict al d \<Longrightarrow> valid_entry al k v \<Longrightarrow> valid_dict al (dput k v d)"
  by (simp add: valid_dict_def)

lemma validate_string_fields_valid:
  "set fs \<subseteq> set STRING_ALLOWLIST_FIELDS \<Longrightarrow> validate_string_fields rp fs ov al d = Inr d' \<Longrightarrow>
    valid_dict al d \<Longrightarrow> valid_dict al d'"
proof (induction rp fs ov al d rule: validate_string_fields.induct)
  case (1 rp ov al d)
  then show ?case by simp
next
  case (2 rp f attr fs ov al d)
  show ?case
  proof (cases "dget ov f")
    case None
    with 2 show ?thesis by simp
  next
    case (Some v)
    let ?s = "py_strip (py_str rp v)"
    from "2.prems"(2) Some have ok: "attr al \<noteq> []" "?s \<in> set (attr al)"
      by (auto simp: Let_def split: if_splits)
    from "2.prems"(1) ok have "valid_entry al f (JStr ?s)" by (auto simp: valid_entry_def)
    with "2.prems" have "valid_dict al (dput f (JStr ?s) d)" by (simp add: valid_dict_dput)
    with "2.IH"(2) [OF Some refl refl] ok "2.prems" Some show ?thesis by (simp add: Let_def)
  qed
qed

lemma validate_steps_valid:
  "validate_steps ov al d = Inr d' \<Longrightarrow> valid_dict al d \<Longrightarrow> valid_dict al d'"
  by (auto simp: validate_steps_def valid_entry_def intro!: valid_dict_dput
      split: option.splits conv.splits if_splits)

lemma float_le_Fin: "float_le (Fin a) c \<and> float_le c (Fin b) \<longleftrightarrow> (\<exists>q. c = Fin q \<and> a \<le> q \<and> q \<le> b)"
  by (cases c) auto

lemma validate_cfg_scale_valid:
  "validate_cfg_scale ov al d = Inr d' \<Longrightarrow> valid_dict al d \<Longrightarrow> valid_dict al d'"
  by (auto simp: validate_cfg_scale_def valid_entry_def float_le_Fin intro!: valid_dict_dput
      split: option.splits conv.splits if_splits)

lemma py_take_length: "0 \<le> n \<Longrightarrow> int (length (py_take n s)) \<le> n"
  by (simp add: py_take_def)

lemma validate_negative_prompt_valid:
  "valid_dict al d \<Longrightarrow> valid_dict al (validate_negative_prompt rp ov al d)"
  by (auto simp: validate_negative_prompt_def valid_entry_def py_take_length intro!: valid_dict_dput
      split: option.splits)

lemma validate_overrides_valid:
  assumes "validate_overrides rp ov al = Inr d" shows "valid_dict al d"
proof (cases ov)
  case JNull
  with assms show ?thesis by (simp add: validate_overrides_def valid_dict_Nil)
next
  case (JObj o1)
  from assms obtain d1 d2 d3 where
    "validate_string_fields rp STRING_ALLOWLIST_FIELDS o1 al [] = Inr d1"
    "validate_steps o1 al d1 = Inr d2" "validate_cfg_scale o1 al d2 = Inr d3"
    "d = validate_negative_prompt rp o1 al d3"
    by (auto simp: validate_overrides_def JObj Let_def split: sum.splits if_splits)
  then show ?thesis
    using validate_string_fields_valid [OF subset_refl _ valid_dict_Nil] validate_steps_valid
      validate_cfg_scale_valid validate_negative_prompt_valid by metis
qed (use assms in \<open>simp_all add: validate_overrides_def\<close>)

subsubsection \<open>Application stays within the allowlists\<close>

definition profile_within :: "override_allowlists \<Rightarrow> comfy_profile \<Rightarrow> comfy_profile \<Rightarrow> bool" where
  "profile_within al b p \<longleftrightarrow>
     profile_key p = profile_key b \<and> model_family p = model_family b \<and>
     model_sampling_shift p = model_sampling_shift b \<and>
     (checkpoint_name p = checkpoint_name b \<or> checkpoint_name p \<in> set (checkpoints al)) \<and>
     (diffusion_model_name p = diffusion_model_name b \<or> diffusion_model_name p \<in> set (diffusion_models al)) \<and>
     (clip_name p = clip_name b \<or> clip_name p \<in> set (clips al)) \<and>
     (vae_name p = vae_name b \<or> vae_name p \<in> set (vaes al)) \<and>
     (sampler_name p = sampler_name b \<or> sampler_name p \<in> set (samplers al)) \<and>
     (sched_name p = sched_name b \<or> sched_name p \<in> set (schedulers al)) \<and>
     (steps p = steps b \<or> (min_steps al \<le> steps p \<and> steps p \<le> max_steps al)) \<and>
     (cfg_scale p = cfg_scale b \<or>
        (\<exists>c. cfg_scale p = Fin c \<and> min_cfg_scale al \<le> c \<and> c \<le> max_cfg_scale al))"

lemma profile_within_refl [wf_intros]: "profile_within al p p"
  by (simp add: profile_within_def)

definition applicable :: "override_allowlists \<Rightarrow> string \<Rightarrow> json \<Rightarrow> bool" where
  "applicable al k v \<longleftrightarrow> valid_entry al k v \<or> (k = ''negative_prompt'' \<and> (\<exists>s. v = JStr s))"

lemma applicable_cases:
  assumes "applicable al k v"
  obtains (str) attr s where "(k, attr) \<in> set STRING_ALLOWLIST_FIELDS" "v = JStr s" "s \<in> set (attr al)"
  | (stp) n where "k = ''steps''" "v = JInt n" "min_steps al \<le> n" "n \<le> max_steps al"
  | (cfg) c where "k = ''cfg_scale''" "v = JFloat (Fin c)" "min_cfg_scale al \<le> c" "c \<le> max_cfg_scale al"
  | (neg) s where "k = ''negative_prompt''" "v = JStr s"
  using assms unfolding applicable_def valid_entry_def by blast

lemma replace_field_within:
  assumes "applicable al k v" and "profile_within al b p"
  shows "\<exists>p'. replace_field k v p = Some p' \<and> profile_within al b p' \<and>
    (k \<noteq> ''negative_prompt'' \<longrightarrow> negative_prompt p' = negative_prompt p) \<and>
    (\<forall>s. k = ''negative_prompt'' \<and> v = JStr s \<longrightarrow> negative_prompt p' = s)"
  using assms(1)
proof (cases rule: applicable_cases)
  case (str attr s)
  then have "(k, attr) \<in> {(''checkpoint_name'', checkpoints), (''diffusion_model_name'', diffusion_models),
      (''clip_name'', clips), (''vae_name'', vaes), (''sampler_name'', samplers), (''scheduler'', schedulers)}"
    by (simp add: STRING_ALLOWLIST_FIELDS_def)
  then show ?thesis using assms(2) str
    by (elim insertE) (simp_all add: replace_field_def profile_within_def)
next
  case stp
  with assms(2) show ?thesis by (simp add: replace_field_def profile_within_def)
next
  case cfg
  with assms(2) show ?thesis by (simp add: replace_field_def profile_within_def)
next
  case neg
  with assms(2) show ?thesis by (simp add: replace_field_def profile_within_def)
qed

lemma replace_all_within:
  "\<forall>(k, v) \<in> set d. applicable al k v \<Longrightarrow> distinct (map fst d) \<Longrightarrow> profile_within al b p \<Longrightarrow>
    \<exists>p'. replace_all d p = Some p' \<and> profile_within al b p' \<and>
      (dget d ''negative_prompt'' = None \<longrightarrow> negative_prompt p' = negative_prompt p) \<and>
      (\<forall>s. dget d ''negative_prompt'' = Some (JStr s) \<longrightarrow> negative_prompt p' = s)"
proof (induction d p rule: replace_all.induct)
  case (1 p)
  then show ?case by simp
next
  case (2 k v d p)
  from "2.prems"(1) have "applicable al k v" by simp
  from replace_field_within [OF this "2.prems"(3)] obtain p1 where
    p1: "replace_field k v p = Some p1" "profile_within al b p1"
      "k \<noteq> ''negative_prompt'' \<Longrightarrow> negative_prompt p1 = negative_prompt p"
      "\<And>s. k = ''negative_prompt'' \<Longrightarrow> v = JStr s \<Longrightarrow> negative_prompt p1 = s" by blast
  from "2.IH" [OF p1(1) _ _ p1(2)] "2.prems" obtain p2 where
    p2: "replace_all d p1 = Some p2" "profile_within al b p2"
      "dget d ''negative_prompt'' = None \<Longrightarrow> negative_prompt p2 = negative_prompt p1"
      "\<And>s. dget d ''negative_prompt'' = Some (JStr s) \<Longrightarrow> negative_prompt p2 = s" by auto
  have "dget d ''negative_prompt'' = None" if "k = ''negative_prompt''"
    using that "2.prems"(2) by (simp add: dget_None_iff)
  with p1 p2 show ?case by (cases "k = ''negative_prompt''") simp_all
qed

lemma valid_dict_applicable: "valid_dict al d \<Longrightarrow> \<forall>(k, v) \<in> set d. applicable al k v"
  by (auto simp: valid_dict_def applicable_def dget_set)

lemma valid_negative_str: "valid_entry al ''negative_prompt'' v \<Longrightarrow> \<exists>s. v = JStr s"
  using not_string_field(3) by (auto simp: valid_entry_def)

lemma starts_with_merge: "starts_with b (merge_negative b c)"
  by (cases "b = []") (auto simp: merge_negative_def)

lemma apply_overrides_within:
  assumes "valid_dict al d"
  shows "\<exists>p'. apply_overrides p d = Some p' \<and> profile_within al p p' \<and>
    negative_prompt p' = (case dget d ''negative_prompt'' of
       Some (JStr s) \<Rightarrow> merge_negative (py_strip (negative_prompt p)) (py_strip s)
     | _ \<Rightarrow> negative_prompt p)"
proof (cases "dget d ''negative_prompt''")
  case None
  then show ?thesis
    using replace_all_within [OF valid_dict_applicable [OF assms] _ profile_within_refl] assms
    by (auto simp: apply_overrides_def valid_dict_def profile_within_refl)
next
  case (Some v)
  with assms obtain s where s: "v = JStr s" unfolding valid_dict_def by (meson valid_negative_str)
  let ?n = "merge_negative (py_strip (negative_prompt p)) (py_strip s)"
  let ?d = "dput ''negative_prompt'' (JStr ?n) (dpop ''negative_prompt'' d)"
  have dist: "distinct (map fst ?d)" using assms by (simp add: valid_dict_def)
  have "\<forall>(k, v) \<in> set ?d. applicable al k v"
  proof clarify
    fix k w assume "(k, w) \<in> set ?d"
    with dist have "dget ?d k = Some w" by (simp only: dget_set)
    with valid_dict_applicable [OF assms] show "applicable al k w"
      by (auto simp: applicable_def split: if_splits dest: dget_SomeD)
  qed
  from replace_all_within [OF this dist profile_within_refl] obtain p' where
    "replace_all ?d p = Some p'" "profile_within al p p'" "negative_prompt p' = ?n" by fastforce
  then show ?thesis using Some s by (auto simp: apply_overrides_def)
qed

subsection \<open>Properties\<close>

text \<open>C4. Overrides are safe to render with: whatever a client sends as \<open>model_overrides\<close>, if it
  is accepted then it applies to every profile without error, the profile's key, graph family
  and sampling shift stay, every file name and sampler is the profile's own or one of the
  matching allowlist, steps and cfg stay the profile's own or lie in the configured range, and
  the profile's own negative prompt remains as a floor in front of the client's terms.\<close>

theorem accepted_overrides_are_safe:
  assumes "validate_overrides rp ov al = Inr d"
  shows "\<exists>p'. apply_overrides p d = Some p' \<and> profile_within al p p' \<and>
    (negative_prompt p' = negative_prompt p \<or> starts_with (py_strip (negative_prompt p)) (negative_prompt p'))"
proof -
  from apply_overrides_within [OF validate_overrides_valid [OF assms], of p] obtain p' where
    p': "apply_overrides p d = Some p'" "profile_within al p p'"
      "negative_prompt p' = (case dget d ''negative_prompt'' of
         Some (JStr s) \<Rightarrow> merge_negative (py_strip (negative_prompt p)) (py_strip s)
       | _ \<Rightarrow> negative_prompt p)" by blast
  from p'(3) have "negative_prompt p' = negative_prompt p \<or>
      starts_with (py_strip (negative_prompt p)) (negative_prompt p')"
    by (auto simp: starts_with_merge split: option.splits json.splits)
  with p'(1,2) show ?thesis by blast
qed

definition example_allowlists :: override_allowlists where
  "example_allowlists = \<lparr>checkpoints = [], diffusion_models = [], clips = [], vaes = [],
     samplers = [''euler'', ''dpmpp_2m''], schedulers = [], min_steps = 1, max_steps = 50,
     min_cfg_scale = 1, max_cfg_scale = 15, max_negative_prompt_chars = 2000\<rparr>"

definition example_overrides :: json where
  "example_overrides = JObj [(''sampler_name'', JStr '' dpmpp_2m ''), (''steps'', JInt 30),
     (''cfg_scale'', JStr ''high''), (''negative_prompt'', JStr ''blurry'')]"

theorem accepted_overrides_are_safe_witness:
  "\<exists>p'. apply_overrides (snd (hd (build_profiles default_settings))) [(''sampler_name'', JStr ''dpmpp_2m''), (''steps'', JInt 30),
      (''negative_prompt'', JStr ''blurry'')] = Some p' \<and> profile_within example_allowlists (snd (hd (build_profiles default_settings))) p'"
proof -
  have "validate_overrides (\<lambda>_. []) example_overrides example_allowlists =
     Inr [(''sampler_name'', JStr ''dpmpp_2m''), (''steps'', JInt 30), (''negative_prompt'', JStr ''blurry'')]"
    by (simp add: validate_overrides_def example_overrides_def ALL_OVERRIDE_KEYS_def
        STRING_ALLOWLIST_FIELDS_def example_allowlists_def py_strip_def is_space_def
        validate_steps_def validate_cfg_scale_def validate_negative_prompt_def py_take_def
        parse_float_def parse_decimal_def split_sign_def py_partition_def to_lower_def
        opt_digits_def is_digit_def)
  from accepted_overrides_are_safe [OF this, of "snd (hd (build_profiles default_settings))"] show ?thesis by blast
qed

end
