(* ===== verification/Admission.thy ===== *)
theory Admission
  imports Py_Json Job_Queue Memory_Queue Postgres_Queue Idempotency Workflows Profiles
begin

section \<open>Job admission (domain/jobs/admission.py)\<close>

text \<open>
  The one way into the queue: workflow and profile validation, preview handling, idempotency,
  backlog caps, wait estimate and enqueue, in the order of the code and over any job queue that
  implements the port. The lemmas about its effect are proved once under the contract of the
  port and read off for both adapters.
\<close>

subsection \<open>Definitions\<close>

datatype admission_error =
    Adm_UnknownWorkflow string
  | Adm_UnknownModelProfile string
  | Adm_InvalidComfyOverride string
  | Adm_PreviewNotSupported string
  | Adm_IdempotencyConflict
  | Adm_CapacityExceeded string int
  | Adm_Unhandled string
  | Adm_Queue queue_error

record admission_result =
  ar_id :: uuid
  ar_state :: job_state
  ar_kind :: string
  ar_replayed :: bool
  ar_queue_position :: "nat option"
  ar_estimated_wait_seconds :: "rat option"
  ar_is_preview :: bool

definition capacity_for_backend :: "string \<Rightarrow> settings \<Rightarrow> int" where
  "capacity_for_backend backend s =
     (if backend = ''comfyui'' then default_comfy_active_slots s else default_gemini_active_slots s)"

definition estimate_wait_seconds :: "nat \<Rightarrow> string \<Rightarrow> settings \<Rightarrow> rat option" where
  "estimate_wait_seconds position backend s =
     (let capacity = capacity_for_backend backend s in
      if capacity \<le> 0 then None
      else Some (of_int (int position div capacity) * estimated_job_duration_s s))"

text \<open>The parameters the code takes from Python itself: \<open>repr\<close>, the text of floats, SHA-256.\<close>

record py_env =
  py_repr :: "json \<Rightarrow> string"
  py_float_text :: "pyfloat \<Rightarrow> string"
  py_sha256 :: "string \<Rightarrow> string"

text \<open>Lines 194--242: the inputs that are stored and hashed.\<close>

definition normalise_inputs ::
  "py_env \<Rightarrow> settings \<Rightarrow> workflow_definition \<Rightarrow> dict \<Rightarrow> admission_error + dict" where
  "normalise_inputs E s workflow inputs =
     (let is_preview = truthy (get_json inputs ''preview'') in
      if wf_backend workflow = ''comfyui'' then
        (case resolve_profile_key (py_repr E) (get_json inputs ''model_profile'') (build_profiles s) of
           Inl (UnknownModelProfileError msg) \<Rightarrow> Inl (Adm_UnknownModelProfile msg)
         | Inl Profile_Attribute_Error \<Rightarrow> Inl (Adm_Unhandled ''AttributeError'')
         | Inr resolved_key \<Rightarrow>
             (case validate_overrides (py_repr E) (get_json inputs ''model_overrides'') (build_allowlists s) of
                Inl (InvalidComfyOverrideError msg) \<Rightarrow> Inl (Adm_InvalidComfyOverride msg)
              | Inl Override_Overflow \<Rightarrow> Inl (Adm_Unhandled ''OverflowError'')
              | Inr validated \<Rightarrow>
                  if is_preview \<and> \<not> preview_enabled s then
                    Inl (Adm_PreviewNotSupported ''preview generation is disabled on this deployment'')
                  else let final_overrides = (if is_preview
                              then dput ''steps'' (JInt (preview_steps s)) validated else validated);
                           inputs = dput ''is_preview'' (JBool is_preview)
                              (dput ''model_overrides'' (JObj final_overrides)
                              (dput ''model_profile'' (JStr resolved_key) inputs))
                       in Inr (if is_preview
                            then dput ''preview_original_overrides'' (JObj validated) inputs else inputs)))
      else if is_preview then
        Inl (Adm_PreviewNotSupported (''preview generation is only supported for ComfyUI-backed '' @
          ''workflows, not '' @ py_repr E (JStr (wf_backend workflow))))
      else Inr inputs)"

text \<open>Lines 275--301: the backlog caps of a genuinely new job.\<close>

definition waiting_text :: "string \<Rightarrow> nat \<Rightarrow> int \<Rightarrow> string" where
  "waiting_text who n limit = who @ '' already '' @ (if who = ''you'' then ''have '' else ''has '') @
     nat_str n @ '' job(s) waiting (limit '' @ int_str limit @
     '') -- wait for one to finish before submitting more''"

definition check_caps ::
  "'q job_queue_port \<Rightarrow> settings \<Rightarrow> uuid \<Rightarrow> uuid option \<Rightarrow> 'q \<Rightarrow> admission_error option" where
  "check_caps P s user_id conversation_id q =
     (if global_queue_cap s > 0 \<and> int (jq_count_global_backlog P q) \<ge> global_queue_cap s then
        Some (Adm_CapacityExceeded ''the generation queue is full system-wide, please retry shortly'' 30)
      else if max_queued_jobs_per_user s > 0 then
        (case conversation_id of
           Some c \<Rightarrow> let conv_backlog = jq_count_conversation_backlog P c q in
             if int conv_backlog \<ge> max_queued_jobs_per_user s then
               Some (Adm_CapacityExceeded (waiting_text ''this conversation'' conv_backlog (max_queued_jobs_per_user s)) 15)
             else None
         | None \<Rightarrow> let user_backlog = jq_count_user_backlog P user_id q in
             if int user_backlog \<ge> max_queued_jobs_per_user s then
               Some (Adm_CapacityExceeded (waiting_text ''you'' user_backlog (max_queued_jobs_per_user s)) 15)
             else None)
      else None)"

text \<open>Lines 303--338: position, estimate, the job itself.\<close>

definition enqueue_new ::
  "'q job_queue_port \<Rightarrow> settings \<Rightarrow> time \<Rightarrow> uuid \<Rightarrow> uuid \<Rightarrow> workflow_definition \<Rightarrow> string \<Rightarrow> dict \<Rightarrow> string
     \<Rightarrow> uuid option \<Rightarrow> bool \<Rightarrow> 'q \<Rightarrow> admission_error + (admission_result \<times> 'q)" where
  "enqueue_new P s now new_id user_id workflow kd inputs ikey conv is_preview q =
     (let position = jq_count_backlog_for_kinds P (Some (kinds_for_backend (wf_backend workflow))) q;
          estimated_wait = estimate_wait_seconds position (wf_backend workflow) s;
          job = new_queued_job new_id user_id kd Queued 0 0 inputs ikey now conv
      in case jq_enqueue P now job q of
           Inl e \<Rightarrow> Inl (Adm_Queue e)
         | Inr q' \<Rightarrow> Inr (\<lparr>ar_id = j_id job, ar_state = j_state job, ar_kind = j_kind job,
              ar_replayed = False, ar_queue_position = Some position,
              ar_estimated_wait_seconds = estimated_wait, ar_is_preview = is_preview\<rparr>, q'))"

definition admit_generation_job ::
  "py_env \<Rightarrow> 'q job_queue_port \<Rightarrow> settings \<Rightarrow> time \<Rightarrow> uuid \<Rightarrow> uuid \<Rightarrow> string \<Rightarrow> string \<Rightarrow> dict \<Rightarrow> string
     \<Rightarrow> uuid option \<Rightarrow> 'q \<Rightarrow> admission_error + (admission_result \<times> 'q)" where
  "admit_generation_job E P s now new_id user_id workflow_name workflow_version inputs ikey conv q =
     (case resolve_workflow workflow_name workflow_version of
        Inl (UnknownWorkflowError msg) \<Rightarrow> Inl (Adm_UnknownWorkflow msg)
      | Inr workflow \<Rightarrow>
          (case normalise_inputs E s workflow inputs of
             Inl e \<Rightarrow> Inl e
           | Inr inputs' \<Rightarrow>
               let is_preview = truthy (get_json inputs ''preview'');
                   kd = workflow_name;
                   existing = jq_find_by_idempotency_key P user_id ikey kd q;
                   existing_hash = map_option (\<lambda>j. canonical_payload_hash (py_float_text E) (py_sha256 E)
                                                     (j_input_payload j)) existing;
                   check = check_idempotency (py_float_text E) (py_sha256 E) (map_option j_id existing)
                             existing_hash inputs'
               in case (outcome check, existing) of
                    (CONFLICT, _) \<Rightarrow> Inl Adm_IdempotencyConflict
                  | (REPLAY, Some job) \<Rightarrow>
                      Inr (\<lparr>ar_id = j_id job, ar_state = j_state job, ar_kind = j_kind job,
                            ar_replayed = True, ar_queue_position = None,
                            ar_estimated_wait_seconds = None,
                            ar_is_preview = truthy (get_json (j_input_payload job) ''is_preview'')\<rparr>, q)
                  | _ \<Rightarrow>
                      (case check_caps P s user_id conv q of
                         Some e \<Rightarrow> Inl e
                       | None \<Rightarrow> enqueue_new P s now new_id user_id workflow kd inputs' ikey conv is_preview q)))"

subsection \<open>What an accepted request did\<close>

definition payload_hash :: "py_env \<Rightarrow> dict \<Rightarrow> string" where
  "payload_hash E = canonical_payload_hash (py_float_text E) (py_sha256 E)"

lemma admit_cases:
  assumes "admit_generation_job E P s now nid u wn wv inputs ikey conv q = Inr (r, q')"
  obtains w inputs' where "resolve_workflow wn wv = Inr w" "normalise_inputs E s w inputs = Inr inputs'"
    and "(\<exists>j. jq_find_by_idempotency_key P u ikey wn q = Some j \<and>
           payload_hash E (j_input_payload j) = payload_hash E inputs' \<and>
           ar_replayed r \<and> ar_id r = j_id j \<and> q' = q) \<or>
         (jq_find_by_idempotency_key P u ikey wn q = None \<and> check_caps P s u conv q = None \<and>
          \<not> ar_replayed r \<and> ar_id r = nid \<and>
          jq_enqueue P now (new_queued_job nid u wn Queued 0 0 inputs' ikey now conv) q = Inr q')"
proof -
  from assms obtain w where w: "resolve_workflow wn wv = Inr w"
    by (auto simp: admit_generation_job_def split: sum.splits workflow_error.splits)
  from assms w obtain inputs' where i: "normalise_inputs E s w inputs = Inr inputs'"
    by (auto simp: admit_generation_job_def split: sum.splits)
  have "(\<exists>j. jq_find_by_idempotency_key P u ikey wn q = Some j \<and>
           payload_hash E (j_input_payload j) = payload_hash E inputs' \<and>
           ar_replayed r \<and> ar_id r = j_id j \<and> q' = q) \<or>
         (jq_find_by_idempotency_key P u ikey wn q = None \<and> check_caps P s u conv q = None \<and>
          \<not> ar_replayed r \<and> ar_id r = nid \<and>
          jq_enqueue P now (new_queued_job nid u wn Queued 0 0 inputs' ikey now conv) q = Inr q')"
  proof (cases "jq_find_by_idempotency_key P u ikey wn q")
    case None
    with assms w i show ?thesis
      by (auto simp: admit_generation_job_def Let_def check_idempotency_def enqueue_new_def
          new_queued_job_def split: option.splits sum.splits)
  next
    case (Some j)
    with assms w i show ?thesis
      by (auto simp: admit_generation_job_def Let_def check_idempotency_def payload_hash_def
          split: if_splits)
  qed
  with that w i show thesis by blast
qed

lemma admit_replay:
  assumes "resolve_workflow wn wv = Inr w" "normalise_inputs E s w inputs = Inr inputs'"
    and "jq_find_by_idempotency_key P u ikey wn q = Some j"
    and "payload_hash E (j_input_payload j) = payload_hash E inputs'"
  shows "\<exists>r. admit_generation_job E P s now nid u wn wv inputs ikey conv q = Inr (r, q) \<and>
    ar_replayed r \<and> ar_id r = j_id j"
  using assms by (simp add: admit_generation_job_def Let_def check_idempotency_def payload_hash_def)

lemma new_queued_job_simps [simp]:
  "j_id (new_queued_job i u k st p e pl ik t c) = i" "j_user_id (new_queued_job i u k st p e pl ik t c) = u"
  "j_kind (new_queued_job i u k st p e pl ik t c) = k" "j_state (new_queued_job i u k st p e pl ik t c) = st"
  "j_input_payload (new_queued_job i u k st p e pl ik t c) = pl"
  "j_idempotency_key (new_queued_job i u k st p e pl ik t c) = ik"
  "j_queued_at (new_queued_job i u k st p e pl ik t c) = t"
  by (simp_all add: new_queued_job_def)

lemma check_caps_user:
  "check_caps P s u conv q = None \<Longrightarrow>
    (0 < global_queue_cap s \<longrightarrow> int (jq_count_global_backlog P q) < global_queue_cap s) \<and>
    (0 < max_queued_jobs_per_user s \<longrightarrow> conv = None \<longrightarrow> int (jq_count_user_backlog P u q) < max_queued_jobs_per_user s)"
  by (auto simp: check_caps_def Let_def split: if_splits option.splits)

context job_queue
begin

lemma find_unique_new:
  assumes "ok q" "jq_get P (j_id j) q = None" "jq_enqueue P now j q = Inr q'"
    and "jq_find_by_idempotency_key P (j_user_id j) (j_idempotency_key j) (j_kind j) q = None"
  shows "\<exists>j'. jq_find_by_idempotency_key P (j_user_id j) (j_idempotency_key j) (j_kind j) q' = Some j' \<and>
    same_job j j'"
proof -
  from enqueue_ok [OF assms(1-3)] obtain j1 where ok': "ok q'" and
    j1: "jq_get P (j_id j) q' = Some j1" "same_job j j1" and
    frame: "\<And>i. i \<noteq> j_id j \<Longrightarrow> jq_get P i q' = jq_get P i q" by blast
  show ?thesis
  proof (cases "jq_find_by_idempotency_key P (j_user_id j) (j_idempotency_key j) (j_kind j) q'")
    case None
    from find_none [OF ok' None j1(1)] j1(2) show ?thesis by (simp add: same_job_def)
  next
    case (Some j2)
    from find_some [OF ok' Some] have j2: "jq_get P (j_id j2) q' = Some j2" "j_user_id j2 = j_user_id j"
      "j_idempotency_key j2 = j_idempotency_key j" "j_kind j2 = j_kind j" by simp_all
    have "j_id j2 = j_id j"
    proof (rule ccontr)
      assume "j_id j2 \<noteq> j_id j"
      with j2(1) frame have "jq_get P (j_id j2) q = Some j2" by simp
      from find_none [OF assms(1,4) this] j2(2-4) show False by simp
    qed
    with j2(1) j1 Some show ?thesis by simp
  qed
qed

lemma admit_twice:
  assumes "ok q" "jq_get P nid q = None"
    and "admit_generation_job E P s now nid u wn wv inputs ikey conv q = Inr (r, q')"
  shows "\<exists>r2. admit_generation_job E P s now2 nid2 u wn wv inputs ikey conv2 q' = Inr (r2, q') \<and>
    ar_replayed r2 \<and> ar_id r2 = ar_id r"
  using assms(3)
proof (rule admit_cases)
  fix w inputs'
  assume w: "resolve_workflow wn wv = Inr w" "normalise_inputs E s w inputs = Inr inputs'"
    and c: "(\<exists>j. jq_find_by_idempotency_key P u ikey wn q = Some j \<and>
           payload_hash E (j_input_payload j) = payload_hash E inputs' \<and>
           ar_replayed r \<and> ar_id r = j_id j \<and> q' = q) \<or>
         (jq_find_by_idempotency_key P u ikey wn q = None \<and> check_caps P s u conv q = None \<and>
          \<not> ar_replayed r \<and> ar_id r = nid \<and>
          jq_enqueue P now (new_queued_job nid u wn Queued 0 0 inputs' ikey now conv) q = Inr q')"
  from c show ?thesis
  proof
    assume "\<exists>j. jq_find_by_idempotency_key P u ikey wn q = Some j \<and>
           payload_hash E (j_input_payload j) = payload_hash E inputs' \<and>
           ar_replayed r \<and> ar_id r = j_id j \<and> q' = q"
    with admit_replay [OF w] show ?thesis by fastforce
  next
    let ?job = "new_queued_job nid u wn Queued 0 0 inputs' ikey now conv"
    assume a: "jq_find_by_idempotency_key P u ikey wn q = None \<and> check_caps P s u conv q = None \<and>
          \<not> ar_replayed r \<and> ar_id r = nid \<and> jq_enqueue P now ?job q = Inr q'"
    with assms(1,2) find_unique_new [of q ?job now q'] obtain j' where
      "jq_find_by_idempotency_key P u ikey wn q' = Some j'" "same_job ?job j'" by auto
    then show ?thesis using admit_replay [OF w, of P u ikey q' j'] a by (simp add: same_job_def)
  qed
qed

lemma admit_caps:
  assumes "ok q" "jq_get P nid q = None"
    and "admit_generation_job E P s now nid u wn wv inputs ikey conv q = Inr (r, q')" "\<not> ar_replayed r"
  shows "(0 < global_queue_cap s \<longrightarrow> int (jq_count_global_backlog P q') \<le> global_queue_cap s) \<and>
    (0 < max_queued_jobs_per_user s \<longrightarrow> conv = None \<longrightarrow>
       int (jq_count_user_backlog P u q') \<le> max_queued_jobs_per_user s) \<and>
    jq_count_global_backlog P q' = Suc (jq_count_global_backlog P q)"
  using assms(3)
proof (rule admit_cases)
  fix w inputs'
  let ?job = "new_queued_job nid u wn Queued 0 0 inputs' ikey now conv"
  assume "(\<exists>j. jq_find_by_idempotency_key P u ikey wn q = Some j \<and>
           payload_hash E (j_input_payload j) = payload_hash E inputs' \<and>
           ar_replayed r \<and> ar_id r = j_id j \<and> q' = q) \<or>
         (jq_find_by_idempotency_key P u ikey wn q = None \<and> check_caps P s u conv q = None \<and>
          \<not> ar_replayed r \<and> ar_id r = nid \<and> jq_enqueue P now ?job q = Inr q')"
  with assms(4) have caps: "check_caps P s u conv q = None" and enq: "jq_enqueue P now ?job q = Inr q'"
    by auto
  have "is_backlog ?job" by (simp add: is_backlog_def)
  with assms(1,2) enq enqueue_backlog_count(1) [of q ?job now q'] enqueue_backlog_count(2) [of q ?job now q' u]
  have "jq_count_global_backlog P q' = Suc (jq_count_global_backlog P q)"
    "jq_count_user_backlog P u q' = Suc (jq_count_user_backlog P u q)" by simp_all
  with check_caps_user [OF caps] show ?thesis by auto
qed

end

subsection \<open>What is stored\<close>

lemma normalise_comfy:
  assumes "normalise_inputs E s w inputs = Inr inputs'" "wf_backend w = ''comfyui''"
  obtains k d where "dget inputs' ''model_profile'' = Some (JStr k)" "dmem k (build_profiles s)"
    and "valid_dict (build_allowlists s) d"
    and "dget inputs' ''model_overrides'' = Some (JObj (if truthy (get_json inputs ''preview'')
        then dput ''steps'' (JInt (preview_steps s)) d else d))"
    and "dget inputs' ''is_preview'' = Some (JBool (truthy (get_json inputs ''preview'')))"
    and "truthy (get_json inputs ''preview'') \<Longrightarrow> dget inputs' ''preview_original_overrides'' = Some (JObj d)"
proof -
  obtain k where k: "resolve_profile_key (py_repr E) (get_json inputs ''model_profile'') (build_profiles s) = Inr k"
  proof (cases "resolve_profile_key (py_repr E) (get_json inputs ''model_profile'') (build_profiles s)")
    case (Inl e)
    with assms show ?thesis by (cases e) (simp_all add: normalise_inputs_def Let_def)
  qed (rule that)
  obtain d where d: "validate_overrides (py_repr E) (get_json inputs ''model_overrides'') (build_allowlists s) = Inr d"
  proof (cases "validate_overrides (py_repr E) (get_json inputs ''model_overrides'') (build_allowlists s)")
    case (Inl e)
    with assms k show ?thesis by (cases e) (simp_all add: normalise_inputs_def Let_def)
  qed (rule that)
  have "dmem k (build_profiles s)"
    using k by (auto simp: resolve_profile_key_def Let_def split: json.splits if_splits)
  moreover note validate_overrides_valid [OF d]
  ultimately show thesis
    using that [of k d] assms k d by (auto simp: normalise_inputs_def Let_def split: if_splits)
qed

subsection \<open>Properties\<close>

text \<open>Retrying a request is harmless: if a request was accepted then the identical request,
  sent again at any time and with any fresh id, answers with the same job as a replay and leaves
  the queue as it is. Shown for the in-memory queue.\<close>

theorem admission_replay_memory:
  assumes "mem_ok q" and "mem_get nid q = None"
    and "admit_generation_job E mem_port s now nid u wn wv inputs ikey conv q = Inr (r, q')"
  shows "\<exists>r2. admit_generation_job E mem_port s now2 nid2 u wn wv inputs ikey conv2 q' = Inr (r2, q') \<and>
    ar_replayed r2 \<and> ar_id r2 = ar_id r"
  using mem.admit_twice [OF assms(1) _ assms(3)] assms(2) by simp

definition plain_env :: py_env where
  "plain_env = \<lparr>py_repr = (\<lambda>_. []), py_float_text = (\<lambda>_. []), py_sha256 = (\<lambda>x. x)\<rparr>"

definition poster_request :: dict where
  "poster_request = [(''prompt'', JStr ''open day'')]"

definition small_settings :: settings where
  "small_settings = default_settings\<lparr>max_queued_jobs_per_user := 1\<rparr>"

lemma small_settings_simps [simp]:
  "global_queue_cap small_settings = 5000" "max_queued_jobs_per_user small_settings = 1"
  "default_gemini_active_slots small_settings = 3" "estimated_job_duration_s small_settings = 60"
  by (simp_all add: small_settings_def default_settings_def)

lemma admit_poster:
  "\<exists>r. admit_generation_job plain_env mem_port small_settings 5 1 7 ''poster_infographic'' ''v1''
      poster_request ''key'' None mem_init =
    Inr (r, mem_enqueue (new_queued_job 1 7 ''poster_infographic'' Queued 0 0 poster_request ''key'' 5 None) mem_init) \<and>
    \<not> ar_replayed r \<and> ar_id r = 1"
  by (simp add: admit_generation_job_def resolve_workflow_known normalise_inputs_def poster_request_def
      get_json_def mem_port_def mem_find_by_idempotency_key_def mem_init_def check_idempotency_def
      check_caps_def mem_count_global_backlog_def mem_count_user_backlog_def enqueue_new_def Let_def)

theorem admission_replay_memory_witness:
  "\<exists>q r2. admit_generation_job plain_env mem_port small_settings 9 2 7 ''poster_infographic'' ''v1''
      poster_request ''key'' None q = Inr (r2, q) \<and> ar_replayed r2 \<and> ar_id r2 = 1"
proof -
  have "mem_get 1 mem_init = None" by (simp add: mem_get_def mem_init_def)
  with admit_poster admission_replay_memory [OF mem_ok_init] show ?thesis by metis
qed


lemma admit_poster_pg:
  "\<exists>r q'. admit_generation_job plain_env (pg_port locked) small_settings 5 1 7 ''poster_infographic'' ''v1''
      poster_request ''key'' None example_db = Inr (r, q') \<and> \<not> ar_replayed r \<and> ar_id r = 1"
  by (simp add: admit_generation_job_def resolve_workflow_known normalise_inputs_def poster_request_def
      get_json_def pg_port_def pg_find_by_idempotency_key_def first_job_def select_jobs_def example_db_def
      check_idempotency_def check_caps_def pg_count_global_backlog_def pg_count_user_backlog_def
      count_rows_def enqueue_new_def Let_def pg_enqueue_def resolve_workflow_defaults_def
      list_workflows_def REGISTRY_def violates_def new_queued_job_def)




text \<open>C11. What a ComfyUI job carries was checked: in every accepted ComfyUI request the stored
  payload names a configured profile, its overrides all passed validation (a preview's forced
  step count apart), and the preview flag it stores is the one the request asked for, whatever
  the client wrote under these names.\<close>

theorem admitted_comfy_payload_is_checked:
  assumes "mem_ok q" and "mem_get nid q = None"
    and "admit_generation_job E mem_port s now nid u wn wv inputs ikey conv q = Inr (r, q')"
    and "\<not> ar_replayed r" and "backend_for_kind wn = Some ''comfyui''"
  shows "\<exists>j k d. mem_get nid q' = Some j \<and> dget (j_input_payload j) ''model_profile'' = Some (JStr k) \<and>
    k \<in> set (list_profile_keys s) \<and> valid_dict (build_allowlists s) d \<and>
    dget (j_input_payload j) ''model_overrides'' = Some (JObj (if truthy (get_json inputs ''preview'')
        then dput ''steps'' (JInt (preview_steps s)) d else d)) \<and>
    dget (j_input_payload j) ''is_preview'' = Some (JBool (truthy (get_json inputs ''preview'')))"
  using assms(3)
proof (rule admit_cases)
  fix w inputs'
  assume w: "resolve_workflow wn wv = Inr w" "normalise_inputs E s w inputs = Inr inputs'"
    and "(\<exists>j. jq_find_by_idempotency_key mem_port u ikey wn q = Some j \<and>
           payload_hash E (j_input_payload j) = payload_hash E inputs' \<and>
           ar_replayed r \<and> ar_id r = j_id j \<and> q' = q) \<or>
         (jq_find_by_idempotency_key mem_port u ikey wn q = None \<and> check_caps mem_port s u conv q = None \<and>
          \<not> ar_replayed r \<and> ar_id r = nid \<and>
          jq_enqueue mem_port now (new_queued_job nid u wn Queued 0 0 inputs' ikey now conv) q = Inr q')"
  with assms(4) have "q' = mem_enqueue (new_queued_job nid u wn Queued 0 0 inputs' ikey now conv) q"
    by auto
  then have j: "mem_get nid q' = Some (new_queued_job nid u wn Queued 0 0 inputs' ikey now conv)"
    by (simp add: mem_enqueue_law)
  have "wf_backend w = ''comfyui''" using resolve_workflow_cases [OF w(1)] assms(5) by simp
  from normalise_comfy [OF w(2) this] obtain k d where
    "dget inputs' ''model_profile'' = Some (JStr k)" "dmem k (build_profiles s)"
    "valid_dict (build_allowlists s) d"
    "dget inputs' ''model_overrides'' = Some (JObj (if truthy (get_json inputs ''preview'')
        then dput ''steps'' (JInt (preview_steps s)) d else d))"
    "dget inputs' ''is_preview'' = Some (JBool (truthy (get_json inputs ''preview'')))" by blast
  then show ?thesis using j by (auto simp: list_profile_keys_def dmem_def)
qed

definition image_request :: dict where
  "image_request = [(''prompt'', JStr ''cat''), (''preview'', JBool True), (''is_preview'', JBool False)]"

lemma default_profiles: "dmem ''student'' (build_profiles small_settings)"
  by (simp add: build_profiles_def small_settings_def default_settings_def dmem_def DEFAULT_PROFILE_KEY_def Let_def)

lemma admit_image:
  "\<exists>r q'. admit_generation_job plain_env mem_port small_settings 5 1 7 ''image_basic'' ''v1''
      image_request ''key'' None mem_init = Inr (r, q') \<and> \<not> ar_replayed r \<and> ar_id r = 1"
proof -
  have "resolve_profile_key rp JNull (build_profiles small_settings) = Inr ''student''" for rp
    using default_profiles by (simp add: resolve_profile_key_def py_strip_def DEFAULT_PROFILE_KEY_def)
  moreover have "preview_enabled small_settings" by (simp add: small_settings_def default_settings_def)
  ultimately have "\<exists>i. normalise_inputs plain_env small_settings \<lparr>wf_name = ''image_basic'', wf_version = ''v1'',
     wf_model_family = ''sdxl'', wf_graph_template = [], wf_backend = ''comfyui''\<rparr> image_request = Inr i"
    by (simp add: normalise_inputs_def image_request_def get_json_def validate_overrides_def)
  then show ?thesis
    by (auto simp: admit_generation_job_def resolve_workflow_known mem_find_by_idempotency_key_def
        mem_init_def check_idempotency_def check_caps_def mem_count_global_backlog_def
        mem_count_user_backlog_def enqueue_new_def Let_def)
qed

theorem admitted_comfy_payload_is_checked_witness:
  "\<exists>r q' j. admit_generation_job plain_env mem_port small_settings 5 1 7 ''image_basic'' ''v1''
      image_request ''key'' None mem_init = Inr (r, q') \<and> mem_get 1 q' = Some j \<and>
    dget (j_input_payload j) ''is_preview'' = Some (JBool True)"
proof -
  from admit_image obtain r q' where r: "admit_generation_job plain_env mem_port small_settings 5 1 7
      ''image_basic'' ''v1'' image_request ''key'' None mem_init = Inr (r, q')" "\<not> ar_replayed r" by blast
  have g: "mem_get 1 mem_init = None" by (simp add: mem_get_def mem_init_def)
  have b: "backend_for_kind ''image_basic'' = Some ''comfyui''" by code_simp
  from admitted_comfy_payload_is_checked [OF mem_ok_init g r b] r(1) show ?thesis
    by (auto simp: image_request_def get_json_def)
qed

text \<open>The gap beside it: on a workflow of the other backend the client's own \<open>is_preview\<close>
  key is stored as sent, although the request asked for no preview and the answer says so.\<close>

theorem poster_keeps_client_preview_flag:
  "\<exists>r q' j. admit_generation_job plain_env mem_port small_settings 5 1 7 ''poster_infographic'' ''v1''
      [(''is_preview'', JBool True)] ''key'' None mem_init = Inr (r, q') \<and> \<not> ar_is_preview r \<and>
    mem_get 1 q' = Some j \<and> truthy (get_json (j_input_payload j) ''is_preview'')"
  by (simp add: admit_generation_job_def resolve_workflow_known normalise_inputs_def
      get_json_def mem_find_by_idempotency_key_def mem_init_def check_idempotency_def
      check_caps_def mem_count_global_backlog_def mem_count_user_backlog_def enqueue_new_def Let_def
      mem_enqueue_law)

end
