(* ===== verification/Worker_Scoring.thy ===== *)
theory Worker_Scoring
  imports Prelude
begin

section \<open>Worker selection (domain/workers/scoring.py)\<close>

text \<open>
  The eligibility filter and the score of a worker, over exact rationals, and the selection of
  the first worker of least score. Naive datetimes do not occur here: both are aware.
\<close>

definition STALE_HEARTBEAT_SECONDS :: int where
  "STALE_HEARTBEAT_SECONDS = 30"

record worker_snapshot =
  worker_id :: string
  status :: string
  capabilities :: "string list"
  max_slots :: int
  reserved_slots :: int
  running_slots :: int
  local_queue_depth :: int
  last_heartbeat_at :: time
  recent_failure_rate :: rat
  current_model_loaded :: "string option"

definition is_eligible :: "worker_snapshot \<Rightarrow> string \<Rightarrow> time \<Rightarrow> bool" where
  "is_eligible w required_capability now =
     (if status w \<noteq> ''online'' then False
      else if required_capability \<notin> set (capabilities w) then False
      else if now - last_heartbeat_at w > timedelta_us (of_int STALE_HEARTBEAT_SECONDS) then False
      else if reserved_slots w + running_slots w \<ge> max_slots w then False
      else True)"

definition score :: "worker_snapshot \<Rightarrow> string \<Rightarrow> rat" where
  "score w target_model =
     (let slot_utilization = of_int (reserved_slots w + running_slots w) / of_int (max (max_slots w) 1);
          local_queue_penalty = 1 / 10 * of_int (local_queue_depth w);
          model_switch_penalty = (if current_model_loaded w = Some target_model then 0 else 1 / 2);
          recent_failure_penalty = 2 * recent_failure_rate w
      in slot_utilization + local_queue_penalty + model_switch_penalty + recent_failure_penalty)"

text \<open>\<open>min(xs, key=f)\<close>: the first element of least key.\<close>

fun min_by :: "('a \<Rightarrow> 'k :: linorder) \<Rightarrow> 'a \<Rightarrow> 'a list \<Rightarrow> 'a" where
  "min_by f best [] = best"
| "min_by f best (x # xs) = min_by f (if f x < f best then x else best) xs"

definition select_worker :: "worker_snapshot list \<Rightarrow> string \<Rightarrow> string \<Rightarrow> time \<Rightarrow> worker_snapshot option" where
  "select_worker workers required_capability target_model now =
     (case filter (\<lambda>w. is_eligible w required_capability now) workers of
        [] \<Rightarrow> None
      | w # ws \<Rightarrow> Some (min_by (\<lambda>w. score w target_model) w ws))"

subsection \<open>Library lemmas\<close>

lemma min_by_in: "min_by f b xs \<in> set (b # xs)"
  by (induction f b xs rule: min_by.induct) auto

lemma min_by_le: "x \<in> set (b # xs) \<Longrightarrow> f (min_by f b xs) \<le> f x"
proof (induction f b xs arbitrary: x rule: min_by.induct)
  case (1 f best)
  then show ?case by simp
next
  case (2 f best y ys)
  let ?b = "if f y < f best then y else best"
  have "f (min_by f ?b ys) \<le> f ?b" by (rule "2.IH") simp
  moreover have "f ?b \<le> f best" "f ?b \<le> f y" by auto
  moreover have "f (min_by f ?b ys) \<le> f x" if "x \<in> set ys" using that by (intro "2.IH") simp
  ultimately show ?case using "2.prems" by (fastforce dest: order.trans)
qed

lemma is_eligible_iff:
  "is_eligible w c now \<longleftrightarrow> status w = ''online'' \<and> c \<in> set (capabilities w) \<and>
     now - last_heartbeat_at w \<le> 30000000 \<and> reserved_slots w + running_slots w < max_slots w"
  by (auto simp: is_eligible_def timedelta_us_def STALE_HEARTBEAT_SECONDS_def round_half_even_def)

subsection \<open>Properties\<close>

text \<open>Selection is sound and complete: a selected worker is one of the list, online, capable,
  fresh and with a free slot, and no such worker scores lower; nothing is selected only if no
  worker of the list qualifies.\<close>

theorem select_worker_optimal:
  "case select_worker workers cap model now of
     None \<Rightarrow> (\<forall>w \<in> set workers. \<not> is_eligible w cap now)
   | Some w \<Rightarrow> w \<in> set workers \<and> status w = ''online'' \<and> cap \<in> set (capabilities w) \<and>
       now - last_heartbeat_at w \<le> 30000000 \<and> reserved_slots w + running_slots w < max_slots w \<and>
       (\<forall>v \<in> set workers. is_eligible v cap now \<longrightarrow> score w model \<le> score v model)"
proof (cases "filter (\<lambda>w. is_eligible w cap now) workers")
  case Nil
  then show ?thesis by (auto simp: select_worker_def filter_empty_conv)
next
  case (Cons w ws)
  let ?m = "min_by (\<lambda>w. score w model) w ws"
  have mem: "v \<in> set (w # ws) \<longleftrightarrow> v \<in> set workers \<and> is_eligible v cap now" for v
    unfolding Cons [symmetric] by auto
  have "?m \<in> set workers" "is_eligible ?m cap now"
    using min_by_in [of "\<lambda>w. score w model" w ws] mem by blast+
  moreover have "score ?m model \<le> score v model" if "v \<in> set workers" "is_eligible v cap now" for v
    using min_by_le [of v w ws "\<lambda>w. score w model"] that mem by blast
  ultimately show ?thesis using Cons by (simp add: select_worker_def is_eligible_iff)
qed

definition example_worker :: worker_snapshot where
  "example_worker = \<lparr>worker_id = ''a'', status = ''online'', capabilities = [''sdxl''], max_slots = 2,
     reserved_slots = 1, running_slots = 1, local_queue_depth = 0, last_heartbeat_at = 0,
     recent_failure_rate = 0, current_model_loaded = None\<rparr>"

theorem select_worker_optimal_witness: "select_worker [example_worker] ''sdxl'' ''m'' 5 = None"
  using select_worker_optimal [where workers = "[example_worker]" and cap = "''sdxl''"
      and model = "''m''" and now = 5]
  by (cases "select_worker [example_worker] ''sdxl'' ''m'' 5") (auto simp: example_worker_def)

end
