(* ===== verification/Storage.thy ===== *)
theory Storage
  imports Prelude
begin

section \<open>Object storage (adapters/storage/__init__.py)\<close>

text \<open>
  The in-memory adapter: objects with their bytes (a \<open>string\<close>, one char per byte) and content
  type under their key. \<open>get_object\<close> of a missing key is the \<open>KeyError\<close> of the code.
\<close>

type_synonym storage = "(string \<times> string \<times> string) list"

datatype storage_error = Storage_KeyError string

definition storage_init :: storage where
  "storage_init = []"

definition put_object :: "string \<Rightarrow> string \<Rightarrow> string \<Rightarrow> storage \<Rightarrow> storage" where
  "put_object key data content_type st = dput key (data, content_type) st"

definition get_object :: "string \<Rightarrow> storage \<Rightarrow> storage_error + string" where
  "get_object key st =
     (case dget st key of
        None \<Rightarrow> Inl (Storage_KeyError (''object not found: '' @ key))
      | Some (data, ct) \<Rightarrow> Inr data)"

definition delete_object :: "string \<Rightarrow> storage \<Rightarrow> storage" where
  "delete_object key st = dpop key st"

definition signed_get_url :: "string \<Rightarrow> int \<Rightarrow> string" where
  "signed_get_url key ttl_s = ''https://fake-storage.local/'' @ key @ ''?ttl='' @ int_str ttl_s"

definition object_exists :: "string \<Rightarrow> storage \<Rightarrow> bool" where
  "object_exists key st = dmem key st"

lemma get_put [store_simps]:
  "get_object k (put_object k' data ct st) = (if k = k' then Inr data else get_object k st)"
  by (simp add: get_object_def put_object_def)

lemma get_delete [store_simps]:
  "get_object k (delete_object k' st) =
     (if k = k' then Inl (Storage_KeyError (''object not found: '' @ k)) else get_object k st)"
  by (simp add: get_object_def delete_object_def)

lemma exists_iff_get: "object_exists k st \<longleftrightarrow> (\<exists>d. get_object k st = Inr d)"
  by (auto simp: object_exists_def dmem_iff_dget get_object_def split: option.splits)

end
