(* ===== verification/Comfy_Client.thy ===== *)
theory Comfy_Client
  imports Storage Workflows Py_Json
begin

section \<open>Rendering backends behind one port (adapters/comfyui, adapters/routing_comfyui.py)\<close>

text \<open>
  The \<open>ComfyUIClient\<close> protocol as a record of operations over a client state, the deterministic
  mock, the round-robin client over several workers and the client that routes a job to its
  workflow's backend. A raised exception is the name of its class. The two routing clients encode
  the owner of a job in the prompt id, so that another process can find it again.
\<close>

subsection \<open>The port\<close>

datatype comfy_state = CS_Running | CS_Succeeded | CS_Failed | CS_Unknown

record comfy_status =
  cs_prompt_id :: string
  cs_state :: comfy_state
  cs_outputs :: "dict list option"
  cs_error :: "string option"

record 'c comfy_client =
  cc_submit :: "dict \<Rightarrow> string option \<Rightarrow> 'c \<Rightarrow> (exc + string) \<times> 'c"
  cc_get_status :: "string \<Rightarrow> 'c \<Rightarrow> (exc + comfy_status) \<times> 'c"
  cc_cancel :: "string \<Rightarrow> 'c \<Rightarrow> (exc + unit) \<times> 'c"
  cc_health :: "'c \<Rightarrow> (exc + bool) \<times> 'c"

subsection \<open>MockComfyUIClient\<close>

text \<open>\<open>mk_fresh\<close> are the UUIDs \<open>uuid4\<close> will still produce; \<open>rp\<close> and \<open>sha\<close> are Python's \<open>str\<close> of a
  dictionary and the hexadecimal SHA-256 of its UTF-8 text.\<close>

record mock_client =
  mk_polls_to_complete :: int
  mk_fail_keyword :: string
  mk_storage :: "storage option"
  mk_poll_counts :: "(string \<times> int) list"
  mk_payloads :: "(string \<times> dict) list"
  mk_cancelled :: "string list"
  mk_stored_keys :: "string list"
  mk_fresh :: "nat \<Rightarrow> string"
  mk_used :: nat

definition PLACEHOLDER_PNG_1X1 :: string where
  "PLACEHOLDER_PNG_1X1 = map char_of
     [137, 80, 78, 71, 13, 10, 26, 10, 0, 0, 0, 13, 73, 72, 68, 82, 0, 0, 0, 1, 0, 0, 0, 1, 8, 6, 0, 0, 0,
      31, 21, 196, 137, 0, 0, 0, 11, 73, 68, 65, 84, 120, 156, 99, 96, 0, 2, 0, 0, 5, 0, 1, 122, 94, 171,
      63, 0, 0, 0, 0, 73, 69, 78, 68, 174, 66, 96, 130 :: nat]"

definition mock_submit :: "dict \<Rightarrow> string option \<Rightarrow> mock_client \<Rightarrow> (exc + string) \<times> mock_client" where
  "mock_submit workflow_payload kd c =
     (let prompt_id = mk_fresh c (mk_used c) in
      (Inr prompt_id, c\<lparr>mk_used := mk_used c + 1,
         mk_payloads := dput prompt_id workflow_payload (mk_payloads c),
         mk_poll_counts := dput prompt_id 0 (mk_poll_counts c)\<rparr>))"

definition mock_object_key :: "(json \<Rightarrow> string) \<Rightarrow> (string \<Rightarrow> string) \<Rightarrow> dict \<Rightarrow> string" where
  "mock_object_key rp sha payload = ''generated/'' @ take 16 (sha (py_str rp (JObj payload))) @ ''.png''"

definition mock_get_status ::
  "(json \<Rightarrow> string) \<Rightarrow> (string \<Rightarrow> string) \<Rightarrow> string \<Rightarrow> mock_client \<Rightarrow> (exc + comfy_status) \<times> mock_client" where
  "mock_get_status rp sha prompt_id c =
     (if prompt_id \<in> set (mk_cancelled c) then
        (Inr \<lparr>cs_prompt_id = prompt_id, cs_state = CS_Failed, cs_outputs = None, cs_error = Some ''cancelled''\<rparr>, c)
      else
        let payload = (case dget (mk_payloads c) prompt_id of Some p \<Rightarrow> p | None \<Rightarrow> []) in
        if sublist (mk_fail_keyword c) (py_str rp (JObj payload)) then
          (Inr \<lparr>cs_prompt_id = prompt_id, cs_state = CS_Failed, cs_outputs = None,
                cs_error = Some ''forced failure''\<rparr>, c)
        else
          let n = (case dget (mk_poll_counts c) prompt_id of Some n \<Rightarrow> n | None \<Rightarrow> 0) + 1;
              c = c\<lparr>mk_poll_counts := dput prompt_id n (mk_poll_counts c)\<rparr> in
          if n \<le> mk_polls_to_complete c then
            (Inr \<lparr>cs_prompt_id = prompt_id, cs_state = CS_Running, cs_outputs = None, cs_error = None\<rparr>, c)
          else
            let object_key = mock_object_key rp sha payload;
                c = (case mk_storage c of
                       Some st \<Rightarrow> if object_key \<notin> set (mk_stored_keys c)
                         then c\<lparr>mk_storage := Some (put_object object_key PLACEHOLDER_PNG_1X1 ''image/png'' st),
                                mk_stored_keys := object_key # mk_stored_keys c\<rparr> else c
                     | None \<Rightarrow> c)
            in (Inr \<lparr>cs_prompt_id = prompt_id, cs_state = CS_Succeeded,
                     cs_outputs = Some [[(''object_key'', JStr object_key), (''mime_type'', JStr ''image/png'')]],
                     cs_error = None\<rparr>, c))"

definition mock_cancel :: "string \<Rightarrow> mock_client \<Rightarrow> (exc + unit) \<times> mock_client" where
  "mock_cancel prompt_id c = (Inr (), c\<lparr>mk_cancelled := prompt_id # mk_cancelled c\<rparr>)"

definition mock_port :: "(json \<Rightarrow> string) \<Rightarrow> (string \<Rightarrow> string) \<Rightarrow> mock_client comfy_client" where
  "mock_port rp sha =
     \<lparr>cc_submit = mock_submit, cc_get_status = mock_get_status rp sha, cc_cancel = mock_cancel,
      cc_health = (\<lambda>c. (Inr True, c))\<rparr>"

subsection \<open>MultiWorkerComfyUIClient\<close>

record 'c multi_worker =
  mw_workers :: "'c list"
  mw_next_index :: nat

definition SEP :: char where
  "SEP = CHR '':''"

definition multi_init :: "'c list \<Rightarrow> exc + 'c multi_worker" where
  "multi_init workers =
     (if workers = [] then Inl ''ValueError'' else Inr \<lparr>mw_workers = workers, mw_next_index = 0\<rparr>)"

definition pick_worker :: "'c multi_worker \<Rightarrow> nat \<times> 'c multi_worker" where
  "pick_worker m = (mw_next_index m mod length (mw_workers m), m\<lparr>mw_next_index := mw_next_index m + 1\<rparr>)"

text \<open>The worker a prompt id names, by its position, and the id the worker itself gave. A negative
  index counts from the end, as it does in Python.\<close>

definition multi_resolve :: "string \<Rightarrow> 'c multi_worker \<Rightarrow> (nat \<times> string) option" where
  "multi_resolve prompt_id m =
     (case py_partition SEP prompt_id of (index_str, sep, real_id) \<Rightarrow>
        if \<not> sep then None
        else (case parse_int index_str of
                None \<Rightarrow> None
              | Some i \<Rightarrow> let n = int (length (mw_workers m)) in
                  if 0 \<le> i \<and> i < n then Some (nat i, real_id)
                  else if - n \<le> i \<and> i < 0 then Some (nat (n + i), real_id)
                  else None))"

definition multi_submit ::
  "'c comfy_client \<Rightarrow> dict \<Rightarrow> string option \<Rightarrow> 'c multi_worker \<Rightarrow> (exc + string) \<times> 'c multi_worker" where
  "multi_submit C workflow_payload kd m =
     (case pick_worker m of (index, m) \<Rightarrow>
        (case cc_submit C workflow_payload kd (mw_workers m ! index) of (res, w) \<Rightarrow>
           (case res of Inl e \<Rightarrow> Inl e | Inr pid \<Rightarrow> Inr (nat_str index @ SEP # pid),
            m\<lparr>mw_workers := (mw_workers m)[index := w]\<rparr>)))"

definition multi_get_status ::
  "'c comfy_client \<Rightarrow> string \<Rightarrow> 'c multi_worker \<Rightarrow> (exc + comfy_status) \<times> 'c multi_worker" where
  "multi_get_status C prompt_id m =
     (case multi_resolve prompt_id m of
        None \<Rightarrow> (Inr \<lparr>cs_prompt_id = prompt_id, cs_state = CS_Failed, cs_outputs = None,
                       cs_error = Some ''unknown_prompt_id''\<rparr>, m)
      | Some (index, real_id) \<Rightarrow>
          (case cc_get_status C real_id (mw_workers m ! index) of (res, w) \<Rightarrow>
             (map_sum id (\<lambda>s. s\<lparr>cs_prompt_id := prompt_id\<rparr>) res,
              m\<lparr>mw_workers := (mw_workers m)[index := w]\<rparr>)))"

definition multi_cancel :: "'c comfy_client \<Rightarrow> string \<Rightarrow> 'c multi_worker \<Rightarrow> (exc + unit) \<times> 'c multi_worker" where
  "multi_cancel C prompt_id m =
     (case multi_resolve prompt_id m of
        None \<Rightarrow> (Inr (), m)
      | Some (index, real_id) \<Rightarrow>
          (case cc_cancel C real_id (mw_workers m ! index) of (res, w) \<Rightarrow>
             (res, m\<lparr>mw_workers := (mw_workers m)[index := w]\<rparr>)))"

text \<open>The workers are asked in turn until one is healthy; an exception counts as not healthy.\<close>

fun health_loop :: "'c comfy_client \<Rightarrow> 'c list \<Rightarrow> bool \<times> 'c list" where
  "health_loop C [] = (False, [])"
| "health_loop C (w # ws) =
     (case cc_health C w of (res, w') \<Rightarrow>
        if res = Inr True then (True, w' # ws)
        else (case health_loop C ws of (b, ws') \<Rightarrow> (b, w' # ws')))"

definition multi_health :: "'c comfy_client \<Rightarrow> 'c multi_worker \<Rightarrow> (exc + bool) \<times> 'c multi_worker" where
  "multi_health C m =
     (case health_loop C (mw_workers m) of (b, ws) \<Rightarrow> (Inr b, m\<lparr>mw_workers := ws\<rparr>))"

definition multi_port :: "'c comfy_client \<Rightarrow> 'c multi_worker comfy_client" where
  "multi_port C = \<lparr>cc_submit = multi_submit C, cc_get_status = multi_get_status C,
     cc_cancel = multi_cancel C, cc_health = multi_health C\<rparr>"

subsection \<open>CompositeComfyUIClient\<close>

text \<open>The two underlying adapters, the second only if configured; the optional prompt designer is
  the model call, which answers a text, nothing, or raises (the last two are \<open>None\<close>).\<close>

record ('a, 'b) composite =
  co_comfyui :: 'a
  co_gemini :: "'b option"
  co_designer :: "(string \<Rightarrow> string list \<Rightarrow> string option) option"
  co_provider :: string
  co_fresh :: "nat \<Rightarrow> string"
  co_used :: nat

datatype backend_tag = To_Comfyui | To_Gemini

definition backend_name :: "backend_tag \<Rightarrow> string" where
  "backend_name t = (case t of To_Comfyui \<Rightarrow> ''comfyui'' | To_Gemini \<Rightarrow> ''gemini'')"

definition resolve_backend :: "string option \<Rightarrow> backend_tag" where
  "resolve_backend kd =
     (case kd of
        None \<Rightarrow> To_Comfyui
      | Some k \<Rightarrow> (case resolve_workflow k ''v1'' of
            Inl e \<Rightarrow> To_Comfyui
          | Inr w \<Rightarrow> if wf_backend w = ''gemini'' then To_Gemini else To_Comfyui))"

text \<open>\<open>[t.strip() for t in (payload.get("exact_text") or []) if isinstance(t, str) and t.strip()]\<close>.\<close>

fun stripped_texts :: "json list \<Rightarrow> string list" where
  "stripped_texts [] = []"
| "stripped_texts (JStr s # xs) = (if py_strip s \<noteq> [] then py_strip s # stripped_texts xs else stripped_texts xs)"
| "stripped_texts (_ # xs) = stripped_texts xs"

definition design_payload ::
  "(json \<Rightarrow> string) \<Rightarrow> (string \<Rightarrow> string list \<Rightarrow> string option) \<Rightarrow> dict \<Rightarrow> exc + dict" where
  "design_payload rp designer payload =
     (let p = get_json payload ''prompt'';
          base_prompt = py_strip (py_str rp (if truthy p then p else JStr []))
      in case iterate_json (get_json payload ''exact_text'') of
           Inl e \<Rightarrow> Inl e
         | Inr items \<Rightarrow> let exact_text = stripped_texts items in
             if base_prompt = [] \<and> exact_text = [] then Inr payload
             else (case designer base_prompt exact_text of
                     Some designed \<Rightarrow> if py_strip designed \<noteq> []
                       then Inr (dput ''prompt'' (JStr (py_strip designed)) payload) else Inr payload
                   | None \<Rightarrow> Inr payload))"

definition composite_payload :: "(json \<Rightarrow> string) \<Rightarrow> backend_tag \<Rightarrow> dict \<Rightarrow> ('a, 'b) composite \<Rightarrow> exc + dict" where
  "composite_payload rp tag payload c =
     (case co_designer c of
        Some designer \<Rightarrow> if tag = To_Comfyui \<and> \<not> truthy (get_json payload ''skip_prompt_design'')
          then design_payload rp designer payload else Inr payload
      | None \<Rightarrow> Inr payload)"

definition tag_id :: "string \<Rightarrow> exc + string \<Rightarrow> exc + string" where
  "tag_id tag res = (case res of Inl e \<Rightarrow> Inl e | Inr pid \<Rightarrow> Inr (tag @ SEP # pid))"

definition composite_submit ::
  "(json \<Rightarrow> string) \<Rightarrow> 'a comfy_client \<Rightarrow> 'b comfy_client \<Rightarrow> dict \<Rightarrow> string option \<Rightarrow> ('a, 'b) composite
     \<Rightarrow> (exc + string) \<times> ('a, 'b) composite" where
  "composite_submit rp A B payload kd c =
     (let tag = resolve_backend kd in
      if tag = To_Gemini \<and> co_gemini c = None then
        (Inr (''notconfigured'' @ SEP # co_provider c @ SEP # co_fresh c (co_used c)),
         c\<lparr>co_used := co_used c + 1\<rparr>)
      else case composite_payload rp tag payload c of
        Inl e \<Rightarrow> (Inl e, c)
      | Inr payload \<Rightarrow>
          (case (tag, co_gemini c) of
             (To_Gemini, Some g) \<Rightarrow> (case cc_submit B payload kd g of (res, g') \<Rightarrow>
                (tag_id ''gemini'' res, c\<lparr>co_gemini := Some g'\<rparr>))
           | _ \<Rightarrow> (case cc_submit A payload kd (co_comfyui c) of (res, a') \<Rightarrow>
                (tag_id ''comfyui'' res, c\<lparr>co_comfyui := a'\<rparr>))))"

datatype decoded =
    Not_Configured string
  | Owned_By backend_tag string
  | Undecodable

definition composite_decode :: "string \<Rightarrow> decoded" where
  "composite_decode prompt_id =
     (case py_partition SEP prompt_id of (tag, sep, rest) \<Rightarrow>
        if tag = ''notconfigured'' then Not_Configured (if sep then rest else [])
        else if \<not> sep then Undecodable
        else if tag = ''comfyui'' then Owned_By To_Comfyui rest
        else if tag = ''gemini'' then Owned_By To_Gemini rest
        else Undecodable)"

definition failed_status :: "string \<Rightarrow> string \<Rightarrow> comfy_status" where
  "failed_status prompt_id err =
     \<lparr>cs_prompt_id = prompt_id, cs_state = CS_Failed, cs_outputs = None, cs_error = Some err\<rparr>"

definition composite_get_status ::
  "'a comfy_client \<Rightarrow> 'b comfy_client \<Rightarrow> string \<Rightarrow> ('a, 'b) composite
     \<Rightarrow> (exc + comfy_status) \<times> ('a, 'b) composite" where
  "composite_get_status A B prompt_id c =
     (let rewrap = map_sum id (\<lambda>s. s\<lparr>cs_prompt_id := prompt_id\<rparr>) in
      case composite_decode prompt_id of
        Not_Configured rest \<Rightarrow>
          let p = takeWhile (\<lambda>x. x \<noteq> SEP) rest; provider_name = (if p \<noteq> [] then p else co_provider c)
          in (Inr (failed_status prompt_id (provider_name @ ''_not_configured'')), c)
      | Owned_By To_Comfyui rest \<Rightarrow>
          (case cc_get_status A rest (co_comfyui c) of (res, a') \<Rightarrow> (rewrap res, c\<lparr>co_comfyui := a'\<rparr>))
      | Owned_By To_Gemini rest \<Rightarrow>
          (case co_gemini c of
             None \<Rightarrow> (Inr (failed_status prompt_id ''unknown_prompt_id''), c)
           | Some g \<Rightarrow> (case cc_get_status B rest g of (res, g') \<Rightarrow> (rewrap res, c\<lparr>co_gemini := Some g'\<rparr>)))
      | Undecodable \<Rightarrow> (Inr (failed_status prompt_id ''unknown_prompt_id''), c))"

definition composite_cancel ::
  "'a comfy_client \<Rightarrow> 'b comfy_client \<Rightarrow> string \<Rightarrow> ('a, 'b) composite \<Rightarrow> (exc + unit) \<times> ('a, 'b) composite" where
  "composite_cancel A B prompt_id c =
     (case composite_decode prompt_id of
        Owned_By To_Comfyui rest \<Rightarrow>
          (case cc_cancel A rest (co_comfyui c) of (res, a') \<Rightarrow> (res, c\<lparr>co_comfyui := a'\<rparr>))
      | Owned_By To_Gemini rest \<Rightarrow>
          (case co_gemini c of
             None \<Rightarrow> (Inr (), c)
           | Some g \<Rightarrow> (case cc_cancel B rest g of (res, g') \<Rightarrow> (res, c\<lparr>co_gemini := Some g'\<rparr>)))
      | _ \<Rightarrow> (Inr (), c))"

definition composite_health ::
  "'a comfy_client \<Rightarrow> 'b comfy_client \<Rightarrow> ('a, 'b) composite \<Rightarrow> (exc + bool) \<times> ('a, 'b) composite" where
  "composite_health A B c =
     (case cc_health A (co_comfyui c) of (res, a') \<Rightarrow>
        let c = c\<lparr>co_comfyui := a'\<rparr> in
        case (res, co_gemini c) of
          (Inr True, Some g) \<Rightarrow> (case cc_health B g of (res', g') \<Rightarrow> (res', c\<lparr>co_gemini := Some g'\<rparr>))
        | _ \<Rightarrow> (res, c))"

definition composite_port ::
  "(json \<Rightarrow> string) \<Rightarrow> 'a comfy_client \<Rightarrow> 'b comfy_client \<Rightarrow> ('a, 'b) composite comfy_client" where
  "composite_port rp A B = \<lparr>cc_submit = composite_submit rp A B, cc_get_status = composite_get_status A B,
     cc_cancel = composite_cancel A B, cc_health = composite_health A B\<rparr>"

subsection \<open>The owner codec of the prompt ids\<close>

text \<open>
  What both routing clients rely on: the owner that is written in front of an id can be read
  back, so that distinct owners never produce the same id.
\<close>

locale owner_codec =
  fixes encode :: "'k \<Rightarrow> string \<Rightarrow> string"
    and decode :: "string \<Rightarrow> ('k \<times> string) option"
    and owner :: "'k \<Rightarrow> bool"
  assumes decode_encode: "owner k \<Longrightarrow> decode (encode k rid) = Some (k, rid)"
begin

lemma encode_inject: "owner k \<Longrightarrow> owner k' \<Longrightarrow> encode k rid = encode k' rid' \<longleftrightarrow> k = k' \<and> rid = rid'"
  using decode_encode by (metis option.inject prod.inject)

lemma nested_decode:
  "owner k \<Longrightarrow> owner k' \<Longrightarrow>
    Option.bind (decode (encode k (encode k' rid))) (\<lambda>(_, r). decode r) = Some (k', rid)"
  by (simp add: decode_encode)

end

lemma SEP_not_digit [simp]: "SEP \<notin> set (nat_str n)"
  by (simp add: SEP_def)

definition worker_encode :: "nat \<Rightarrow> string \<Rightarrow> string" where
  "worker_encode i rid = nat_str i @ SEP # rid"

lemma multi_resolve_encode:
  "i < length (mw_workers m) \<Longrightarrow> multi_resolve (worker_encode i rid) m = Some (i, rid)"
  by (simp add: multi_resolve_def worker_encode_def)

interpretation workers: owner_codec worker_encode "\<lambda>pid. multi_resolve pid m" "\<lambda>i. i < length (mw_workers m)"
  for m :: "'c multi_worker"
  by unfold_locales (rule multi_resolve_encode)

definition tag_encode :: "backend_tag \<Rightarrow> string \<Rightarrow> string" where
  "tag_encode t rid = backend_name t @ SEP # rid"

definition tag_decode :: "string \<Rightarrow> (backend_tag \<times> string) option" where
  "tag_decode pid = (case composite_decode pid of Owned_By t rest \<Rightarrow> Some (t, rest) | _ \<Rightarrow> None)"

lemma composite_decode_tag [simp]: "composite_decode (tag_encode t rid) = Owned_By t rid"
proof -
  have "SEP \<notin> set (backend_name t)" by (cases t) (simp_all add: backend_name_def SEP_def)
  then have "py_partition SEP (tag_encode t rid) = (backend_name t, True, rid)"
    by (simp add: tag_encode_def)
  then show ?thesis by (cases t) (simp_all add: composite_decode_def backend_name_def)
qed

interpretation tags: owner_codec tag_encode tag_decode "\<lambda>_. True"
  by unfold_locales (simp add: tag_decode_def)

lemma composite_decode_not_configured:
  "composite_decode (''notconfigured'' @ SEP # rest) = Not_Configured rest"
proof -
  have "SEP \<notin> set ''notconfigured''" by (simp add: SEP_def)
  then show ?thesis by (simp add: composite_decode_def del: append.simps)
qed

lemma tag_id_encode: "tag_id (backend_name t) res = map_sum id (tag_encode t) res"
  by (cases res) (simp_all add: tag_id_def tag_encode_def)

subsection \<open>Properties\<close>

text \<open>A prompt id finds its job again: the id the composite client hands out decodes, in any
  process, to the backend that the workflow of the job names and to the very id which that
  backend's own \<open>submit\<close> returned, or records that the backend is not configured.\<close>

theorem composite_id_names_owner:
  assumes "composite_submit rp A B payload kd c = (Inr pid, c')"
  shows "case composite_decode pid of
      Owned_By t rest \<Rightarrow> t = resolve_backend kd \<and>
        (\<exists>pl. composite_payload rp t payload c = Inr pl \<and>
           (case t of To_Comfyui \<Rightarrow> fst (cc_submit A pl kd (co_comfyui c)) = Inr rest
            | To_Gemini \<Rightarrow> \<exists>g. co_gemini c = Some g \<and> fst (cc_submit B pl kd g) = Inr rest))
    | Not_Configured _ \<Rightarrow> resolve_backend kd = To_Gemini \<and> co_gemini c = None
    | Undecodable \<Rightarrow> False"
proof (cases "resolve_backend kd = To_Gemini \<and> co_gemini c = None")
  case True
  with assms have "pid = ''notconfigured'' @ SEP # co_provider c @ SEP # co_fresh c (co_used c)"
    by (simp add: composite_submit_def Let_def)
  with True show ?thesis by (simp add: composite_decode_not_configured del: append.simps)
next
  case False
  let ?t = "resolve_backend kd"
  from False assms obtain pl where pl: "composite_payload rp ?t payload c = Inr pl"
    by (auto simp: composite_submit_def Let_def split: sum.splits if_splits)
  show ?thesis
  proof (cases ?t)
    case To_Comfyui
    with assms pl have "tag_id (backend_name To_Comfyui) (fst (cc_submit A pl kd (co_comfyui c))) = Inr pid"
      by (auto simp: composite_submit_def Let_def backend_name_def split: prod.splits)
    then obtain rest where "fst (cc_submit A pl kd (co_comfyui c)) = Inr rest" "pid = tag_encode To_Comfyui rest"
      unfolding tag_id_encode by (cases "fst (cc_submit A pl kd (co_comfyui c))") auto
    with To_Comfyui pl show ?thesis by simp
  next
    case To_Gemini
    with False obtain g where g: "co_gemini c = Some g" by auto
    with assms pl To_Gemini have "tag_id (backend_name To_Gemini) (fst (cc_submit B pl kd g)) = Inr pid"
      by (auto simp: composite_submit_def Let_def backend_name_def split: prod.splits)
    then obtain rest where "fst (cc_submit B pl kd g) = Inr rest" "pid = tag_encode To_Gemini rest"
      unfolding tag_id_encode by (cases "fst (cc_submit B pl kd g)") auto
    with To_Gemini pl g show ?thesis by simp
  qed
qed

definition example_mock :: mock_client where
  "example_mock = \<lparr>mk_polls_to_complete = 0, mk_fail_keyword = ''__force_fail__'', mk_storage = None,
     mk_poll_counts = [], mk_payloads = [], mk_cancelled = [], mk_stored_keys = [],
     mk_fresh = nat_str, mk_used = 3\<rparr>"

definition example_composite :: "(mock_client, mock_client) composite" where
  "example_composite = \<lparr>co_comfyui = example_mock, co_gemini = None, co_designer = None,
     co_provider = ''gemini'', co_fresh = nat_str, co_used = 0\<rparr>"

theorem composite_id_names_owner_witness:
  "\<exists>c' pid. composite_submit (\<lambda>_. []) (mock_port (\<lambda>_. []) id) (mock_port (\<lambda>_. []) id) [] (Some ''image_basic'')
      example_composite = (Inr pid, c') \<and> (\<exists>rest. composite_decode pid = Owned_By To_Comfyui rest)"
proof -
  have rb: "resolve_backend (Some ''image_basic'') = To_Comfyui"
    by (simp add: resolve_backend_def resolve_workflow_known)
  then obtain c' pid where s: "composite_submit (\<lambda>_. []) (mock_port (\<lambda>_. []) id) (mock_port (\<lambda>_. []) id) []
      (Some ''image_basic'') example_composite = (Inr pid, c')"
    by (simp add: composite_submit_def example_composite_def composite_payload_def mock_port_def
        mock_submit_def Let_def tag_id_def)
  from composite_id_names_owner [OF s] rb s show ?thesis by (cases "composite_decode pid") auto
qed

text \<open>A poster never degrades to the other backend: without an image provider the submission
  leaves both adapters untouched, and every process that later asks for the job's status gets a
  failure that names the missing provider.\<close>

theorem unconfigured_poster_fails_clearly:
  assumes "co_gemini c = None" and "co_provider c \<noteq> []" and "SEP \<notin> set (co_provider c)"
  shows "\<exists>pid. composite_submit rp A B payload (Some ''poster_infographic'') c =
      (Inr pid, c\<lparr>co_used := co_used c + 1\<rparr>) \<and>
    composite_get_status A B pid c2 = (Inr (failed_status pid (co_provider c @ ''_not_configured'')), c2)"
proof -
  let ?rest = "co_provider c @ SEP # co_fresh c (co_used c)"
  let ?pid = "''notconfigured'' @ SEP # ?rest"
  have "resolve_backend (Some ''poster_infographic'') = To_Gemini"
    by (simp add: resolve_backend_def resolve_workflow_known)
  with assms(1) have "composite_submit rp A B payload (Some ''poster_infographic'') c =
      (Inr ?pid, c\<lparr>co_used := co_used c + 1\<rparr>)" by (simp add: composite_submit_def Let_def)
  moreover have "takeWhile (\<lambda>x. x \<noteq> SEP) ?rest = co_provider c"
    using assms(3) by (auto simp: takeWhile_append)
  then have "composite_get_status A B ?pid c2 =
      (Inr (failed_status ?pid (co_provider c @ ''_not_configured'')), c2)"
    unfolding composite_get_status_def composite_decode_not_configured using assms(2) by (simp add: Let_def)
  ultimately show ?thesis by blast
qed

theorem unconfigured_poster_fails_clearly_witness:
  "\<exists>pid. composite_get_status (mock_port (\<lambda>_. []) id) (mock_port (\<lambda>_. []) id) pid example_composite =
     (Inr (failed_status pid ''gemini_not_configured''), example_composite)"
  using unconfigured_poster_fails_clearly [of example_composite "\<lambda>_. []" "mock_port (\<lambda>_. []) id"
      "mock_port (\<lambda>_. []) id" "[]" example_composite]
  by (auto simp: example_composite_def SEP_def)

text \<open>Round robin over several workers: a submission goes to the worker whose turn it is, only
  that worker's state changes, the next submission goes to the following one, and the returned
  id leads every client with the same number of workers back to that worker and its own id.\<close>

theorem multi_worker_round_robin:
  assumes "mw_workers m \<noteq> []" and "multi_submit C payload kd m = (Inr pid, m')"
    and "length (mw_workers m2) = length (mw_workers m)"
  shows "\<exists>i rid w. i = mw_next_index m mod length (mw_workers m) \<and>
    cc_submit C payload kd (mw_workers m ! i) = (Inr rid, w) \<and>
    mw_workers m' = (mw_workers m)[i := w] \<and> mw_next_index m' = mw_next_index m + 1 \<and>
    multi_resolve pid m2 = Some (i, rid)"
proof -
  let ?i = "mw_next_index m mod length (mw_workers m)"
  obtain res w where sub: "cc_submit C payload kd (mw_workers m ! ?i) = (res, w)" by force
  with assms(2) obtain rid where r: "res = Inr rid" "pid = worker_encode ?i rid"
    "m' = m\<lparr>mw_next_index := mw_next_index m + 1, mw_workers := (mw_workers m)[?i := w]\<rparr>"
    by (auto simp: multi_submit_def pick_worker_def worker_encode_def split: sum.splits)
  have "?i < length (mw_workers m2)" using assms(1,3) by simp
  then have "multi_resolve pid m2 = Some (?i, rid)" unfolding r(2) by (rule multi_resolve_encode)
  with sub r show ?thesis by auto
qed

theorem multi_worker_round_robin_witness:
  "\<exists>pid m' rid. multi_submit (mock_port (\<lambda>_. []) id) [] None
      \<lparr>mw_workers = [example_mock, example_mock], mw_next_index = 5\<rparr> = (Inr pid, m') \<and>
    multi_resolve pid m' = Some (1, rid)"
proof -
  let ?m = "\<lparr>mw_workers = [example_mock, example_mock], mw_next_index = 5\<rparr>"
  obtain pid m' where s: "multi_submit (mock_port (\<lambda>_. []) id) [] None ?m = (Inr pid, m')"
    by (simp add: multi_submit_def pick_worker_def mock_port_def mock_submit_def Let_def)
  have "length (mw_workers m') = length (mw_workers ?m)"
    using multi_worker_round_robin [OF _ s, of ?m]
    by (metis length_list_update list.discI multi_worker.select_convs(1))
  moreover have "(5::nat) mod Suc (Suc 0) = Suc 0" by (simp flip: numeral_2_eq_2)
  ultimately show ?thesis using multi_worker_round_robin [OF _ s, of m'] s by auto
qed

end
