(* ===== verification/Live_Comfy.thy ===== *)
theory Live_Comfy
  imports Comfy_Client Profiles
begin

section \<open>The live ComfyUI adapter (adapters/comfyui/live.py)\<close>

text \<open>
  The client that turns an admitted payload into a node graph from server-side templates, submits
  it over HTTP, and reads the outcome back. The ComfyUI server and the object storage are the
  record \<open>comfy_services\<close> of operations over their state: each request answers a value or raises
  (transport, status check and JSON decoding together), with the raised class as its name.
\<close>

subsection \<open>State\<close>

record 'w comfy_services =
  sv_prompt :: "json \<Rightarrow> 'w \<Rightarrow> (exc + json) \<times> 'w"
  sv_history :: "string \<Rightarrow> 'w \<Rightarrow> (exc + json) \<times> 'w"
  sv_queue :: "'w \<Rightarrow> (exc + json) \<times> 'w"
  sv_view :: "dict \<Rightarrow> 'w \<Rightarrow> (exc + string) \<times> 'w"
  sv_delete :: "string \<Rightarrow> 'w \<Rightarrow> (exc + unit) \<times> 'w"
  sv_interrupt :: "'w \<Rightarrow> (exc + unit) \<times> 'w"
  sv_stats :: "'w \<Rightarrow> (exc + int) \<times> 'w"
  sv_put :: "string \<Rightarrow> string \<Rightarrow> string \<Rightarrow> 'w \<Rightarrow> (exc + unit) \<times> 'w"

text \<open>\<open>lv_hex\<close> and \<open>lv_int\<close> are the UUIDs \<open>uuid4\<close> will still draw, as \<open>hex\<close> and as \<open>int\<close>.\<close>

record live_client =
  lv_default_profile :: comfy_profile
  lv_profiles :: "(string \<times> comfy_profile) list"
  lv_allowlists :: "override_allowlists option"
  lv_client_id :: string
  lv_resolved :: "(string \<times> comfy_status) list"
  lv_hex :: "nat \<Rightarrow> string"
  lv_int :: "nat \<Rightarrow> nat"
  lv_used :: nat

definition LOCAL_FAIL_PREFIX :: string where
  "LOCAL_FAIL_PREFIX = ''localfail:''"

subsection \<open>Dimensions\<close>

definition BASE_DIMENSIONS_1K :: "(string \<times> int \<times> int) list" where
  "BASE_DIMENSIONS_1K =
     [(''1:1'', 1024, 1024), (''9:16'', 768, 1344), (''2:3'', 832, 1216), (''3:4'', 896, 1152),
      (''4:5'', 896, 1088), (''5:4'', 1088, 896), (''4:3'', 1152, 896), (''3:2'', 1216, 832),
      (''16:9'', 1344, 768), (''21:9'', 1536, 640)]"

definition QWEN_IMAGE_BASE_DIMENSIONS_1K :: "(string \<times> int \<times> int) list" where
  "QWEN_IMAGE_BASE_DIMENSIONS_1K =
     [(''1:1'', 1328, 1328), (''16:9'', 1664, 928), (''9:16'', 928, 1664), (''4:3'', 1472, 1140),
      (''3:4'', 1140, 1472), (''3:2'', 1584, 1056), (''2:3'', 1056, 1584), (''5:4'', 1472, 1140),
      (''4:5'', 1140, 1472), (''21:9'', 1664, 704)]"

definition RESOLUTION_SCALE :: "(string \<times> int) list" where
  "RESOLUTION_SCALE = [(''1K'', 1), (''2K'', 2), (''4K'', 4)]"

definition MAX_DIM :: int where
  "MAX_DIM = 4096"

text \<open>\<open>table.get(key, default)\<close> for a key that arrived as JSON.\<close>

definition json_lookup :: "(string \<times> 'a) list \<Rightarrow> 'a \<Rightarrow> json \<Rightarrow> exc + 'a" where
  "json_lookup table dflt key =
     (if \<not> hashable key then Inl ''TypeError''
      else case key of
        JStr s \<Rightarrow> Inr (case dget table s of Some v \<Rightarrow> v | None \<Rightarrow> dflt)
      | _ \<Rightarrow> Inr dflt)"

definition resolve_dimensions :: "json \<Rightarrow> json \<Rightarrow> string \<Rightarrow> exc + (int \<times> int)" where
  "resolve_dimensions aspect_ratio resolution family =
     (let table = (if family = ''qwen_image'' then QWEN_IMAGE_BASE_DIMENSIONS_1K else BASE_DIMENSIONS_1K);
          square = (case dget table ''1:1'' of Some b \<Rightarrow> b | None \<Rightarrow> (0, 0))
      in bind_exc (json_lookup table square (or_default aspect_ratio (JStr ''1:1''))) (\<lambda>(bw, bh).
         bind_exc (json_lookup RESOLUTION_SCALE 1 (or_default resolution (JStr ''1K''))) (\<lambda>scale.
           let width = min (bw * scale) MAX_DIM; height = min (bh * scale) MAX_DIM
           in Inr (width div 8 * 8, height div 8 * 8))))"

subsection \<open>The graph\<close>

definition resolve_active_profile :: "(json \<Rightarrow> string) \<Rightarrow> live_client \<Rightarrow> dict \<Rightarrow> exc + comfy_profile" where
  "resolve_active_profile rp c payload =
     (let key = get_json payload ''model_profile'' in
      bind_exc (if truthy key then json_lookup (map (\<lambda>(k, p). (k, Some p)) (lv_profiles c)) None key
                else Inr None) (\<lambda>found.
        let profile = (case found of Some p \<Rightarrow> p | None \<Rightarrow> lv_default_profile c);
            overrides = get_json payload ''model_overrides''
        in case (truthy overrides, lv_allowlists c) of
             (True, Some al) \<Rightarrow>
               (case validate_overrides rp overrides al of
                  Inl Override_Overflow \<Rightarrow> Inl ''OverflowError''
                | Inl (InvalidComfyOverrideError msg) \<Rightarrow> Inr profile
                | Inr validated \<Rightarrow> (case apply_overrides profile validated of
                      Some p \<Rightarrow> Inr p | None \<Rightarrow> Inl ''TypeError''))
           | _ \<Rightarrow> Inr profile))"

definition node :: "string \<Rightarrow> dict \<Rightarrow> json" where
  "node class_type inputs = JObj [(''class_type'', JStr class_type), (''inputs'', JObj inputs)]"

definition link_to :: "string \<Rightarrow> int \<Rightarrow> json" where
  "link_to n slot = JList [JStr n, JInt slot]"

definition sampler_inputs :: "comfy_profile \<Rightarrow> int \<Rightarrow> string \<Rightarrow> string \<Rightarrow> dict" where
  "sampler_inputs profile seed model latent =
     [(''seed'', JInt seed), (''steps'', JInt (steps profile)), (''cfg'', JFloat (cfg_scale profile)),
      (''sampler_name'', JStr (sampler_name profile)), (''scheduler'', JStr (sched_name profile)),
      (''denoise'', JFloat (Fin 1)), (''model'', link_to model 0), (''positive'', link_to ''6'' 0),
      (''negative'', link_to ''7'' 0), (''latent_image'', link_to latent 0)]"

definition build_checkpoint_graph ::
  "comfy_profile \<Rightarrow> string \<Rightarrow> int \<Rightarrow> int \<Rightarrow> int \<Rightarrow> string \<Rightarrow> dict" where
  "build_checkpoint_graph profile prompt_text width height seed filename_prefix =
     [(''3'', node ''KSampler'' (sampler_inputs profile seed ''4'' ''5'')),
      (''4'', node ''CheckpointLoaderSimple'' [(''ckpt_name'', JStr (checkpoint_name profile))]),
      (''5'', node ''EmptyLatentImage''
         [(''width'', JInt width), (''height'', JInt height), (''batch_size'', JInt 1)]),
      (''6'', node ''CLIPTextEncode'' [(''text'', JStr prompt_text), (''clip'', link_to ''4'' 1)]),
      (''7'', node ''CLIPTextEncode'' [(''text'', JStr (negative_prompt profile)), (''clip'', link_to ''4'' 1)]),
      (''8'', node ''VAEDecode'' [(''samples'', link_to ''3'' 0), (''vae'', link_to ''4'' 2)]),
      (''9'', node ''SaveImage'' [(''filename_prefix'', JStr filename_prefix), (''images'', link_to ''8'' 0)])]"

definition build_split_auraflow_graph ::
  "comfy_profile \<Rightarrow> string \<Rightarrow> int \<Rightarrow> int \<Rightarrow> int \<Rightarrow> string \<Rightarrow> string \<Rightarrow> dict" where
  "build_split_auraflow_graph profile prompt_text width height seed filename_prefix clip_type =
     [(''3'', node ''KSampler'' (sampler_inputs profile seed ''66'' ''58'')),
      (''6'', node ''CLIPTextEncode'' [(''text'', JStr prompt_text), (''clip'', link_to ''38'' 0)]),
      (''7'', node ''CLIPTextEncode'' [(''text'', JStr (negative_prompt profile)), (''clip'', link_to ''38'' 0)]),
      (''8'', node ''VAEDecode'' [(''samples'', link_to ''3'' 0), (''vae'', link_to ''39'' 0)]),
      (''9'', node ''SaveImage'' [(''filename_prefix'', JStr filename_prefix), (''images'', link_to ''8'' 0)]),
      (''37'', node ''UNETLoader''
         [(''unet_name'', JStr (diffusion_model_name profile)), (''weight_dtype'', JStr ''default'')]),
      (''38'', node ''CLIPLoader''
         [(''clip_name'', JStr (clip_name profile)), (''type'', JStr clip_type), (''device'', JStr ''default'')]),
      (''39'', node ''VAELoader'' [(''vae_name'', JStr (vae_name profile))]),
      (''58'', node ''EmptySD3LatentImage''
         [(''width'', JInt width), (''height'', JInt height), (''batch_size'', JInt 1)]),
      (''66'', node ''ModelSamplingAuraFlow''
         [(''model'', link_to ''37'' 0), (''shift'', JFloat (Fin (model_sampling_shift profile)))])]"

definition payload_prompt :: "(json \<Rightarrow> string) \<Rightarrow> dict \<Rightarrow> string" where
  "payload_prompt rp payload = py_strip (py_str rp (or_default (get_json payload ''prompt'') (JStr [])))"

text \<open>\<open>int(x)\<close> with the class of its exception.\<close>

definition int_exc :: "json \<Rightarrow> exc + int" where
  "int_exc x =
     (case py_int x of
        Conv i \<Rightarrow> Inr i
      | Overflows \<Rightarrow> Inl ''OverflowError''
      | BadValue \<Rightarrow> Inl (case x of JStr s \<Rightarrow> ''ValueError'' | JFloat f \<Rightarrow> ''ValueError'' | _ \<Rightarrow> ''TypeError''))"

definition build_prompt_graph ::
  "(json \<Rightarrow> string) \<Rightarrow> live_client \<Rightarrow> dict \<Rightarrow> string \<Rightarrow> int \<Rightarrow> exc + dict" where
  "build_prompt_graph rp c payload filename_prefix rnd =
     bind_exc (resolve_active_profile rp c payload) (\<lambda>profile.
     bind_exc (resolve_dimensions (get_json payload ''aspect_ratio'') (get_json payload ''resolution'')
                 (model_family profile)) (\<lambda>(width, height).
     bind_exc (int_exc (or_default (get_json payload ''seed'') (JInt (rnd mod 2 ^ 32)))) (\<lambda>seed.
       let prompt_text = payload_prompt rp payload in
       Inr (if model_family profile = ''qwen_image''
            then build_split_auraflow_graph profile prompt_text width height seed filename_prefix ''qwen_image''
            else if model_family profile = ''z_image_turbo''
            then build_split_auraflow_graph profile prompt_text width height seed filename_prefix ''lumina2''
            else build_checkpoint_graph profile prompt_text width height seed filename_prefix))))"

subsection \<open>submit\<close>

definition local_fail_id :: "string \<Rightarrow> string \<Rightarrow> string" where
  "local_fail_id hex reason = LOCAL_FAIL_PREFIX @ hex @ CHR '':'' # reason"

definition fail_locally :: "string \<Rightarrow> live_client \<Rightarrow> string \<times> live_client" where
  "fail_locally reason c =
     (let prompt_id = local_fail_id (lv_hex c (lv_used c)) reason in
      (prompt_id, c\<lparr>lv_used := lv_used c + 1,
         lv_resolved := dput prompt_id (failed_status prompt_id reason) (lv_resolved c)\<rparr>))"

definition sanitized_error :: "exc \<Rightarrow> string" where
  "sanitized_error e = ''comfy_live_error:'' @ e"

definition live_submit ::
  "(json \<Rightarrow> string) \<Rightarrow> 'w comfy_services \<Rightarrow> dict \<Rightarrow> string option \<Rightarrow> live_client \<times> 'w
     \<Rightarrow> (exc + string) \<times> (live_client \<times> 'w)" where
  "live_submit rp S payload kd cw =
     (case cw of (c, w) \<Rightarrow>
        let filename_prefix = ''imaginv-'' @ take 12 (lv_hex c (lv_used c));
            rnd = int (lv_int c (Suc (lv_used c)));
            c = c\<lparr>lv_used := lv_used c + (if truthy (get_json payload ''seed'') then 1 else 2)\<rparr>
        in case build_prompt_graph rp c payload filename_prefix rnd of
             Inl e \<Rightarrow> (Inl e, (c, w))
           | Inr graph \<Rightarrow>
               if payload_prompt rp payload = [] then
                 (case fail_locally ''empty_prompt'' c of (pid, c) \<Rightarrow> (Inr pid, (c, w)))
               else
                 (case sv_prompt S (JObj [(''prompt'', JObj graph), (''client_id'', JStr (lv_client_id c))]) w of
                    (res, w) \<Rightarrow>
                      (case bind_exc res (\<lambda>data. index_key data ''prompt_id'') of
                         Inr pid \<Rightarrow> (Inr (py_str rp pid), (c, w))
                       | Inl e \<Rightarrow> (case fail_locally (sanitized_error e) c of (pid, c) \<Rightarrow> (Inr pid, (c, w))))))"

subsection \<open>Fetching and storing the outputs\<close>

text \<open>\<open>(filename.rsplit(".", 1)[-1] or "png").lower()\<close>.\<close>

definition file_ext :: "string \<Rightarrow> string" where
  "file_ext filename =
     (let e = rev (takeWhile (\<lambda>x. x \<noteq> CHR ''.'') (rev filename))
      in map to_lower (if e \<noteq> [] then e else ''png''))"

definition get_or :: "dict \<Rightarrow> string \<Rightarrow> json \<Rightarrow> json" where
  "get_or d k dflt = (case dget d k of Some v \<Rightarrow> v | None \<Rightarrow> dflt)"

text \<open>The loops carry the outputs so far, the client (its UUIDs) and the world; an exception keeps
  what was stored before it.\<close>

fun store_images ::
  "'w comfy_services \<Rightarrow> json list \<Rightarrow> dict list \<Rightarrow> live_client \<Rightarrow> 'w \<Rightarrow> (exc + dict list) \<times> live_client \<times> 'w" where
  "store_images S [] acc c w = (Inr acc, c, w)"
| "store_images S (JObj img # imgs) acc c w =
     (let filename = get_json img ''filename'' in
      if \<not> truthy filename then store_images S imgs acc c w
      else (case sv_view S [(''filename'', filename), (''subfolder'', get_or img ''subfolder'' (JStr [])),
                            (''type'', get_or img ''type'' (JStr ''output''))] w of
          (Inl e, w) \<Rightarrow> (Inl e, c, w)
        | (Inr data, w) \<Rightarrow>
            (case filename of
               JStr name \<Rightarrow>
                 let ext = file_ext name;
                     mime = ''image/'' @ (if ext = ''jpg'' then ''jpeg'' else ext);
                     object_key = ''generated/'' @ lv_hex c (lv_used c) @ CHR ''.'' # ext;
                     c = c\<lparr>lv_used := lv_used c + 1\<rparr>
                 in (case sv_put S object_key data mime w of
                       (Inl e, w) \<Rightarrow> (Inl e, c, w)
                     | (Inr u, w) \<Rightarrow> store_images S imgs
                         (acc @ [[(''object_key'', JStr object_key), (''mime_type'', JStr mime)]]) c w)
             | _ \<Rightarrow> (Inl ''AttributeError'', c, w))))"
| "store_images S (_ # imgs) acc c w = (Inl ''AttributeError'', c, w)"

fun store_nodes ::
  "'w comfy_services \<Rightarrow> json list \<Rightarrow> dict list \<Rightarrow> live_client \<Rightarrow> 'w \<Rightarrow> (exc + dict list) \<times> live_client \<times> 'w" where
  "store_nodes S [] acc c w = (Inr acc, c, w)"
| "store_nodes S (n # ns) acc c w =
     (case bind_exc (method_get n ''images'') iterate_json of
        Inl e \<Rightarrow> (Inl e, c, w)
      | Inr imgs \<Rightarrow> (case store_images S imgs acc c w of
            (Inl e, c, w) \<Rightarrow> (Inl e, c, w)
          | (Inr acc, c, w) \<Rightarrow> store_nodes S ns acc c w))"

definition fetch_and_store_outputs ::
  "'w comfy_services \<Rightarrow> json \<Rightarrow> live_client \<Rightarrow> 'w \<Rightarrow> (exc + dict list) \<times> live_client \<times> 'w" where
  "fetch_and_store_outputs S history_entry c w =
     (case bind_exc (method_get history_entry ''outputs'') (\<lambda>o1. method_values (or_default o1 (JObj []))) of
        Inl e \<Rightarrow> (Inl e, c, w)
      | Inr nodes \<Rightarrow> store_nodes S nodes [] c w)"

subsection \<open>get\_status\<close>

text \<open>\<open>{entry[1] for entry in xs}\<close>.\<close>

fun second_entries :: "json list \<Rightarrow> exc + json list" where
  "second_entries [] = Inr []"
| "second_entries (x # xs) =
     bind_exc (index_nat x 1) (\<lambda>v. if \<not> hashable v then Inl ''TypeError''
       else bind_exc (second_entries xs) (\<lambda>vs. Inr (v # vs)))"

text \<open>\<open>(running or []) + (pending or [])\<close>: two lists, or an exception here or in the iteration.\<close>

definition queued_entries :: "json \<Rightarrow> exc + json list" where
  "queued_entries queue =
     bind_exc (method_get queue ''queue_running'') (\<lambda>r. bind_exc (method_get queue ''queue_pending'') (\<lambda>p.
       case (or_default r (JList []), or_default p (JList [])) of
         (JList xs, JList ys) \<Rightarrow> Inr (xs @ ys)
       | _ \<Rightarrow> Inl ''TypeError''))"

definition plain_status :: "string \<Rightarrow> comfy_state \<Rightarrow> comfy_status" where
  "plain_status prompt_id st = \<lparr>cs_prompt_id = prompt_id, cs_state = st, cs_outputs = None, cs_error = None\<rparr>"

definition cache_status :: "comfy_status \<Rightarrow> live_client \<Rightarrow> live_client" where
  "cache_status s c = c\<lparr>lv_resolved := dput (cs_prompt_id s) s (lv_resolved c)\<rparr>"

text \<open>The branch of a prompt that is in the history.\<close>

definition status_from_history ::
  "'w comfy_services \<Rightarrow> string \<Rightarrow> json \<Rightarrow> live_client \<Rightarrow> 'w \<Rightarrow> (exc + comfy_status) \<times> live_client \<times> 'w" where
  "status_from_history S prompt_id entry c w =
     (case bind_exc (method_get entry ''status'') (\<lambda>i. method_get (or_default i (JObj [])) ''status_str'') of
        Inl e \<Rightarrow> (Inl e, c, w)
      | Inr status_str \<Rightarrow>
          if status_str = JStr ''error'' then
            let s = failed_status prompt_id ''comfy_execution_error'' in (Inr s, cache_status s c, w)
          else (case fetch_and_store_outputs S entry c w of
              (Inl e, c, w) \<Rightarrow> (Inl e, c, w)
            | (Inr outputs, c, w) \<Rightarrow>
                let s = (if outputs = [] then failed_status prompt_id ''comfy_no_output_image''
                         else \<lparr>cs_prompt_id = prompt_id, cs_state = CS_Succeeded, cs_outputs = Some outputs,
                               cs_error = None\<rparr>)
                in (Inr s, cache_status s c, w)))"

text \<open>The branch of one that is not: still queued, or lost.\<close>

definition status_from_queue ::
  "'w comfy_services \<Rightarrow> string \<Rightarrow> 'w \<Rightarrow> (exc + comfy_status) \<times> 'w" where
  "status_from_queue S prompt_id w =
     (case sv_queue S w of (res, w) \<Rightarrow>
        (bind_exc res (\<lambda>queue. bind_exc (queued_entries queue) (\<lambda>es. bind_exc (second_entries es) (\<lambda>ids.
           Inr (plain_status prompt_id (if JStr prompt_id \<in> set ids then CS_Running else CS_Unknown))))), w))"

definition poll_status ::
  "'w comfy_services \<Rightarrow> string \<Rightarrow> live_client \<Rightarrow> 'w \<Rightarrow> (exc + comfy_status) \<times> live_client \<times> 'w" where
  "poll_status S prompt_id c w =
     (case sv_history S prompt_id w of
        (Inl e, w) \<Rightarrow> (Inl e, c, w)
      | (Inr history, w) \<Rightarrow>
          (case text_in prompt_id history of
             Inl e \<Rightarrow> (Inl e, c, w)
           | Inr True \<Rightarrow> (case index_key history prompt_id of
                 Inl e \<Rightarrow> (Inl e, c, w)
               | Inr entry \<Rightarrow> status_from_history S prompt_id entry c w)
           | Inr False \<Rightarrow> (case status_from_queue S prompt_id w of (res, w) \<Rightarrow> (res, c, w))))"

definition decode_local_failure :: "string \<Rightarrow> comfy_status" where
  "decode_local_failure prompt_id =
     (case py_partition (CHR '':'') (drop (length LOCAL_FAIL_PREFIX) prompt_id) of (a, b, reason) \<Rightarrow>
        let reason = (if b then reason else []) in
        failed_status prompt_id (if reason \<noteq> [] then reason else ''local_failure''))"

definition live_get_status ::
  "'w comfy_services \<Rightarrow> string \<Rightarrow> live_client \<times> 'w \<Rightarrow> (exc + comfy_status) \<times> (live_client \<times> 'w)" where
  "live_get_status S prompt_id cw =
     (case cw of (c, w) \<Rightarrow>
        if starts_with LOCAL_FAIL_PREFIX prompt_id then (Inr (decode_local_failure prompt_id), (c, w))
        else (case dget (lv_resolved c) prompt_id of
            Some s \<Rightarrow> (Inr s, (c, w))
          | None \<Rightarrow> (case poll_status S prompt_id c w of
                (Inr s, c, w) \<Rightarrow> (Inr s, (c, w))
              | (Inl e, c, w) \<Rightarrow> (Inr (plain_status prompt_id CS_Running), (c, w)))))"

subsection \<open>cancel and health\<close>

definition queue_ids :: "json \<Rightarrow> string \<Rightarrow> exc + json list" where
  "queue_ids queue field = bind_exc (method_get queue field) (\<lambda>v. bind_exc (iterate_json v) second_entries)"

definition live_cancel ::
  "'w comfy_services \<Rightarrow> string \<Rightarrow> live_client \<times> 'w \<Rightarrow> (exc + unit) \<times> (live_client \<times> 'w)" where
  "live_cancel S prompt_id cw =
     (case cw of (c, w) \<Rightarrow>
        case sv_queue S w of (res, w) \<Rightarrow>
          let w' = (case bind_exc res (\<lambda>q. bind_exc (queue_ids q ''queue_pending'') (\<lambda>p.
                      bind_exc (queue_ids q ''queue_running'') (\<lambda>r. Inr (p, r)))) of
                  Inl e \<Rightarrow> w
                | Inr (pending, running) \<Rightarrow>
                    if JStr prompt_id \<in> set pending then snd (sv_delete S prompt_id w)
                    else if JStr prompt_id \<in> set running then snd (sv_interrupt S w)
                    else w)
          in (Inr (), (c\<lparr>lv_resolved := dpop prompt_id (lv_resolved c)\<rparr>, w')))"

definition live_health :: "'w comfy_services \<Rightarrow> live_client \<times> 'w \<Rightarrow> (exc + bool) \<times> (live_client \<times> 'w)" where
  "live_health S cw =
     (case cw of (c, w) \<Rightarrow> case sv_stats S w of (res, w) \<Rightarrow> (Inr (res = Inr 200), (c, w)))"

definition live_port :: "(json \<Rightarrow> string) \<Rightarrow> 'w comfy_services \<Rightarrow> (live_client \<times> 'w) comfy_client" where
  "live_port rp S = \<lparr>cc_submit = live_submit rp S, cc_get_status = live_get_status S,
     cc_cancel = live_cancel S, cc_health = live_health S\<rparr>"

subsection \<open>What a graph contains\<close>

fun links_of :: "json \<Rightarrow> string list" where
  "links_of (JList [JStr n, JInt k]) = [n]"
| "links_of j = []"

definition node_inputs :: "json \<Rightarrow> dict" where
  "node_inputs nd = (case nd of JObj d \<Rightarrow> (case get_json d ''inputs'' of JObj i \<Rightarrow> i | _ \<Rightarrow> []) | _ \<Rightarrow> [])"

definition node_class :: "json \<Rightarrow> string" where
  "node_class nd = (case nd of JObj d \<Rightarrow> (case get_json d ''class_type'' of JStr s \<Rightarrow> s | _ \<Rightarrow> []) | _ \<Rightarrow> [])"

text \<open>Every link of a node leads to a node of the same graph.\<close>

definition graph_closed :: "dict \<Rightarrow> bool" where
  "graph_closed g \<longleftrightarrow> distinct (map fst g) \<and>
     (\<forall>(n, nd) \<in> set g. \<forall>(f, v) \<in> set (node_inputs nd). set (links_of v) \<subseteq> fst ` set g)"

definition graph_texts :: "dict \<Rightarrow> string set" where
  "graph_texts g = {t. \<exists>(n, nd) \<in> set g. \<exists>(f, v) \<in> set (node_inputs nd). v = JStr t}"

definition profile_texts :: "comfy_profile \<Rightarrow> string set" where
  "profile_texts p = {checkpoint_name p, diffusion_model_name p, clip_name p, vae_name p, sampler_name p,
     sched_name p, negative_prompt p}"

lemma node_simps [simp]:
  "node_inputs (node ct i) = i" "node_class (node ct i) = ct" "links_of (link_to n k) = [n]"
  "link_to n k \<noteq> JStr t"
  by (simp_all add: node_inputs_def node_class_def node_def link_to_def get_json_def)

lemma checkpoint_graph_facts:
  "graph_closed (build_checkpoint_graph p t w h seed pre)"
  "graph_texts (build_checkpoint_graph p t w h seed pre) \<subseteq> profile_texts p \<union> {t, pre}"
  by (auto simp: build_checkpoint_graph_def graph_closed_def graph_texts_def sampler_inputs_def profile_texts_def)

lemma split_graph_facts:
  "graph_closed (build_split_auraflow_graph p t w h seed pre ct)"
  "graph_texts (build_split_auraflow_graph p t w h seed pre ct) \<subseteq> profile_texts p \<union> {t, pre, ct, ''default''}"
  by (auto simp: build_split_auraflow_graph_def graph_closed_def graph_texts_def sampler_inputs_def profile_texts_def)

lemma build_prompt_graph_cases:
  assumes "build_prompt_graph rp c payload pre rnd = Inr g"
  obtains p w h seed where "resolve_active_profile rp c payload = Inr p"
    "resolve_dimensions (get_json payload ''aspect_ratio'') (get_json payload ''resolution'') (model_family p) = Inr (w, h)"
    "g = build_split_auraflow_graph p (payload_prompt rp payload) w h seed pre ''qwen_image'' \<or>
     g = build_split_auraflow_graph p (payload_prompt rp payload) w h seed pre ''lumina2'' \<or>
     g = build_checkpoint_graph p (payload_prompt rp payload) w h seed pre"
proof -
  from assms obtain p w h seed where a: "resolve_active_profile rp c payload = Inr p"
    "resolve_dimensions (get_json payload ''aspect_ratio'') (get_json payload ''resolution'') (model_family p) = Inr (w, h)"
    and g: "g = (if model_family p = ''qwen_image''
      then build_split_auraflow_graph p (payload_prompt rp payload) w h seed pre ''qwen_image''
      else if model_family p = ''z_image_turbo''
      then build_split_auraflow_graph p (payload_prompt rp payload) w h seed pre ''lumina2''
      else build_checkpoint_graph p (payload_prompt rp payload) w h seed pre)"
    unfolding build_prompt_graph_def Let_def by (auto simp del: split_paired_Ex)
  show thesis by (rule that [OF a, where seed = seed]) (simp add: g)
qed

subsection \<open>Dimensions\<close>

lemma dimension_bounds:
  assumes "640 \<le> b" shows "640 \<le> min (b * s) MAX_DIM div 8 * 8 \<or> s < 1"
    "min (b * s) MAX_DIM div 8 * 8 \<le> 4096"
proof -
  show "640 \<le> min (b * s) MAX_DIM div 8 * 8 \<or> s < 1"
  proof (cases "s < 1")
    case False
    with assms have "b * 1 \<le> b * s" by (intro mult_left_mono) simp_all
    then have "640 \<le> b * s" using assms by linarith
    then have "640 \<le> min (b * s) MAX_DIM" by (simp add: MAX_DIM_def)
    moreover have "640 \<le> m \<Longrightarrow> 640 \<le> m div 8 * 8" for m :: int by presburger
    ultimately show ?thesis by blast
  qed simp
  have "m \<le> 4096 \<Longrightarrow> m div 8 * 8 \<le> 4096" for m :: int by presburger
  then show "min (b * s) MAX_DIM div 8 * 8 \<le> 4096" by (simp add: MAX_DIM_def)
qed

lemma json_lookup_in:
  "json_lookup table d key = Inr v \<Longrightarrow> v = d \<or> v \<in> snd ` set table"
  by (auto simp: json_lookup_def split: if_splits json.splits option.splits dest: dget_SomeD intro: rev_image_eqI)

lemma base_sizes:
  "\<forall>(r, w, h) \<in> set BASE_DIMENSIONS_1K \<union> set QWEN_IMAGE_BASE_DIMENSIONS_1K. 640 \<le> w \<and> 640 \<le> h"
  by (simp add: BASE_DIMENSIONS_1K_def QWEN_IMAGE_BASE_DIMENSIONS_1K_def)

lemma resolve_dimensions_bounds:
  assumes "resolve_dimensions ar res family = Inr (w, h)"
  shows "8 dvd w \<and> 8 dvd h \<and> 640 \<le> w \<and> w \<le> 4096 \<and> 640 \<le> h \<and> h \<le> 4096"
proof -
  define table where "table = (if family = ''qwen_image'' then QWEN_IMAGE_BASE_DIMENSIONS_1K else BASE_DIMENSIONS_1K)"
  define square where "square = (case dget table ''1:1'' of Some b \<Rightarrow> b | None \<Rightarrow> (0, 0))"
  from assms obtain bw bh s where b: "json_lookup table square (or_default ar (JStr ''1:1'')) = Inr (bw, bh)"
    and s: "json_lookup RESOLUTION_SCALE 1 (or_default res (JStr ''1K'')) = Inr s"
    and wh: "w = min (bw * s) MAX_DIM div 8 * 8" "h = min (bh * s) MAX_DIM div 8 * 8"
    unfolding resolve_dimensions_def table_def [symmetric] Let_def square_def [symmetric]
    by (auto simp: Let_def)
  have "square \<in> snd ` set table"
    by (auto simp: square_def table_def BASE_DIMENSIONS_1K_def QWEN_IMAGE_BASE_DIMENSIONS_1K_def)
  with json_lookup_in [OF b] have "(bw, bh) \<in> snd ` set table" by metis
  moreover have "set table \<subseteq> set BASE_DIMENSIONS_1K \<union> set QWEN_IMAGE_BASE_DIMENSIONS_1K"
    by (simp add: table_def)
  ultimately have base: "640 \<le> bw" "640 \<le> bh" using base_sizes by force+
  have "s = 1 \<or> s \<in> snd ` set RESOLUTION_SCALE" by (rule json_lookup_in [OF s])
  then have "1 \<le> s" by (auto simp: RESOLUTION_SCALE_def)
  with dimension_bounds [OF base(1), of s] dimension_bounds [OF base(2), of s] wh show ?thesis by simp
qed

subsection \<open>Polling\<close>

lemma poll_caches:
  assumes "poll_status S pid c w = (Inr s, c', w')" "cs_state s \<in> {CS_Succeeded, CS_Failed}"
  shows "dget (lv_resolved c') pid = Some s"
proof -
  have "cs_state s \<in> {CS_Running, CS_Unknown}" if "status_from_queue S pid w = (Inr s, w')" for w w'
    using that by (auto simp: status_from_queue_def plain_status_def split: prod.splits if_splits)
  moreover have "dget (lv_resolved c') pid = Some s"
    if "status_from_history S pid entry c w = (Inr s, c', w')" for entry w w'
    using that by (auto simp: status_from_history_def cache_status_def failed_status_def Let_def
        split: sum.splits prod.splits if_splits)
  ultimately show ?thesis using assms
    by (auto simp: poll_status_def split: prod.splits sum.splits bool.splits) fastforce+
qed

lemma starts_with_take: "starts_with p s \<Longrightarrow> take (length p) s = p"
  by (induction p s rule: starts_with.induct) auto

lemma resolve_active_profile_used [simp]:
  "resolve_active_profile rp (c\<lparr>lv_used := n\<rparr>) payload = resolve_active_profile rp c payload"
proof -
  have "lv_default_profile (c\<lparr>lv_used := n\<rparr>) = lv_default_profile c"
    and "lv_profiles (c\<lparr>lv_used := n\<rparr>) = lv_profiles c"
    and "lv_allowlists (c\<lparr>lv_used := n\<rparr>) = lv_allowlists c" by simp_all
  then show ?thesis by (simp only: resolve_active_profile_def)
qed

lemma build_prompt_graph_used [simp]:
  "build_prompt_graph rp (c\<lparr>lv_used := n\<rparr>) payload pre rnd = build_prompt_graph rp c payload pre rnd"
  by (simp add: build_prompt_graph_def)

lemma decode_local_fail_id:
  "CHR '':'' \<notin> set hex \<Longrightarrow> reason \<noteq> [] \<Longrightarrow>
    starts_with LOCAL_FAIL_PREFIX (local_fail_id hex reason) \<and>
    decode_local_failure (local_fail_id hex reason) = failed_status (local_fail_id hex reason) reason"
  by (simp add: local_fail_id_def decode_local_failure_def del: append_assoc)

subsection \<open>Properties\<close>

text \<open>C19. Clients never supply a graph: whatever keys a payload has, the submitted graph is one of the
  server's templates for the active profile. Its node ids are distinct and every link leads to a
  node of the graph, its only texts are the profile's, the stripped prompt, the file prefix and
  three constants, and a payload that agrees on the six keys the code reads gives the same graph.\<close>

theorem graph_is_server_template:
  assumes "build_prompt_graph rp c payload pre rnd = Inr g"
  shows "graph_closed g \<and>
    (\<exists>p. resolve_active_profile rp c payload = Inr p \<and>
      graph_texts g \<subseteq> profile_texts p \<union> {payload_prompt rp payload, pre, ''qwen_image'', ''lumina2'', ''default''}) \<and>
    (\<forall>payload2. (\<forall>k \<in> {''model_profile'', ''model_overrides'', ''prompt'', ''aspect_ratio'', ''resolution'', ''seed''}.
        get_json payload2 k = get_json payload k) \<longrightarrow> build_prompt_graph rp c payload2 pre rnd = Inr g)"
proof -
  from build_prompt_graph_cases [OF assms] obtain p w h seed where
    p: "resolve_active_profile rp c payload = Inr p" and
    g: "g = build_split_auraflow_graph p (payload_prompt rp payload) w h seed pre ''qwen_image'' \<or>
        g = build_split_auraflow_graph p (payload_prompt rp payload) w h seed pre ''lumina2'' \<or>
        g = build_checkpoint_graph p (payload_prompt rp payload) w h seed pre" by metis
  from g have "graph_closed g" using checkpoint_graph_facts(1) split_graph_facts(1) by metis
  moreover have "graph_texts g \<subseteq> profile_texts p \<union> {payload_prompt rp payload, pre, ''qwen_image'', ''lumina2'', ''default''}"
    using g checkpoint_graph_facts(2) split_graph_facts(2) by fastforce
  moreover have "build_prompt_graph rp c payload2 pre rnd = Inr g"
    if "\<forall>k \<in> {''model_profile'', ''model_overrides'', ''prompt'', ''aspect_ratio'', ''resolution'', ''seed''}.
        get_json payload2 k = get_json payload k" for payload2
    using assms that by (simp add: build_prompt_graph_def resolve_active_profile_def payload_prompt_def)
  ultimately show ?thesis using p by blast
qed

definition example_profile :: comfy_profile where
  "example_profile = \<lparr>profile_key = ''student'', checkpoint_name = ''sdxl'', model_family = ''checkpoint'',
     diffusion_model_name = [], clip_name = [], vae_name = [], model_sampling_shift = 3, sampler_name = ''euler'',
     sched_name = ''simple'', steps = 20, cfg_scale = Fin 4, negative_prompt = []\<rparr>"

definition example_live :: live_client where
  "example_live = \<lparr>lv_default_profile = example_profile, lv_profiles = [], lv_allowlists = None,
     lv_client_id = ''imaginv'', lv_resolved = [], lv_hex = (\<lambda>_. ''a0''), lv_int = (\<lambda>_. 7), lv_used = 0\<rparr>"

lemma example_graph:
  "\<exists>g. build_prompt_graph (\<lambda>_. []) example_live [(''prompt'', JStr ''cat''), (''graph'', JObj [])] ''x'' 7 = Inr g"
  by (simp add: build_prompt_graph_def resolve_active_profile_def get_json_def example_live_def example_profile_def
      resolve_dimensions_def json_lookup_def or_default_def BASE_DIMENSIONS_1K_def RESOLUTION_SCALE_def int_exc_def
      Let_def)

theorem graph_is_server_template_witness:
  "\<exists>g. build_prompt_graph (\<lambda>_. []) example_live [(''prompt'', JStr ''cat''), (''graph'', JObj [])] ''x'' 7 = Inr g \<and>
    graph_closed g \<and> build_prompt_graph (\<lambda>_. []) example_live [(''prompt'', JStr ''cat'')] ''x'' 7 = Inr g"
proof -
  obtain g where g: "build_prompt_graph (\<lambda>_. []) example_live [(''prompt'', JStr ''cat''), (''graph'', JObj [])] ''x'' 7 = Inr g"
    using example_graph by blast
  from graph_is_server_template [OF g] g show ?thesis by (auto simp: get_json_def)
qed

text \<open>The latent size is always usable: for every aspect ratio and resolution the client can send
  that the lookup accepts, both sides are multiples of eight between 640 and 4096 pixels.\<close>

theorem dimensions_usable:
  assumes "resolve_dimensions ar res family = Inr (w, h)"
  shows "8 dvd w \<and> 8 dvd h \<and> 640 \<le> w \<and> w \<le> 4096 \<and> 640 \<le> h \<and> h \<le> 4096"
  by (rule resolve_dimensions_bounds [OF assms])

theorem dimensions_usable_witness:
  "\<exists>w h. resolve_dimensions (JStr ''4:3'') (JStr ''4K'') ''qwen_image'' = Inr (w, h) \<and> w \<le> 4096"
proof -
  have r: "resolve_dimensions (JStr ''4:3'') (JStr ''4K'') ''qwen_image'' = Inr (4096, 4096)"
    by (simp add: resolve_dimensions_def json_lookup_def or_default_def QWEN_IMAGE_BASE_DIMENSIONS_1K_def
        RESOLUTION_SCALE_def MAX_DIM_def)
  from dimensions_usable [OF r] r show ?thesis by blast
qed

text \<open>A submission that never reached ComfyUI can be told by every process: for an empty prompt the
  server is not contacted, for a failed request it was contacted once, and in both cases any
  client, whatever its cache, later answers the id with a failure that names the reason.\<close>

theorem local_failure_visible_everywhere:
  assumes "build_prompt_graph rp c payload (''imaginv-'' @ take 12 (lv_hex c (lv_used c)))
      (int (lv_int c (Suc (lv_used c)))) = Inr g"
    and "\<forall>n. CHR '':'' \<notin> set (lv_hex c n)"
    and "payload_prompt rp payload = [] \<and> w' = w \<and> reason = ''empty_prompt'' \<or>
      payload_prompt rp payload \<noteq> [] \<and> reason = ''comfy_live_error:'' @ e \<and>
      sv_prompt S (JObj [(''prompt'', JObj g), (''client_id'', JStr (lv_client_id c))]) w = (Inl e, w')"
  shows "\<exists>pid c'. live_submit rp S payload kd (c, w) = (Inr pid, (c', w')) \<and>
    live_get_status S2 pid (c2, w2) = (Inr (failed_status pid reason), (c2, w2))"
proof -
  let ?c = "c\<lparr>lv_used := lv_used c + (if truthy (get_json payload ''seed'') then 1 else 2)\<rparr>"
  let ?pid = "local_fail_id (lv_hex c (lv_used ?c)) reason"
  have r: "reason \<noteq> []" using assms(3) by auto
  have "\<exists>c'. live_submit rp S payload kd (c, w) = (Inr ?pid, (c', w'))"
    using assms(1,3) by (auto simp: live_submit_def Let_def fail_locally_def sanitized_error_def)
  moreover have "live_get_status S2 ?pid (c2, w2) = (Inr (failed_status ?pid reason), (c2, w2))"
    using decode_local_fail_id [of "lv_hex c (lv_used ?c)" reason] assms(2) r by (simp add: live_get_status_def)
  ultimately show ?thesis by blast
qed

text \<open>Services of which nothing is reachable.\<close>

definition down_services :: "unit comfy_services" where
  "down_services = \<lparr>sv_prompt = (\<lambda>_ w. (Inl ''ConnectError'', w)), sv_history = (\<lambda>_ w. (Inl ''ConnectError'', w)),
     sv_queue = (\<lambda>w. (Inl ''ConnectError'', w)), sv_view = (\<lambda>_ w. (Inl ''ConnectError'', w)),
     sv_delete = (\<lambda>_ w. (Inl ''ConnectError'', w)), sv_interrupt = (\<lambda>w. (Inl ''ConnectError'', w)),
     sv_stats = (\<lambda>w. (Inl ''ConnectError'', w)), sv_put = (\<lambda>_ _ _ w. (Inr (), w))\<rparr>"

theorem local_failure_visible_everywhere_witness:
  "\<exists>pid c'. live_submit (\<lambda>_. []) down_services [(''prompt'', JStr ''cat'')] None (example_live, ()) = (Inr pid, (c', ())) \<and>
    live_get_status down_services pid (example_live, ()) =
      (Inr (failed_status pid ''comfy_live_error:ConnectError''), (example_live, ()))"
proof -
  obtain g where g: "build_prompt_graph (\<lambda>_. []) example_live [(''prompt'', JStr ''cat'')]
      (''imaginv-'' @ take 12 (lv_hex example_live (lv_used example_live)))
      (int (lv_int example_live (Suc (lv_used example_live)))) = Inr g"
    by (simp add: build_prompt_graph_def resolve_active_profile_def get_json_def example_live_def example_profile_def
        resolve_dimensions_def json_lookup_def or_default_def BASE_DIMENSIONS_1K_def RESOLUTION_SCALE_def int_exc_def
        Let_def)
  have hex: "\<forall>n. CHR '':'' \<notin> set (lv_hex example_live n)" by (simp add: example_live_def)
  have "payload_prompt (\<lambda>_. []) [(''prompt'', JStr ''cat'')] = ''cat''"
    by (simp add: payload_prompt_def get_json_def or_default_def py_strip_def is_space_def)
  then show ?thesis
    by (intro local_failure_visible_everywhere [OF g hex, of "()" "()" "''comfy_live_error:ConnectError''" "''ConnectError''"])
      (simp add: down_services_def)
qed

text \<open>An outcome is settled once: when a poll has answered that a job succeeded or failed, every
  later poll by the same client gives that very answer without asking the server or storing the
  outputs again.\<close>

theorem outcome_settled_once:
  assumes "live_get_status S pid (c, w) = (Inr s, (c', w'))" and "cs_state s \<in> {CS_Succeeded, CS_Failed}"
  shows "live_get_status S2 pid (c', w2) = (Inr s, (c', w2))"
proof (cases "starts_with LOCAL_FAIL_PREFIX pid")
  case True
  with assms(1) show ?thesis by (auto simp: live_get_status_def)
next
  case False
  have "dget (lv_resolved c') pid = Some s"
  proof (cases "dget (lv_resolved c) pid")
    case None
    with False assms(1) consider "poll_status S pid c w = (Inr s, c', w')"
      | "s = plain_status pid CS_Running" by (auto simp: live_get_status_def split: prod.splits sum.splits)
    then show ?thesis
    proof cases
      case 1
      then show ?thesis by (rule poll_caches [OF _ assms(2)])
    next
      case 2
      with assms(2) show ?thesis by (simp add: plain_status_def)
    qed
  next
    case (Some s0)
    with False assms(1) show ?thesis by (auto simp: live_get_status_def)
  qed
  with False show ?thesis by (simp add: live_get_status_def)
qed

theorem outcome_settled_once_witness:
  "\<exists>c'. live_get_status (down_services\<lparr>sv_history := (\<lambda>pid w. (Inr (JObj [(pid, JObj [])]), w))\<rparr>) ''p'' (example_live, ()) =
      (Inr (failed_status ''p'' ''comfy_no_output_image''), (c', ())) \<and>
    live_get_status down_services ''p'' (c', ()) = (Inr (failed_status ''p'' ''comfy_no_output_image''), (c', ()))"
proof -
  obtain c' where s: "live_get_status (down_services\<lparr>sv_history := (\<lambda>pid w. (Inr (JObj [(pid, JObj [])]), w))\<rparr>)
      ''p'' (example_live, ()) = (Inr (failed_status ''p'' ''comfy_no_output_image''), (c', ()))"
    by (simp add: live_get_status_def poll_status_def status_from_history_def fetch_and_store_outputs_def
        LOCAL_FAIL_PREFIX_def example_live_def text_in_def index_key_def method_get_def method_values_def
        or_default_def get_json_def dmem_def Let_def)
  from outcome_settled_once [OF s] s show ?thesis by (auto simp: failed_status_def)
qed

text \<open>A poisoned request: a seed that is no number passes the payload on to the adapter, which
  raises outside its own error handling, before any failure id is made, whatever the server is.\<close>

theorem malformed_seed_raises:
  assumes "resolve_active_profile rp c payload = Inr p"
    and "resolve_dimensions (get_json payload ''aspect_ratio'') (get_json payload ''resolution'') (model_family p) = Inr d"
    and "get_json payload ''seed'' = JStr s" and "s \<noteq> []" and "parse_int s = None"
  shows "\<exists>c'. live_submit rp S payload kd (c, w) = (Inl ''ValueError'', (c', w))"
  using assms by (cases d) (simp add: live_submit_def Let_def build_prompt_graph_def or_default_def int_exc_def)

theorem malformed_seed_raises_witness:
  "\<exists>c'. live_submit (\<lambda>_. []) down_services [(''prompt'', JStr ''cat''), (''seed'', JStr ''lucky'')] None
     (example_live, ()) = (Inl ''ValueError'', (c', ()))"
  by (rule malformed_seed_raises [where p = example_profile and d = "(1024, 1024)" and s = "''lucky''"])
    (simp_all add: resolve_active_profile_def get_json_def example_live_def example_profile_def
      resolve_dimensions_def json_lookup_def or_default_def BASE_DIMENSIONS_1K_def RESOLUTION_SCALE_def MAX_DIM_def
      parse_int_def py_strip_def is_space_def split_sign_def is_digit_def)

end
