(* ===== verification/Scheduler.thy ===== *)
theory Scheduler
  imports Memory_Queue Postgres_Queue Settings Comfy_Client
begin

section \<open>The scheduler process (services/scheduler.py)\<close>

text \<open>
  One tick reserves capacity per backend, claims jobs for each lane and starts a dispatch task
  for every claimed job. The task is a coroutine: its stages are the code between two awaits, so
  that other operations can be interleaved with it. The scheduler is a client of the
  \<open>job_queue\<close> port and of the rendering port; both adapters of the queue have every optional
  operation the code probes with \<open>hasattr\<close>. The heartbeat writes the table \<open>comfy_workers\<close>.
\<close>

subsection \<open>Capacity\<close>

record comfy_worker =
  cw_id :: uuid
  cw_name :: string
  cw_endpoint_ref :: string
  cw_status :: string
  cw_max_slots :: int
  cw_reserved_slots :: int
  cw_running_slots :: int
  cw_last_heartbeat_at :: time

definition comfy_slots :: "settings \<Rightarrow> int" where
  "comfy_slots st = default_comfy_active_slots st + max 0 (comfy_pending_buffer st)"

text \<open>\<open>workers\<close> is the result of \<open>select(ComfyWorker)\<close>, or nothing without a session factory.\<close>

definition reserve_capacity_by_backend ::
  "'q job_queue_port \<Rightarrow> settings \<Rightarrow> comfy_worker list option \<Rightarrow> 'q \<Rightarrow> (string \<times> int) list" where
  "reserve_capacity_by_backend P st workers q =
     (let gemini_capacity = default_gemini_active_slots st;
          comfy_active = int (jq_count_active P (Some (kinds_for_backend ''comfyui'')) q);
          gemini_active = int (jq_count_active P (Some (kinds_for_backend ''gemini'')) q)
      in case workers of
           None \<Rightarrow> [(''comfyui'', max 0 (comfy_slots st - comfy_active)),
                     (''gemini'', max 0 (gemini_capacity - gemini_active))]
         | Some rows \<Rightarrow>
             let online = list_ex (\<lambda>w. cw_status w = ''online'') rows;
                 comfy_budget = (if \<not> online \<and> rows \<noteq> [] then 0
                                 else if rows = [] then max 0 (comfy_slots st - comfy_active)
                                 else max 0 (comfy_slots st - comfy_active))
             in [(''comfyui'', comfy_budget), (''gemini'', max 0 (gemini_capacity - gemini_active))])"

subsection \<open>Claiming\<close>

definition claim_for_backend ::
  "'q job_queue_port \<Rightarrow> settings \<Rightarrow> string \<Rightarrow> rat \<Rightarrow> time \<Rightarrow> string \<Rightarrow> int \<Rightarrow> 'q \<Rightarrow> 'q \<times> queued_job list" where
  "claim_for_backend P st owner_id lease_seconds now backend capacity q =
     (if capacity \<le> 0 then (q, [])
      else jq_claim_with_lease P now capacity owner_id lease_seconds
             (Some (kinds_for_backend backend)) (max_active_jobs_per_user st) q)"

text \<open>The loop of a tick over the lanes; \<open>clock\<close> is the reading of the clock in each lane's claim.\<close>

fun claim_lanes ::
  "'q job_queue_port \<Rightarrow> settings \<Rightarrow> string \<Rightarrow> rat \<Rightarrow> (string \<Rightarrow> time) \<Rightarrow> (string \<times> int) list \<Rightarrow> 'q
     \<Rightarrow> 'q \<times> queued_job list" where
  "claim_lanes P st owner_id lease_seconds clock [] q = (q, [])"
| "claim_lanes P st owner_id lease_seconds clock ((backend, capacity) # lanes) q =
     (case claim_for_backend P st owner_id lease_seconds (clock backend) backend capacity q of (q, claimed) \<Rightarrow>
        case claim_lanes P st owner_id lease_seconds clock lanes q of (q, rest) \<Rightarrow> (q, claimed @ rest))"

definition tick ::
  "'q job_queue_port \<Rightarrow> settings \<Rightarrow> string \<Rightarrow> rat \<Rightarrow> (string \<Rightarrow> time) \<Rightarrow> comfy_worker list option \<Rightarrow> 'q
     \<Rightarrow> 'q \<times> queued_job list" where
  "tick P st owner_id lease_seconds clock workers q =
     claim_lanes P st owner_id lease_seconds clock (reserve_capacity_by_backend P st workers q) q"

subsection \<open>Dispatch\<close>

datatype stage =
    To_Running queued_job
  | To_Submit queued_job
  | To_Record queued_job string
  | To_Report queued_job exc

fun stage_job :: "stage \<Rightarrow> queued_job" where
  "stage_job (To_Running job) = job"
| "stage_job (To_Submit job) = job"
| "stage_job (To_Record job pid) = job"
| "stage_job (To_Report job e) = job"

text \<open>One stage of a dispatch task: the new queue, the new renderer and the next stage, if any.\<close>

fun dispatch_stage ::
  "'q job_queue_port \<Rightarrow> 'c comfy_client \<Rightarrow> time \<Rightarrow> rat \<Rightarrow> stage \<Rightarrow> 'q \<Rightarrow> 'c \<Rightarrow> 'q \<times> 'c \<times> stage option" where
  "dispatch_stage P C now rnd (To_Running job) q c =
     (jq_mark_running P now (j_id job) q, c, Some (To_Submit job))"
| "dispatch_stage P C now rnd (To_Submit job) q c =
     (case cc_submit C (j_input_payload job) (Some (j_kind job)) c of
        (Inr pid, c') \<Rightarrow> (q, c', Some (To_Record job pid))
      | (Inl e, c') \<Rightarrow> (q, c', Some (To_Report job e)))"
| "dispatch_stage P C now rnd (To_Record job pid) q c =
     (jq_set_prompt_id P (j_id job) pid q, c, None)"
| "dispatch_stage P C now rnd (To_Report job e) q c =
     (jq_mark_retry_wait P now rnd (j_id job) ''worker_unreachable'' (Some (''dispatch_error:'' @ e)) None q,
      c, None)"

text \<open>The whole task when nothing is interleaved with it: the handler of the exception reads the
  clock at \<open>now2\<close>.\<close>

definition dispatch_job ::
  "'q job_queue_port \<Rightarrow> 'c comfy_client \<Rightarrow> time \<Rightarrow> time \<Rightarrow> rat \<Rightarrow> queued_job \<Rightarrow> 'q \<Rightarrow> 'c \<Rightarrow> 'q \<times> 'c" where
  "dispatch_job P C now now2 rnd job q c =
     (let q = jq_mark_running P now (j_id job) q in
      case cc_submit C (j_input_payload job) (Some (j_kind job)) c of
        (Inr pid, c) \<Rightarrow> (jq_set_prompt_id P (j_id job) pid q, c)
      | (Inl e, c) \<Rightarrow>
          (jq_mark_retry_wait P now2 rnd (j_id job) ''worker_unreachable''
             (Some (''dispatch_error:'' @ e)) None q, c))"

subsection \<open>Heartbeat\<close>

definition worker_name :: "string \<Rightarrow> string" where
  "worker_name base_url =
     rev (dropWhile (\<lambda>c. c = CHR ''-'')
       (rev (py_replace ''/'' ''-'' (py_replace ''https://'' [] (py_replace ''http://'' [] base_url)))))"

text \<open>The answer of \<open>GET {base_url}/queue\<close> as JSON, or nothing when the request, the status check
  or the decoding raised; reading a field of something that is not an object raises as well.\<close>

definition probe_outcome :: "json option \<Rightarrow> string \<times> int" where
  "probe_outcome answer =
     (case answer of
        Some (JObj data) \<Rightarrow> (''online'', if truthy (get_json data ''queue_running'') then 1 else 0)
      | _ \<Rightarrow> (''offline'', 0))"

text \<open>\<open>INSERT ... ON CONFLICT (name) DO UPDATE\<close>.\<close>

definition upsert_worker ::
  "uuid \<Rightarrow> time \<Rightarrow> string \<Rightarrow> string \<Rightarrow> string \<Rightarrow> int \<Rightarrow> comfy_worker list \<Rightarrow> comfy_worker list" where
  "upsert_worker fresh now name endpoint status running ws =
     (if name \<in> set (map cw_name ws)
      then map (\<lambda>w. if cw_name w = name then w\<lparr>cw_endpoint_ref := endpoint, cw_status := status,
                cw_running_slots := running, cw_last_heartbeat_at := now\<rparr> else w) ws
      else ws @ [\<lparr>cw_id = fresh, cw_name = name, cw_endpoint_ref = endpoint, cw_status = status,
                cw_max_slots = 1, cw_reserved_slots = 0, cw_running_slots = running,
                cw_last_heartbeat_at = now\<rparr>])"

definition heartbeat_urls :: "settings \<Rightarrow> string list" where
  "heartbeat_urls st =
     (if comfy_worker_base_urls st \<noteq> [] then comfy_worker_base_urls st
      else if comfy_base_url st \<noteq> [] then [comfy_base_url st] else [])"

text \<open>One pass. The environment gives per address the answer of the worker, whether the upsert
  commits, the time of its \<open>now()\<close> and the identifier \<open>gen_random_uuid()\<close> draws.\<close>

record heartbeat_env =
  hb_answer :: "string \<Rightarrow> json option"
  hb_commits :: "string \<Rightarrow> bool"
  hb_now :: "string \<Rightarrow> time"
  hb_uuid :: "string \<Rightarrow> uuid"

fun heartbeat_loop :: "heartbeat_env \<Rightarrow> string list \<Rightarrow> comfy_worker list \<Rightarrow> comfy_worker list" where
  "heartbeat_loop hb [] ws = ws"
| "heartbeat_loop hb (base_url # urls) ws =
     (case probe_outcome (hb_answer hb base_url) of (status, running_slots) \<Rightarrow>
        heartbeat_loop hb urls
          (if hb_commits hb base_url
           then upsert_worker (hb_uuid hb base_url) (hb_now hb base_url) (worker_name base_url)
                  base_url status running_slots ws
           else ws))"

definition heartbeat_once ::
  "heartbeat_env \<Rightarrow> settings \<Rightarrow> comfy_worker list option \<Rightarrow> comfy_worker list option" where
  "heartbeat_once hb st workers =
     (case workers of
        None \<Rightarrow> None
      | Some ws \<Rightarrow> if comfy_mode st = ''mock'' then Some ws
          else Some (heartbeat_loop hb (heartbeat_urls st) ws))"

subsection \<open>Lanes and slots\<close>

lemma kinds_disjoint: "k \<in> set (kinds_for_backend b) \<Longrightarrow> k \<in> set (kinds_for_backend b') \<Longrightarrow> b = b'"
  by (simp add: kinds_for_backend_iff)

lemma kind_in_backend: "kind_in (Some (kinds_for_backend b)) j \<longleftrightarrow> backend_for_kind (j_kind j) = Some b"
  by (simp add: kind_in_def kinds_for_backend_iff)

context job_queue begin

definition lane_active :: "string \<Rightarrow> 'q \<Rightarrow> int" where
  "lane_active b q = int (jq_count_active P (Some (kinds_for_backend b)) q)"

definition lane_jobs :: "string \<Rightarrow> queued_job list \<Rightarrow> int" where
  "lane_jobs b js = int (length (filter (kind_in (Some (kinds_for_backend b))) js))"

lemma lane_claim:
  assumes "ok q" "claim_for_backend P st ow secs now b cap q = (q', cl)"
  shows "ok q'" "int (length cl) \<le> max 0 cap" "lane_active b' q' = lane_active b' q + lane_jobs b' cl"
    "\<forall>j \<in> set cl. kind_in (Some (kinds_for_backend b)) j"
proof -
  have "ok q' \<and> int (length cl) \<le> max 0 cap \<and> lane_active b' q' = lane_active b' q + lane_jobs b' cl \<and>
      (\<forall>j \<in> set cl. kind_in (Some (kinds_for_backend b)) j)"
  proof (cases "cap \<le> 0")
    case False
    with assms(2) have c: "jq_claim_with_lease P now cap ow secs (Some (kinds_for_backend b))
        (max_active_jobs_per_user st) q = (q', cl)" by (simp add: claim_for_backend_def)
    note ok = claim_ok [OF assms(1) c]
    have "\<forall>j \<in> set cl. kind_in (Some (kinds_for_backend b)) j"
      using ok kind_in_same_job by blast
    moreover have "lane_active b' q' = lane_active b' q + lane_jobs b' cl"
      using claim_count [OF assms(1) c, of "kind_in (Some (kinds_for_backend b'))"] ok assms(1)
      by (simp add: lane_active_def lane_jobs_def count_active_ok kind_in_same_job)
    moreover have "int (length cl) \<le> max 0 cap" using ok by linarith
    ultimately show ?thesis using ok by blast
  qed (use assms in \<open>simp add: claim_for_backend_def lane_jobs_def\<close>)
  then show "ok q'" "int (length cl) \<le> max 0 cap" "lane_active b' q' = lane_active b' q + lane_jobs b' cl"
    "\<forall>j \<in> set cl. kind_in (Some (kinds_for_backend b)) j" by blast+
qed

lemma lane_jobs_own: "\<forall>j \<in> set cl. kind_in (Some (kinds_for_backend b)) j \<Longrightarrow>
    lane_jobs b' cl = (if b' = b then int (length cl) else 0)"
  by (auto simp: lane_jobs_def filter_id_conv kind_in_backend filter_empty_conv)

lemma lane_jobs_append [simp]: "lane_jobs b (xs @ ys) = lane_jobs b xs + lane_jobs b ys"
  by (simp add: lane_jobs_def)

text \<open>A tick claims in each lane at most its budget, and only jobs of the lane.\<close>

lemma tick_two_lanes:
  assumes "ok q" "claim_lanes P st ow secs clock [(a, ca), (b, cb)] q = (q', js)" "a \<noteq> b"
  shows "ok q' \<and> lane_active a q' = lane_active a q + lane_jobs a js \<and> lane_jobs a js \<le> max 0 ca \<and>
    lane_active b q' = lane_active b q + lane_jobs b js \<and> lane_jobs b js \<le> max 0 cb \<and>
    int (length js) = lane_jobs a js + lane_jobs b js"
proof -
  obtain q1 js1 js2 where s: "claim_for_backend P st ow secs (clock a) a ca q = (q1, js1)"
    "claim_for_backend P st ow secs (clock b) b cb q1 = (q', js2)" "js = js1 @ js2"
    using assms(2) by (auto split: prod.splits)
  note l1 = lane_claim [OF assms(1) s(1)]
  note l2 = lane_claim [OF l1(1) s(2)]
  note o1 = lane_jobs_own [OF l1(4)] and o2 = lane_jobs_own [OF l2(4)]
  show ?thesis using l1(2) l2(1,2) l1(3) [of a] l1(3) [of b] l2(3) [of a] l2(3) [of b] assms(3)
    by (simp add: s(3) o1 o2)
qed

lemma tick_slots:
  assumes "ok q" "tick P st ow secs clock workers q = (q', js)"
  shows "ok q' \<and> lane_active ''comfyui'' q' \<le> max (lane_active ''comfyui'' q) (comfy_slots st) \<and>
    lane_active ''gemini'' q' \<le> max (lane_active ''gemini'' q) (default_gemini_active_slots st) \<and>
    int (length js) = (lane_active ''comfyui'' q' - lane_active ''comfyui'' q) +
      (lane_active ''gemini'' q' - lane_active ''gemini'' q) \<and>
    (\<forall>rows. workers = Some rows \<longrightarrow> rows \<noteq> [] \<longrightarrow> (\<forall>w \<in> set rows. cw_status w \<noteq> ''online'') \<longrightarrow>
      lane_active ''comfyui'' q' = lane_active ''comfyui'' q)"
proof -
  let ?full = "max 0 (comfy_slots st - lane_active ''comfyui'' q)"
  let ?g = "max 0 (default_gemini_active_slots st - lane_active ''gemini'' q)"
  obtain cb where r: "reserve_capacity_by_backend P st workers q = [(''comfyui'', cb), (''gemini'', ?g)]"
    "cb = ?full \<or> cb = 0" and off: "\<And>rows. workers = Some rows \<Longrightarrow> rows \<noteq> [] \<Longrightarrow>
      (\<forall>w \<in> set rows. cw_status w \<noteq> ''online'') \<Longrightarrow> cb = 0"
  proof (cases workers)
    case None
    with that [of ?full] show ?thesis by (simp add: reserve_capacity_by_backend_def Let_def lane_active_def)
  next
    case (Some rows)
    let ?c = "if \<not> list_ex (\<lambda>w. cw_status w = ''online'') rows \<and> rows \<noteq> [] then 0 else ?full"
    show ?thesis
      by (rule that [of ?c])
        (simp_all add: Some reserve_capacity_by_backend_def Let_def lane_active_def list_ex_iff)
  qed
  note t = tick_two_lanes [OF assms(1) assms(2) [unfolded tick_def r]]
  have nonneg: "0 \<le> lane_jobs b js" for b by (simp add: lane_jobs_def)
  have "lane_active ''comfyui'' q' \<le> max (lane_active ''comfyui'' q) (comfy_slots st)"
    using t r(2) by auto
  moreover have "lane_active ''gemini'' q' \<le> max (lane_active ''gemini'' q) (default_gemini_active_slots st)"
    using t by auto
  moreover have "lane_active ''comfyui'' q' = lane_active ''comfyui'' q"
    if "workers = Some rows" "rows \<noteq> []" "\<forall>w \<in> set rows. cw_status w \<noteq> ''online''" for rows
    using t off [OF that] nonneg [of "''comfyui''"] by simp
  ultimately show ?thesis using t by auto
qed

end

subsection \<open>The worker table\<close>

definition worker_row :: "string \<Rightarrow> comfy_worker list \<Rightarrow> comfy_worker option" where
  "worker_row name ws = find (\<lambda>w. cw_name w = name) ws"

lemma worker_row_map:
  "(\<And>w. cw_name (f w) = cw_name w) \<Longrightarrow> worker_row n (map f ws) = map_option f (worker_row n ws)"
  by (induction ws) (auto simp: worker_row_def)

lemma worker_row_append: "worker_row n (ws @ vs) = (case worker_row n ws of None \<Rightarrow> worker_row n vs | r \<Rightarrow> r)"
  by (induction ws) (auto simp: worker_row_def)

lemma worker_row_name: "worker_row n ws = Some w \<Longrightarrow> cw_name w = n"
  by (induction ws) (auto simp: worker_row_def split: if_splits)

lemma worker_row_None: "worker_row n ws = None \<longleftrightarrow> n \<notin> set (map cw_name ws)"
  by (induction ws) (auto simp: worker_row_def)

lemma upsert_row:
  "worker_row n (upsert_worker f now name ep status running ws) =
     (if n = name then Some (case worker_row name ws of
          Some w \<Rightarrow> w\<lparr>cw_endpoint_ref := ep, cw_status := status, cw_running_slots := running,
            cw_last_heartbeat_at := now\<rparr>
        | None \<Rightarrow> \<lparr>cw_id = f, cw_name = name, cw_endpoint_ref = ep, cw_status = status, cw_max_slots = 1,
            cw_reserved_slots = 0, cw_running_slots = running, cw_last_heartbeat_at = now\<rparr>)
      else worker_row n ws)"
proof (cases "name \<in> set (map cw_name ws)")
  case True
  then obtain w where "worker_row name ws = Some w" using worker_row_None by fastforce
  moreover have "worker_row n (upsert_worker f now name ep status running ws) =
      map_option (\<lambda>w. if cw_name w = name then w\<lparr>cw_endpoint_ref := ep, cw_status := status,
        cw_running_slots := running, cw_last_heartbeat_at := now\<rparr> else w) (worker_row n ws)"
    using True unfolding upsert_worker_def by (simp add: worker_row_map)
  ultimately show ?thesis
    using worker_row_name by (cases "worker_row n ws") (auto simp: worker_row_name)
next
  case False
  then have "worker_row name ws = None" by (simp add: worker_row_None)
  moreover have "worker_row n (upsert_worker f now name ep status running ws) =
      (case worker_row n ws of None \<Rightarrow> worker_row n [\<lparr>cw_id = f, cw_name = name, cw_endpoint_ref = ep,
        cw_status = status, cw_max_slots = 1, cw_reserved_slots = 0, cw_running_slots = running,
        cw_last_heartbeat_at = now\<rparr>] | r \<Rightarrow> r)"
    using False unfolding upsert_worker_def by (simp only: if_False worker_row_append)
  ultimately show ?thesis by (cases "worker_row n ws") (auto simp: worker_row_def)
qed

lemma upsert_names:
  "map cw_name (upsert_worker f now name ep status running ws) =
     (if name \<in> set (map cw_name ws) then map cw_name ws else map cw_name ws @ [name])"
  by (simp add: upsert_worker_def comp_def if_distrib cong: if_cong)

lemma heartbeat_loop_other:
  "n \<notin> worker_name ` set urls \<Longrightarrow> worker_row n (heartbeat_loop hb urls ws) = worker_row n ws"
  by (induction urls arbitrary: ws) (simp_all add: upsert_row split: prod.split)

lemma heartbeat_loop_distinct:
  "distinct (map cw_name ws) \<Longrightarrow> distinct (map cw_name (heartbeat_loop hb urls ws))"
proof (induction urls arbitrary: ws)
  case (Cons u urls)
  then show ?case by (auto simp: upsert_names split: prod.split)
qed simp

lemma heartbeat_loop_names:
  "worker_name ` set urls \<subseteq> set (map cw_name ws) \<Longrightarrow> map cw_name (heartbeat_loop hb urls ws) = map cw_name ws"
proof (induction urls arbitrary: ws)
  case (Cons u urls)
  then have "map cw_name (upsert_worker f now (worker_name u) ep status running ws) = map cw_name ws"
    for f now ep status running by (simp add: upsert_names)
  moreover from this have "cw_name ` set (upsert_worker f now (worker_name u) ep status running ws) = cw_name ` set ws"
    for f now ep status running by (metis list.set_map)
  ultimately show ?case using Cons by (simp split: prod.split)
qed simp

lemma heartbeat_loop_row:
  "u \<in> set urls \<Longrightarrow> inj_on worker_name (set urls) \<Longrightarrow> hb_commits hb u \<Longrightarrow>
    \<exists>w. worker_row (worker_name u) (heartbeat_loop hb urls ws) = Some w \<and> cw_endpoint_ref w = u \<and>
      (cw_status w, cw_running_slots w) = probe_outcome (hb_answer hb u) \<and>
      cw_last_heartbeat_at w = hb_now hb u"
proof (induction urls arbitrary: ws)
  case (Cons a urls)
  show ?case
  proof (cases "u \<in> set urls")
    case True
    from Cons.IH [OF True _ Cons.prems(3)] Cons.prems(2) show ?thesis
      by (auto simp: inj_on_insert split: prod.split)
  next
    case False
    with Cons.prems(1) have a: "a = u" by simp
    with False Cons.prems(2) have "worker_name u \<notin> worker_name ` set urls" by (auto simp: inj_on_def)
    with a Cons.prems(3) show ?thesis
      by (auto simp: heartbeat_loop_other upsert_row split: prod.split option.split)
  qed
qed simp

subsection \<open>Properties\<close>



text \<open>A heartbeat pass leaves exactly one row per worker: each configured worker whose upsert
  commits is registered under its deterministic name with its address and the outcome of this
  pass's probe, rows of other workers stay as they are, and once every worker is registered
  further passes add no row.\<close>

theorem heartbeat_registers_workers:
  assumes "comfy_mode st \<noteq> ''mock''" and "distinct (map cw_name ws)"
    and "inj_on worker_name (set (heartbeat_urls st))"
  shows "\<exists>ws'. heartbeat_once hb st (Some ws) = Some ws' \<and> distinct (map cw_name ws') \<and>
    (\<forall>u \<in> set (heartbeat_urls st). hb_commits hb u \<longrightarrow>
      (\<exists>w. worker_row (worker_name u) ws' = Some w \<and> cw_endpoint_ref w = u \<and>
        (cw_status w, cw_running_slots w) = probe_outcome (hb_answer hb u))) \<and>
    (\<forall>n. n \<notin> worker_name ` set (heartbeat_urls st) \<longrightarrow> worker_row n ws' = worker_row n ws) \<and>
    (worker_name ` set (heartbeat_urls st) \<subseteq> set (map cw_name ws) \<longrightarrow> length ws' = length ws)"
proof -
  let ?ws' = "heartbeat_loop hb (heartbeat_urls st) ws"
  have "length ?ws' = length ws" if "worker_name ` set (heartbeat_urls st) \<subseteq> set (map cw_name ws)"
    using heartbeat_loop_names [OF that] by (metis length_map)
  moreover have "\<exists>w. worker_row (worker_name u) ?ws' = Some w \<and> cw_endpoint_ref w = u \<and>
      (cw_status w, cw_running_slots w) = probe_outcome (hb_answer hb u)"
    if "u \<in> set (heartbeat_urls st)" "hb_commits hb u" for u
    using heartbeat_loop_row [OF that(1) assms(3) that(2)] by blast
  ultimately show ?thesis using assms(1,2)
    by (simp add: heartbeat_once_def heartbeat_loop_distinct heartbeat_loop_other)
qed

definition example_live_settings :: settings where
  "example_live_settings = default_settings\<lparr>comfy_mode := ''live'', comfy_base_url := ''http://gpu:8188/''\<rparr>"

theorem heartbeat_registers_workers_witness:
  "\<exists>w. worker_row ''gpu:8188'' (the (heartbeat_once \<lparr>hb_answer = (\<lambda>_. Some (JObj [])),
       hb_commits = (\<lambda>_. True), hb_now = (\<lambda>_. 9), hb_uuid = (\<lambda>_. 1)\<rparr> example_live_settings (Some []))) = Some w \<and>
     cw_status w = ''online''"
proof -
  have u: "heartbeat_urls example_live_settings = [''http://gpu:8188/'']"
    by (simp add: heartbeat_urls_def comfy_worker_base_urls_def csv_list_def example_live_settings_def
        default_settings_def py_strip_def)
  have n: "worker_name ''http://gpu:8188/'' = ''gpu:8188''" by (simp add: worker_name_def)
  have "comfy_mode example_live_settings \<noteq> ''mock''" by (simp add: example_live_settings_def)
  from heartbeat_registers_workers [OF this, of "[]" "\<lparr>hb_answer = (\<lambda>_. Some (JObj [])),
      hb_commits = (\<lambda>_. True), hb_now = (\<lambda>_. 9), hb_uuid = (\<lambda>_. 1)\<rparr>"]
  show ?thesis by (auto simp: u n probe_outcome_def)
qed

end
