(* ===== verification/Reconciler.thy ===== *)
theory Reconciler
  imports Memory_Queue Postgres_Queue Settings Comfy_Client
begin

section \<open>The reconciler process (services/reconciler.py)\<close>

text \<open>
  One pass over the active jobs: a job with a prompt id is settled by what the renderer says, one
  without is retried or failed once its lease ran out. The decision is apart from its effect,
  because the await of the renderer lies between them and other operations can be interleaved
  there. A loop variable of the code is an object: over the in-memory queue it is the live job,
  over Postgres the row as the pass read it; the argument \<open>see\<close> gives what it shows.
\<close>

subsection \<open>The decision\<close>

datatype verdict =
    V_Succeeded dict
  | V_Renew
  | V_Keep
  | V_Fail_Or_Retry string "string option"

definition lease_expired :: "time \<Rightarrow> queued_job \<Rightarrow> bool" where
  "lease_expired now job = (case j_lease_expires_at job of Some t \<Rightarrow> t < now | None \<Rightarrow> False)"

text \<open>The branches of \<open>_resolve_via_comfy\<close> on the answer of the renderer.\<close>

definition resolve_via_comfy :: "settings \<Rightarrow> time \<Rightarrow> queued_job \<Rightarrow> comfy_status \<Rightarrow> verdict" where
  "resolve_via_comfy st now job status =
     (case cs_state status of
        CS_Succeeded \<Rightarrow> V_Succeeded
          [(''outputs'', JList (map JObj (case cs_outputs status of Some outs \<Rightarrow> outs | None \<Rightarrow> [])))]
      | CS_Running \<Rightarrow> V_Renew
      | CS_Unknown \<Rightarrow>
          (let expired = lease_expired now job;
               expired = (if \<not> expired \<and> j_lease_expires_at job = None
                 then stale_running_seconds st \<le> of_int (now - j_queued_at job) / 1000000 else expired)
           in if expired then V_Fail_Or_Retry ''comfy_transient'' (Some ''prompt_unknown_to_comfy_after_lease'')
              else V_Keep)
      | CS_Failed \<Rightarrow> V_Fail_Or_Retry ''comfy_transient'' (cs_error status))"

text \<open>\<open>if job.prompt_id\<close>: an empty id counts as none.\<close>

definition has_prompt :: "queued_job \<Rightarrow> bool" where
  "has_prompt job \<longleftrightarrow> (case j_prompt_id job of Some pid \<Rightarrow> pid \<noteq> [] | None \<Rightarrow> False)"

text \<open>\<open>_reconcile_job\<close> up to its write to the queue; an exception of the renderer is \<open>Inl\<close>.\<close>

definition judge_job ::
  "'c comfy_client \<Rightarrow> settings \<Rightarrow> time \<Rightarrow> queued_job \<Rightarrow> 'c \<Rightarrow> (exc + verdict) \<times> 'c" where
  "judge_job C st now job c =
     (if has_prompt job
      then (case cc_get_status C (the (j_prompt_id job)) c of (res, c') \<Rightarrow>
              (map_sum id (resolve_via_comfy st now job) res, c'))
      else if lease_expired now job
      then (Inr (V_Fail_Or_Retry ''worker_lease_expired'' (Some ''lease expired with no prompt_id'')), c)
      else (Inr V_Keep, c))"

subsection \<open>Its effect\<close>

text \<open>\<open>clk\<close> is the clock of the queue operation and \<open>rnd\<close> the draw of the jitter.\<close>

definition fail_or_retry ::
  "'q job_queue_port \<Rightarrow> time \<Rightarrow> rat \<Rightarrow> queued_job \<Rightarrow> string \<Rightarrow> string option \<Rightarrow> 'q \<Rightarrow> 'q" where
  "fail_or_retry P clk rnd job error_code detail q =
     (let attempt_no = j_current_attempt job + 1 in
      if is_retryable error_code attempt_no (j_max_attempts job)
      then jq_mark_retry_wait P clk rnd (j_id job) error_code detail
             (Some (compute_backoff_seconds attempt_no default_backoff rnd)) q
      else jq_mark_failed P clk (j_id job) error_code detail q)"

definition DEFAULT_LEASE_SECONDS :: rat where
  "DEFAULT_LEASE_SECONDS = 120"

fun apply_verdict :: "'q job_queue_port \<Rightarrow> time \<Rightarrow> rat \<Rightarrow> queued_job \<Rightarrow> verdict \<Rightarrow> 'q \<Rightarrow> 'q" where
  "apply_verdict P clk rnd job (V_Succeeded res) q = jq_mark_succeeded P clk (j_id job) res q"
| "apply_verdict P clk rnd job V_Renew q = jq_renew_lease P clk (j_id job) DEFAULT_LEASE_SECONDS q"
| "apply_verdict P clk rnd job V_Keep q = q"
| "apply_verdict P clk rnd job (V_Fail_Or_Retry error_code detail) q =
     fail_or_retry P clk rnd job error_code detail q"

text \<open>One job of a pass when nothing is interleaved with it; an exception is logged and skipped.\<close>

definition reconcile_job ::
  "'q job_queue_port \<Rightarrow> 'c comfy_client \<Rightarrow> settings \<Rightarrow> time \<Rightarrow> time \<Rightarrow> rat \<Rightarrow> queued_job \<Rightarrow> 'q \<times> 'c \<Rightarrow> 'q \<times> 'c" where
  "reconcile_job P C st now clk rnd job qc =
     (case qc of (q, c) \<Rightarrow>
        (case judge_job C st now job c of
           (Inl e, c') \<Rightarrow> (q, c')
         | (Inr v, c') \<Rightarrow> (apply_verdict P clk rnd job v q, c')))"

definition run_once ::
  "'q job_queue_port \<Rightarrow> 'c comfy_client \<Rightarrow> settings \<Rightarrow> ('q \<Rightarrow> queued_job \<Rightarrow> queued_job) \<Rightarrow> time \<Rightarrow>
     (uuid \<Rightarrow> time) \<Rightarrow> (uuid \<Rightarrow> rat) \<Rightarrow> 'q \<times> 'c \<Rightarrow> ('q \<times> 'c) \<times> nat" where
  "run_once P C st see now clk rnd qc =
     (let active = jq_list_active P (fst qc)
      in (fold (\<lambda>job qc. reconcile_job P C st now (clk (j_id job)) (rnd (j_id job)) (see (fst qc) job) qc)
            active qc, length active))"

definition mem_see :: "mem_queue \<Rightarrow> queued_job \<Rightarrow> queued_job" where
  "mem_see q job = (case mem_get (j_id job) q of Some j \<Rightarrow> j | None \<Rightarrow> job)"

definition pg_see :: "pg_db \<Rightarrow> queued_job \<Rightarrow> queued_job" where
  "pg_see db job = job"

end
