(* ===== verification/System.thy ===== *)
theory System
  imports Admission Scheduler Reconciler
begin

section \<open>The processes together\<close>

text \<open>
  The API process that admits and cancels jobs, any number of schedulers and one reconciler on
  one queue and one renderer, interleaved between every two awaits: a step is one admission, one
  cancellation, the claim of one lane, one stage of one dispatch task, or the decision or the
  write of the reconciler for one job. A process can also die at any moment and lose what it had
  in flight. The counters are ghosts: per job, how many submissions the renderer accepted, how
  many raised, and how many of the latter were written back as a failed attempt.
\<close>

subsection \<open>States and steps\<close>

record ('q, 'c) sys =
  sy_queue :: 'q
  sy_comfy :: 'c
  sy_tasks :: "stage list"
  sy_pass :: "queued_job list"
  sy_judged :: "(queued_job \<times> verdict) option"
  sy_accepted :: "uuid \<Rightarrow> nat"
  sy_raised :: "uuid \<Rightarrow> nat"
  sy_reported :: "uuid \<Rightarrow> nat"

definition sys_init :: "'q \<Rightarrow> 'c \<Rightarrow> ('q, 'c) sys" where
  "sys_init q c = \<lparr>sy_queue = q, sy_comfy = c, sy_tasks = [], sy_pass = [], sy_judged = None,
     sy_accepted = (\<lambda>_. 0), sy_raised = (\<lambda>_. 0), sy_reported = (\<lambda>_. 0)\<rparr>"

definition tally :: "uuid \<Rightarrow> (uuid \<Rightarrow> nat) \<Rightarrow> uuid \<Rightarrow> nat" where
  "tally i f k = (if k = i then Suc (f k) else f k)"

text \<open>The ghost update of a dispatch stage, from the stage, the one that follows and the queue before.\<close>

fun count_stage :: "'q job_queue_port \<Rightarrow> stage \<Rightarrow> stage option \<Rightarrow> ('q, 'c) sys \<Rightarrow> ('q, 'c) sys" where
  "count_stage P (To_Submit job) (Some (To_Record j pid)) s = s\<lparr>sy_accepted := tally (j_id job) (sy_accepted s)\<rparr>"
| "count_stage P (To_Submit job) (Some (To_Report j e)) s = s\<lparr>sy_raised := tally (j_id job) (sy_raised s)\<rparr>"
| "count_stage P (To_Report job e) nxt s =
     (case jq_get P (j_id job) (sy_queue s) of
        Some j \<Rightarrow> if is_terminal (j_state j) then s
          else s\<lparr>sy_reported := tally (j_id job) (sy_reported s)\<rparr>
      | None \<Rightarrow> s)"
| "count_stage P t nxt s = s"

definition opt_list :: "'a option \<Rightarrow> 'a list" where
  "opt_list x = (case x of None \<Rightarrow> [] | Some y \<Rightarrow> [y])"

inductive sys_step ::
  "'q job_queue_port \<Rightarrow> 'c comfy_client \<Rightarrow> settings \<Rightarrow> ('q \<Rightarrow> queued_job \<Rightarrow> queued_job) \<Rightarrow>
     ('q, 'c) sys \<Rightarrow> ('q, 'c) sys \<Rightarrow> bool"
  for P :: "'q job_queue_port" and C :: "'c comfy_client" and st :: settings
    and see :: "'q \<Rightarrow> queued_job \<Rightarrow> queued_job" where
  step_admit: "jq_get P nid (sy_queue s) = None \<Longrightarrow>
    admit_generation_job E P st now nid u wn wv inputs ikey conv (sy_queue s) = Inr (r, q') \<Longrightarrow>
    sys_step P C st see s (s\<lparr>sy_queue := q'\<rparr>)"
| step_cancel: "jq_cancel P now i (sy_queue s) = (q', b) \<Longrightarrow> sys_step P C st see s (s\<lparr>sy_queue := q'\<rparr>)"
| step_claim: "claim_for_backend P st ow secs now backend cap (sy_queue s) = (q', cl) \<Longrightarrow>
    sys_step P C st see s (s\<lparr>sy_queue := q', sy_tasks := sy_tasks s @ map To_Running cl\<rparr>)"
| step_task: "sy_tasks s = ts @ t # ts' \<Longrightarrow>
    dispatch_stage P C now rnd t (sy_queue s) (sy_comfy s) = (q', c', nxt) \<Longrightarrow>
    sys_step P C st see s
      ((count_stage P t nxt s)\<lparr>sy_queue := q', sy_comfy := c', sy_tasks := ts @ opt_list nxt @ ts'\<rparr>)"
| step_pass: "sy_pass s = [] \<Longrightarrow> sy_judged s = None \<Longrightarrow>
    sys_step P C st see s (s\<lparr>sy_pass := jq_list_active P (sy_queue s)\<rparr>)"
| step_judge: "sy_pass s = job # rest \<Longrightarrow> sy_judged s = None \<Longrightarrow>
    judge_job C st now (see (sy_queue s) job) (sy_comfy s) = (res, c') \<Longrightarrow>
    sys_step P C st see s (s\<lparr>sy_comfy := c', sy_pass := rest,
      sy_judged := (case res of Inl e \<Rightarrow> None | Inr v \<Rightarrow> Some (job, v))\<rparr>)"
| step_write: "sy_judged s = Some (job, v) \<Longrightarrow>
    sys_step P C st see s (s\<lparr>sy_judged := None,
      sy_queue := apply_verdict P clk rnd (see (sy_queue s) job) v (sy_queue s)\<rparr>)"
| step_scheduler_dies: "sy_tasks s = ts @ t # ts' \<Longrightarrow> sys_step P C st see s (s\<lparr>sy_tasks := ts @ ts'\<rparr>)"
| step_reconciler_dies: "sys_step P C st see s (s\<lparr>sy_pass := [], sy_judged := None\<rparr>)"

inductive sys_reach ::
  "'q job_queue_port \<Rightarrow> 'c comfy_client \<Rightarrow> settings \<Rightarrow> ('q \<Rightarrow> queued_job \<Rightarrow> queued_job) \<Rightarrow>
     ('q, 'c) sys \<Rightarrow> ('q, 'c) sys \<Rightarrow> bool"
  for P :: "'q job_queue_port" and C :: "'c comfy_client" and st :: settings
    and see :: "'q \<Rightarrow> queued_job \<Rightarrow> queued_job" and s0 :: "('q, 'c) sys" where
  reach_start: "sys_reach P C st see s0 s0"
| reach_step: "sys_reach P C st see s0 s \<Longrightarrow> sys_step P C st see s s' \<Longrightarrow> sys_reach P C st see s0 s'"

subsection \<open>The accounting of submissions and attempts\<close>

text \<open>Tasks of a job that may still submit, and those that still have to write back a failure.\<close>

fun may_submit :: "uuid \<Rightarrow> stage \<Rightarrow> bool" where
  "may_submit i (To_Running job) = (j_id job = i)"
| "may_submit i (To_Submit job) = (j_id job = i)"
| "may_submit i t = False"

fun to_report :: "uuid \<Rightarrow> stage \<Rightarrow> bool" where
  "to_report i (To_Report job e) = (j_id job = i)"
| "to_report i t = False"

definition tasks_with :: "(stage \<Rightarrow> bool) \<Rightarrow> stage list \<Rightarrow> nat" where
  "tasks_with p ts = length (filter p ts)"

lemma tasks_with_simps [simp]:
  "tasks_with p [] = 0" "tasks_with p (t # ts) = (if p t then 1 else 0) + tasks_with p ts"
  "tasks_with p (ts @ ts') = tasks_with p ts + tasks_with p ts'"
  by (simp_all add: tasks_with_def)

lemma tally_simps [simp]: "tally i f i = Suc (f i)" "k \<noteq> i \<Longrightarrow> tally i f k = f k"
  by (simp_all add: tally_def)

lemma opt_list_simps [simp]: "opt_list None = []" "opt_list (Some x) = [x]"
  by (simp_all add: opt_list_def)

definition snapshots :: "('q, 'c) sys \<Rightarrow> queued_job list" where
  "snapshots s = sy_pass s @ map fst (opt_list (sy_judged s))"

definition spent :: "('q, 'c) sys \<Rightarrow> uuid \<Rightarrow> nat" where
  "spent s i = sy_accepted s i + sy_raised s i + tasks_with (may_submit i) (sy_tasks s)"

definition owed :: "('q, 'c) sys \<Rightarrow> uuid \<Rightarrow> nat" where
  "owed s i = sy_reported s i + tasks_with (to_report i) (sy_tasks s)"

text \<open>What holds of a stored job, and of an id that no job has yet.\<close>

definition accounted :: "('q, 'c) sys \<Rightarrow> uuid \<Rightarrow> queued_job \<Rightarrow> bool" where
  "accounted s i j \<longleftrightarrow>
     int (spent s i) \<le> j_current_attempt j + (if is_backlog j then 0 else 1) \<and>
     j_current_attempt j \<le> j_max_attempts j - 1 + int (sy_reported s i) \<and>
     owed s i \<le> sy_raised s i \<and>
     (\<forall>r \<in> set (snapshots s). j_id r = i \<longrightarrow>
        j_current_attempt j - int (sy_reported s i) \<le> j_current_attempt r \<and> j_max_attempts r = j_max_attempts j)"

definition untouched :: "('q, 'c) sys \<Rightarrow> uuid \<Rightarrow> bool" where
  "untouched s i \<longleftrightarrow> spent s i = 0 \<and> owed s i = 0 \<and> i \<notin> j_id ` set (snapshots s)"

lemma count_stage_frame:
  "sy_pass (count_stage P t nxt s) = sy_pass s" "sy_judged (count_stage P t nxt s) = sy_judged s"
  "sy_queue (count_stage P t nxt s) = sy_queue s"
  by (cases "(P, t, nxt, s)" rule: count_stage.cases; simp split: option.split)+

text \<open>What the reconciler's loop variable may show: the job as the pass read it, or the stored one.\<close>

locale platform = job_queue +
  fixes see :: "'a \<Rightarrow> queued_job \<Rightarrow> queued_job"
  assumes see_either: "see q r = r \<or> jq_get P (j_id r) q = Some (see q r)"
begin

definition good :: "('a, 'c) sys \<Rightarrow> bool" where
  "good s \<longleftrightarrow> ok (sy_queue s) \<and> distinct (map j_id (snapshots s)) \<and>
     (\<forall>i. case jq_get P i (sy_queue s) of Some j \<Rightarrow> accounted s i j | None \<Rightarrow> untouched s i)"

lemma goodD:
  assumes "good s"
  shows "ok (sy_queue s)" "distinct (map j_id (snapshots s))"
    "jq_get P i (sy_queue s) = Some j \<Longrightarrow> accounted s i j"
    "jq_get P i (sy_queue s) = None \<Longrightarrow> untouched s i"
proof -
  have all: "case jq_get P i (sy_queue s) of Some j \<Rightarrow> accounted s i j | None \<Rightarrow> untouched s i"
    using assms unfolding good_def by blast
  show "ok (sy_queue s)" "distinct (map j_id (snapshots s))" using assms unfolding good_def by blast+
  show "jq_get P i (sy_queue s) = Some j \<Longrightarrow> accounted s i j"
    "jq_get P i (sy_queue s) = None \<Longrightarrow> untouched s i" using all by simp_all
qed

lemma goodI:
  assumes "ok (sy_queue s)" "distinct (map j_id (snapshots s))"
    and "\<And>i j. jq_get P i (sy_queue s) = Some j \<Longrightarrow> accounted s i j"
    and "\<And>i. jq_get P i (sy_queue s) = None \<Longrightarrow> untouched s i"
  shows "good s"
  using assms by (simp add: good_def split: option.split)

text \<open>The operations that neither count an attempt nor bring a job back into the backlog.\<close>

definition quiet :: "'a \<Rightarrow> 'a \<Rightarrow> bool" where
  "quiet q q' \<longleftrightarrow> ok q' \<and> (\<forall>i. jq_get P i q = None \<longrightarrow> jq_get P i q' = None) \<and>
     (\<forall>i. jq_get P i q' = None \<longrightarrow> jq_get P i q = None) \<and>
     (\<forall>i j'. jq_get P i q' = Some j' \<longrightarrow> (\<exists>j. jq_get P i q = Some j \<and>
        j_current_attempt j' = j_current_attempt j \<and> j_max_attempts j' = j_max_attempts j \<and>
        (is_backlog j' \<longrightarrow> is_backlog j)))"

lemma quiet_refl: "ok q \<Longrightarrow> quiet q q"
  by (simp add: quiet_def)

lemma quietI:
  assumes "ok q'" "\<forall>k. k \<noteq> i \<longrightarrow> jq_get P k q' = jq_get P k q"
    and "\<forall>j. jq_get P i q = Some j \<longrightarrow> (\<exists>j'. jq_get P i q' = Some j' \<and> same_job j j' \<and>
      j_current_attempt j' = j_current_attempt j \<and> (is_backlog j' \<longrightarrow> is_backlog j))"
    and "jq_get P i q = None \<longrightarrow> jq_get P i q' = None"
  shows "quiet q q'"
  unfolding quiet_def
proof (intro conjI allI impI)
  fix k j' assume "jq_get P k q' = Some j'"
  with assms(2-4) show "\<exists>j. jq_get P k q = Some j \<and> j_current_attempt j' = j_current_attempt j \<and>
      j_max_attempts j' = j_max_attempts j \<and> (is_backlog j' \<longrightarrow> is_backlog j)"
    by (cases "k = i"; cases "jq_get P i q") (auto simp: same_job_def)
next
  fix k assume "jq_get P k q = None"
  with assms(2,4) show "jq_get P k q' = None" by (cases "k = i") auto
next
  fix k assume "jq_get P k q' = None"
  with assms(2,3) show "jq_get P k q = None"
    by (cases "k = i"; cases "jq_get P i q") auto
qed (rule assms(1))

lemma running_not_backlog: "j_state j = Running \<Longrightarrow> \<not> is_backlog j" "is_terminal (j_state j) \<Longrightarrow> \<not> is_backlog j"
  by (auto simp: is_backlog_def)

lemma quiet_running: "ok q \<Longrightarrow> quiet q (jq_mark_running P now i q)"
  using running_ok [of q now i] by (intro quietI [of _ i]) (auto simp: is_backlog_def is_terminal_iff)

lemma quiet_prompt: "ok q \<Longrightarrow> quiet q (jq_set_prompt_id P i pid q)"
  using prompt_ok [of q i pid] by (intro quietI [of _ i]) (auto simp: is_backlog_def)

lemma quiet_renew: "ok q \<Longrightarrow> quiet q (jq_renew_lease P now i secs q)"
  using renew_ok [of q now i secs] by (intro quietI [of _ i]) (auto simp: is_backlog_def)

lemma quiet_succeeded: "ok q \<Longrightarrow> quiet q (jq_mark_succeeded P now i res q)"
  using succeeded_ok [of q now i res] by (intro quietI [of _ i]) (fastforce simp: is_backlog_def split: if_splits)+

lemma quiet_failed: "ok q \<Longrightarrow> quiet q (jq_mark_failed P now i code detail q)"
  using failed_ok [of q now i code detail]
  by (intro quietI [of _ i]) (fastforce simp: is_backlog_def split: if_splits)+

lemma quiet_cancel: "ok q \<Longrightarrow> jq_cancel P now i q = (q', b) \<Longrightarrow> quiet q q'"
  using cancel_ok [of q now i q' b]
  by (intro quietI [of _ i]) (fastforce simp: is_backlog_def split: if_splits)+

text \<open>A step that is quiet on the queue and only uses up tasks and snapshots.\<close>

lemma good_quiet:
  assumes g: "good s" and q: "quiet (sy_queue s) (sy_queue s')"
    and spent: "\<And>i. spent s' i \<le> spent s i" and rep: "sy_reported s' = sy_reported s"
    and owed: "\<And>i. owed s' i + sy_raised s i \<le> owed s i + sy_raised s' i"
    and snap: "set (snapshots s') \<subseteq> set (snapshots s)" "distinct (map j_id (snapshots s'))"
  shows "good s'"
proof (rule goodI)
  show "ok (sy_queue s')" using q by (simp add: quiet_def)
  show "distinct (map j_id (snapshots s'))" by (rule snap(2))
next
  fix i j' assume "jq_get P i (sy_queue s') = Some j'"
  with q obtain j where j: "jq_get P i (sy_queue s) = Some j" "j_current_attempt j' = j_current_attempt j"
    "j_max_attempts j' = j_max_attempts j" "is_backlog j' \<longrightarrow> is_backlog j"
    unfolding quiet_def by blast
  have acc: "accounted s i j" by (rule goodD(3) [OF g j(1)])
  have "int (spent s' i) \<le> j_current_attempt j + (if is_backlog j then 0 else 1)"
    using acc spent [of i] unfolding accounted_def by linarith
  then have "int (spent s' i) \<le> j_current_attempt j' + (if is_backlog j' then 0 else 1)"
    using j(2,4) by (simp split: if_splits)
  moreover have "owed s' i \<le> sy_raised s' i" using acc owed [of i] unfolding accounted_def by linarith
  ultimately show "accounted s' i j'" using acc j(2-4) snap(1) rep unfolding accounted_def by auto
next
  fix i assume n: "jq_get P i (sy_queue s') = None"
  have none: "jq_get P i (sy_queue s) = None"
    using q n unfolding quiet_def by blast
  have un: "untouched s i" by (rule goodD(4) [OF g none])
  then have "spent s' i = 0" "sy_raised s i = 0" using spent [of i] by (auto simp: untouched_def spent_def)
  moreover from this have "sy_raised s' i = 0" by (simp add: spent_def)
  ultimately show "untouched s' i" using un owed [of i] snap(1) by (auto simp: untouched_def)
qed

text \<open>A failed attempt: the job moves on to its next attempt or is finished already.\<close>

lemma retry_cases:
  assumes "ok q" and q': "q' = jq_mark_retry_wait P now rnd i code detail delay q"
  shows "ok q'" "k \<noteq> i \<Longrightarrow> jq_get P k q' = jq_get P k q"
    "jq_get P i q = None \<Longrightarrow> jq_get P i q' = None"
    "jq_get P i q = Some j \<Longrightarrow> is_terminal (j_state j) \<Longrightarrow> jq_get P i q' = Some j"
    "jq_get P i q = Some j \<Longrightarrow> \<not> is_terminal (j_state j) \<Longrightarrow> \<exists>j'. jq_get P i q' = Some j' \<and>
      is_backlog j' \<and> j_current_attempt j' = j_current_attempt j + 1 \<and> j_max_attempts j' = j_max_attempts j"
proof -
  note r = retry_ok [OF assms(1), of now rnd i code detail delay]
  show "ok q'" "k \<noteq> i \<Longrightarrow> jq_get P k q' = jq_get P k q" "jq_get P i q = None \<Longrightarrow> jq_get P i q' = None"
    using r q' by blast+
  show "jq_get P i q = Some j \<Longrightarrow> is_terminal (j_state j) \<Longrightarrow> jq_get P i q' = Some j"
    using r q' by fastforce
  assume "jq_get P i q = Some j" "\<not> is_terminal (j_state j)"
  with r q' show "\<exists>j'. jq_get P i q' = Some j' \<and> is_backlog j' \<and>
      j_current_attempt j' = j_current_attempt j + 1 \<and> j_max_attempts j' = j_max_attempts j"
    by (auto simp: same_job_def is_backlog_def)
qed

text \<open>Writing back a failed dispatch.\<close>

lemma good_report:
  assumes g: "good s" and t: "sy_tasks s = ts @ To_Report job e # ts'"
    and q': "q' = jq_mark_retry_wait P now rnd (j_id job) code detail delay (sy_queue s)"
    and s': "s' = (count_stage P (To_Report job e) None s)\<lparr>sy_queue := q', sy_comfy := c', sy_tasks := ts @ ts'\<rparr>"
  shows "good s'"
proof -
  let ?i = "j_id job"
  note r = retry_cases [OF goodD(1) [OF g] q']
  have keep: "spent s' k = spent s k" "sy_raised s' = sy_raised s" "snapshots s' = snapshots s"
      "sy_queue s' = q'" for k
    by (auto simp: s' spent_def t snapshots_def split: option.splits)
  have other: "owed s' k = owed s k" "sy_reported s' k = sy_reported s k" if "k \<noteq> ?i" for k
    using that by (auto simp: s' owed_def t split: option.splits)
  have own: "owed s' ?i \<le> owed s ?i" by (auto simp: s' owed_def t split: option.splits)
  show ?thesis
  proof (rule goodI)
    show "ok (sy_queue s')" using r(1) keep by simp
    show "distinct (map j_id (snapshots s'))" using goodD(2) [OF g] keep by simp
  next
    fix k assume n: "jq_get P k (sy_queue s') = None"
    have "jq_get P k (sy_queue s) = None"
    proof (cases "jq_get P k (sy_queue s)")
      case (Some j)
      with n r(2,4,5) keep(4) show ?thesis
        by (cases "k = ?i"; cases "is_terminal (j_state j)") auto
    qed
    with goodD(4) [OF g this] own other keep show "untouched s' k"
      by (cases "k = ?i") (auto simp: untouched_def)
  next
    fix k j' assume j': "jq_get P k (sy_queue s') = Some j'"
    show "accounted s' k j'"
    proof (cases "k = ?i")
      case False
      with j' r(2) keep(4) have "accounted s k j'" using goodD(3) [OF g] by simp
      with False other keep show ?thesis by (simp add: accounted_def)
    next
      case True
      then obtain j where j: "jq_get P ?i (sy_queue s) = Some j"
        using j' r(3) keep(4) by (cases "jq_get P ?i (sy_queue s)") auto
      have acc: "accounted s ?i j" by (rule goodD(3) [OF g j])
      show ?thesis
      proof (cases "is_terminal (j_state j)")
        case t1: True
        have "j' = j" using r(4) [OF j t1] j' True keep(4) by simp
        moreover have "sy_reported s' = sy_reported s" using j t1 by (simp add: s')
        ultimately show ?thesis using acc own True keep by (simp add: accounted_def)
      next
        case t1: False
        obtain j2 where "jq_get P ?i q' = Some j2" "is_backlog j2" "j_current_attempt j2 = j_current_attempt j + 1"
          "j_max_attempts j2 = j_max_attempts j" using r(5) [OF j t1] by blast
        with j' True keep(4) have j2: "is_backlog j'" "j_current_attempt j' = j_current_attempt j + 1"
          "j_max_attempts j' = j_max_attempts j" by simp_all
        have "sy_reported s' ?i = Suc (sy_reported s ?i)" using j t1 by (simp add: s')
        moreover have "int (spent s ?i) \<le> j_current_attempt j + 1"
          using acc unfolding accounted_def by (simp split: if_splits)
        ultimately show ?thesis using acc own True keep j2 by (auto simp: accounted_def)
      qed
    qed
  qed
qed

text \<open>The write of the reconciler.\<close>

lemma good_write:
  assumes g: "good s" and jd: "sy_judged s = Some (job, v)"
    and s': "s' = s\<lparr>sy_judged := None, sy_queue := apply_verdict P clk rnd (see (sy_queue s) job) v (sy_queue s)\<rparr>"
  shows "good s'"
proof -
  let ?q = "sy_queue s" and ?r = "see (sy_queue s) job"
  note okq = goodD(1) [OF g]
  have snap: "snapshots s = sy_pass s @ [job]" "snapshots s' = sy_pass s"
    by (simp_all add: snapshots_def jd s')
  have keep: "spent s' k = spent s k" "owed s' k = owed s k" "sy_raised s' = sy_raised s"
      "sy_reported s' = sy_reported s" for k by (simp_all add: s' spent_def owed_def)
  have dist: "distinct (map j_id (snapshots s'))" "j_id job \<notin> j_id ` set (snapshots s')"
    using goodD(2) [OF g] by (auto simp: snap)
  have quiet_case: "good s'" if "quiet ?q (sy_queue s')"
    by (rule good_quiet [OF g that]) (use dist(1) in \<open>auto simp: keep snap\<close>)
  have rid: "j_id ?r = j_id job"
    using see_either [of ?q job] get_id [OF okq] by auto
  show ?thesis
  proof (cases "\<exists>code detail. v = V_Fail_Or_Retry code detail \<and>
      is_retryable code (j_current_attempt ?r + 1) (j_max_attempts ?r)")
    case False
    have "quiet ?q (sy_queue s')"
      using False by (cases v) (auto simp: s' fail_or_retry_def Let_def quiet_refl quiet_succeeded quiet_renew
          quiet_failed okq)
    then show ?thesis by (rule quiet_case)
  next
    case True
    then obtain code detail where v: "v = V_Fail_Or_Retry code detail"
      and more: "j_current_attempt ?r + 1 < j_max_attempts ?r" by (auto simp: is_retryable_iff)
    with True obtain delay where q': "sy_queue s' = jq_mark_retry_wait P clk rnd (j_id job) code detail delay ?q"
      by (auto simp: s' fail_or_retry_def Let_def rid)
    note r = retry_cases [OF okq q']
    show ?thesis
    proof (rule goodI)
      fix k assume n: "jq_get P k (sy_queue s') = None"
      have "jq_get P k ?q = None"
      proof (cases "jq_get P k ?q")
        case (Some j)
        with n r(2,4,5) show ?thesis by (cases "k = j_id job"; cases "is_terminal (j_state j)") auto
      qed
      with goodD(4) [OF g this] keep show "untouched s' k" by (auto simp: untouched_def snap)
    next
      fix k j' assume j': "jq_get P k (sy_queue s') = Some j'"
      show "accounted s' k j'"
      proof (cases "k = j_id job \<and> (\<exists>j. jq_get P k ?q = Some j \<and> \<not> is_terminal (j_state j))")
        case False
        have "jq_get P k ?q = Some j'"
          using False j' r(2,3,4) by (cases "k = j_id job"; cases "jq_get P k ?q") auto
        from goodD(3) [OF g this] keep show ?thesis by (auto simp: accounted_def snap)
      next
        case True
        then obtain j where k: "k = j_id job" and j: "jq_get P k ?q = Some j" "\<not> is_terminal (j_state j)"
          by blast
        have acc: "accounted s k j" by (rule goodD(3) [OF g j(1)])
        have "j_current_attempt j - int (sy_reported s k) \<le> j_current_attempt ?r \<and> j_max_attempts ?r = j_max_attempts j"
          using see_either [of ?q job] acc j(1) k by (auto simp: accounted_def snap)
        with more have lim: "j_current_attempt j + 1 \<le> j_max_attempts j - 1 + int (sy_reported s k)" by linarith
        obtain j2 where "jq_get P k (sy_queue s') = Some j2" "is_backlog j2"
          "j_current_attempt j2 = j_current_attempt j + 1" "j_max_attempts j2 = j_max_attempts j"
          using r(5) j k by blast
        with j' have j2: "is_backlog j'" "j_current_attempt j' = j_current_attempt j + 1"
          "j_max_attempts j' = j_max_attempts j" by simp_all
        have "int (spent s k) \<le> j_current_attempt j + 1"
          using acc unfolding accounted_def by (simp split: if_splits)
        moreover have "\<forall>r \<in> set (snapshots s'). j_id r \<noteq> k" using dist(2) k by (metis imageI)
        ultimately show ?thesis using acc lim j2 keep by (simp add: accounted_def)
      qed
    qed (use r(1) dist(1) in simp_all)
  qed
qed

text \<open>A claim of one lane.\<close>

lemma tasks_with_claimed:
  assumes "distinct (map j_id cl)"
  shows "tasks_with (may_submit k) (map To_Running cl) = (if k \<in> j_id ` set cl then 1 else 0)"
    "tasks_with (to_report k) (map To_Running cl) = 0"
  using assms by (induction cl) auto

lemma good_claim:
  assumes g: "good s" and c: "claim_for_backend P st ow secs now backend cap (sy_queue s) = (q', cl)"
    and s': "s' = s\<lparr>sy_queue := q', sy_tasks := sy_tasks s @ map To_Running cl\<rparr>"
  shows "good s'"
proof (cases "cap \<le> 0")
  case True
  with c have "q' = sy_queue s" "cl = []" by (simp_all add: claim_for_backend_def)
  with g s' show ?thesis by simp
next
  case False
  with c have "jq_claim_with_lease P now cap ow secs (Some (kinds_for_backend backend))
      (max_active_jobs_per_user st) (sy_queue s) = (q', cl)" by (simp add: claim_for_backend_def)
  note cl = claim_ok [OF goodD(1) [OF g] this]
  have dist: "distinct (map j_id cl)" using cl by blast
  have keep: "owed s' k = owed s k" "sy_raised s' = sy_raised s" "sy_reported s' = sy_reported s"
    "snapshots s' = snapshots s" "spent s' k = spent s k + (if k \<in> j_id ` set cl then 1 else 0)" for k
    by (simp_all add: s' owed_def spent_def snapshots_def tasks_with_claimed [OF dist])
  have other: "jq_get P k q' = jq_get P k (sy_queue s)" if "k \<notin> j_id ` set cl" for k using cl that by blast
  have claimed: "\<exists>j0 j1. jq_get P k (sy_queue s) = Some j0 \<and> is_backlog j0 \<and> jq_get P k q' = Some j1 \<and>
      \<not> is_backlog j1 \<and> j_current_attempt j1 = j_current_attempt j0 \<and> j_max_attempts j1 = j_max_attempts j0"
    if k: "k \<in> j_id ` set cl" for k
  proof -
    from k obtain j where j: "j \<in> set cl" "k = j_id j" by blast
    with cl obtain j0 j1 where "jq_get P k (sy_queue s) = Some j0" "is_backlog j0" "jq_get P k q' = Some j1"
      "same_job j0 j1" "j_state j1 = Dispatched" "j_current_attempt j1 = j_current_attempt j0" by blast
    then show ?thesis by (intro exI [of _ j0] exI [of _ j1]) (simp add: same_job_def is_backlog_def)
  qed
  show ?thesis
  proof (rule goodI)
    show "ok (sy_queue s')" using cl by (simp add: s')
    show "distinct (map j_id (snapshots s'))" using goodD(2) [OF g] keep by simp
  next
    fix k assume "jq_get P k (sy_queue s') = None"
    then have n: "jq_get P k q' = None" by (simp add: s')
    then have new: "k \<notin> j_id ` set cl" using claimed by fastforce
    then have "jq_get P k (sy_queue s) = None" using other n by simp
    with new goodD(4) [OF g] keep show "untouched s' k" by (simp add: untouched_def)
  next
    fix k j' assume j': "jq_get P k (sy_queue s') = Some j'"
    show "accounted s' k j'"
    proof (cases "k \<in> j_id ` set cl")
      case False
      with other j' have "jq_get P k (sy_queue s) = Some j'" by (simp add: s')
      from goodD(3) [OF g this] False keep show ?thesis by (simp add: accounted_def)
    next
      case True
      with claimed j' obtain j0 where j0: "jq_get P k (sy_queue s) = Some j0" "is_backlog j0" "\<not> is_backlog j'"
        "j_current_attempt j' = j_current_attempt j0" "j_max_attempts j' = j_max_attempts j0"
        by (force simp: s')
      from goodD(3) [OF g j0(1)] j0 True keep show ?thesis by (simp add: accounted_def)
    qed
  qed
qed

lemma good_admit:
  assumes g: "good s" and new: "jq_get P nid (sy_queue s) = None"
    and a: "admit_generation_job E P st now nid u wn wv inputs ikey conv (sy_queue s) = Inr (r, q')"
  shows "good (s\<lparr>sy_queue := q'\<rparr>)"
proof (rule admit_cases [OF a])
  let ?s = "s\<lparr>sy_queue := q'\<rparr>"
  fix w inputs'
  let ?job = "new_queued_job nid u wn Queued 0 0 inputs' ikey now conv"
  have keep: "owed ?s k = owed s k" "snapshots ?s = snapshots s" "spent ?s k = spent s k"
    "sy_raised ?s = sy_raised s" "sy_reported ?s = sy_reported s" for k
    by (simp_all add: owed_def spent_def snapshots_def)
  assume "(\<exists>j. jq_find_by_idempotency_key P u ikey wn (sy_queue s) = Some j \<and>
           payload_hash E (j_input_payload j) = payload_hash E inputs' \<and>
           ar_replayed r \<and> ar_id r = j_id j \<and> q' = sy_queue s) \<or>
         (jq_find_by_idempotency_key P u ikey wn (sy_queue s) = None \<and> check_caps P st u conv (sy_queue s) = None \<and>
          \<not> ar_replayed r \<and> ar_id r = nid \<and> jq_enqueue P now ?job (sy_queue s) = Inr q')"
  then consider "q' = sy_queue s" | "jq_enqueue P now ?job (sy_queue s) = Inr q'" by blast
  then show "good ?s"
  proof cases
    case 2
    with enqueue_ok [OF goodD(1) [OF g], of ?job now q'] new obtain j1 where e: "ok q'"
      "jq_get P nid q' = Some j1" "same_job ?job j1" "j_state j1 = Queued" "j_current_attempt j1 = 0"
      "\<And>i. i \<noteq> nid \<Longrightarrow> jq_get P i q' = jq_get P i (sy_queue s)" by (auto simp: new_queued_job_def)
    have un: "untouched s nid" by (rule goodD(4) [OF g new])
    show ?thesis
    proof (rule goodI)
      fix k j assume j: "jq_get P k (sy_queue ?s) = Some j"
      show "accounted ?s k j"
      proof (cases "k = nid")
        case True
        with j e(2) have "j = j1" by simp
        moreover have "j_max_attempts j1 = 3" using e(3) by (simp add: same_job_def new_queued_job_def)
        ultimately show ?thesis using True un e(4,5) keep
          by (auto simp: accounted_def untouched_def owed_def is_backlog_def)
      next
        case False
        with j e(6) have "accounted s k j" using goodD(3) [OF g] by simp
        with keep show ?thesis by (simp add: accounted_def)
      qed
    next
      fix k assume n: "jq_get P k (sy_queue ?s) = None"
      with e(2) have "k \<noteq> nid" by auto
      with n e(6) have "untouched s k" using goodD(4) [OF g] by simp
      with keep show "untouched ?s k" by (simp add: untouched_def)
    qed (use e(1) goodD(2) [OF g] keep in simp_all)
  qed (use g in simp)
qed

lemma good_pass:
  assumes g: "good s" and "sy_pass s = []" "sy_judged s = None"
  shows "good (s\<lparr>sy_pass := jq_list_active P (sy_queue s)\<rparr>)"
proof (rule goodI)
  let ?s = "s\<lparr>sy_pass := jq_list_active P (sy_queue s)\<rparr>"
  note act = list_active_ok [OF goodD(1) [OF g]]
  have snap: "snapshots ?s = jq_list_active P (sy_queue s)" using assms(3) by (simp add: snapshots_def)
  have keep: "owed ?s k = owed s k" "spent ?s k = spent s k" for k by (simp_all add: owed_def spent_def)
  show "ok (sy_queue ?s)" using goodD(1) [OF g] by simp
  show "distinct (map j_id (snapshots ?s))" using act snap by simp
  show "accounted ?s i j" if "jq_get P i (sy_queue ?s) = Some j" for i j
  proof -
    have "jq_get P (j_id r) (sy_queue s) = Some r" if "r \<in> set (snapshots ?s)" for r using act snap that by auto
    with that goodD(3) [OF g, of i j] keep show ?thesis by (auto simp: accounted_def)
  qed
  show "untouched ?s i" if "jq_get P i (sy_queue ?s) = None" for i
  proof -
    have "i \<notin> j_id ` set (snapshots ?s)" using act snap that by auto
    with that goodD(4) [OF g, of i] keep show ?thesis by (simp add: untouched_def)
  qed
qed

text \<open>A stage of a dispatch task.\<close>

lemma good_task:
  assumes g: "good s" and t: "sy_tasks s = ts @ t # ts'"
    and d: "dispatch_stage P C now rnd t (sy_queue s) (sy_comfy s) = (q', c', nxt)"
    and s': "s' = (count_stage P t nxt s)\<lparr>sy_queue := q', sy_comfy := c', sy_tasks := ts @ opt_list nxt @ ts'\<rparr>"
  shows "good s'"
proof -
  note okq = goodD(1) [OF g]
  have snap: "snapshots s' = snapshots s" by (simp add: s' snapshots_def count_stage_frame)
  have quiet_case: "good s'" if "quiet (sy_queue s) q'" "\<nexists>j e. t = To_Report j e"
    "\<And>i. spent s' i \<le> spent s i" "sy_reported s' = sy_reported s"
    "\<And>i. owed s' i + sy_raised s i \<le> owed s i + sy_raised s' i"
    by (rule good_quiet [OF g]) (use that snap goodD(2) [OF g] in \<open>simp_all add: s'\<close>)
  show ?thesis
  proof (cases t)
    case (To_Running job)
    with d have e: "q' = jq_mark_running P now (j_id job) (sy_queue s)" "nxt = Some (To_Submit job)" by simp_all
    show ?thesis
      by (rule quiet_case) (auto simp: s' e To_Running t quiet_running okq spent_def owed_def)
  next
    case (To_Submit job)
    obtain res c2 where sub: "cc_submit C (j_input_payload job) (Some (j_kind job)) (sy_comfy s) = (res, c2)" by force
    show ?thesis
    proof (cases res)
      case (Inl e)
      with d sub To_Submit have e: "q' = sy_queue s" "nxt = Some (To_Report job e)" by simp_all
      show ?thesis
        by (rule quiet_case) (auto simp: s' e To_Submit t quiet_refl okq spent_def owed_def tally_def)
    next
      case (Inr pid)
      with d sub To_Submit have e: "q' = sy_queue s" "nxt = Some (To_Record job pid)" by simp_all
      show ?thesis
        by (rule quiet_case) (auto simp: s' e To_Submit t quiet_refl okq spent_def owed_def tally_def)
    qed
  next
    case (To_Record job pid)
    with d have e: "q' = jq_set_prompt_id P (j_id job) pid (sy_queue s)" "nxt = None" by simp_all
    show ?thesis
      by (rule quiet_case) (auto simp: s' e To_Record t quiet_prompt okq spent_def owed_def)
  next
    case (To_Report job e)
    with d have "q' = jq_mark_retry_wait P now rnd (j_id job) ''worker_unreachable''
        (Some (''dispatch_error:'' @ e)) None (sy_queue s)" "nxt = None" by simp_all
    with good_report [OF g _ this(1)] t To_Report s' show ?thesis by simp
  qed
qed

lemma good_step: "sys_step P C st see s s' \<Longrightarrow> good s \<Longrightarrow> good s'"
proof (induction rule: sys_step.induct)
  case (step_admit nid s E now u wn wv inputs ikey conv r q')
  then show ?case by (rule good_admit [rotated])
next
  case (step_cancel now i s q' b)
  have "quiet (sy_queue s) q'" by (rule quiet_cancel [OF goodD(1) [OF step_cancel.prems] step_cancel.hyps])
  then show ?case
    by (intro good_quiet [OF step_cancel.prems])
      (use goodD(2) [OF step_cancel.prems] in \<open>simp_all add: spent_def owed_def snapshots_def\<close>)
next
  case (step_claim ow secs now backend cap s q' cl)
  then show ?case by (intro good_claim [OF _ _ refl]) simp_all
next
  case (step_task s ts t ts' now rnd q' c' nxt)
  then show ?case by (intro good_task [OF _ _ _ refl]) simp_all
next
  case (step_pass s)
  then show ?case by (intro good_pass)
next
  case (step_judge s job rest now res c')
  then have "snapshots s = job # rest" by (simp add: snapshots_def)
  moreover have "set (map fst (opt_list (case res of Inl e \<Rightarrow> None | Inr v \<Rightarrow> Some (job, v)))) \<subseteq> {job}"
    "length (opt_list (case res of Inl e \<Rightarrow> None | Inr v \<Rightarrow> Some (job, v))) \<le> 1"
    by (simp_all split: sum.split)
  ultimately show ?case
    by (intro good_quiet [OF step_judge.prems])
      (use goodD(1,2) [OF step_judge.prems] in \<open>auto simp: spent_def owed_def snapshots_def quiet_refl split: sum.split\<close>)
next
  case (step_write s job v clk rnd)
  then show ?case by (intro good_write [OF _ _ refl]) simp_all
next
  case (step_scheduler_dies s ts t ts')
  then show ?case
    by (intro good_quiet [OF step_scheduler_dies.prems])
      (use goodD(1,2) [OF step_scheduler_dies.prems] in \<open>auto simp: spent_def owed_def snapshots_def quiet_refl\<close>)
next
  case (step_reconciler_dies s)
  then show ?case
    by (intro good_quiet [OF step_reconciler_dies])
      (use goodD(1,2) [OF step_reconciler_dies] in \<open>auto simp: spent_def owed_def snapshots_def quiet_refl\<close>)
qed

lemma reach_good:
  "sys_reach P C st see s0 s \<Longrightarrow> good s0 \<Longrightarrow> good s"
  by (induction rule: sys_reach.induct) (simp_all add: good_step)

lemma good_init: "ok q \<Longrightarrow> (\<And>i. jq_get P i q = None) \<Longrightarrow> good (sys_init q c)"
  by (rule goodI) (simp_all add: sys_init_def snapshots_def untouched_def spent_def owed_def)

lemma submissions_bounded:
  assumes "ok q" "\<And>i. jq_get P i q = None" "sys_reach P C st see (sys_init q c) s"
    and "jq_get P i (sy_queue s) = Some j"
  shows "int (sy_accepted s i) \<le> max 0 (j_max_attempts j)"
    "j_current_attempt j < j_max_attempts j + int (sy_raised s i)"
proof -
  have "accounted s i j"
    by (rule goodD(3) [OF reach_good [OF assms(3) good_init [OF assms(1,2)]] assms(4)])
  then have "int (spent s i) \<le> j_current_attempt j + 1" "j_current_attempt j < j_max_attempts j + int (sy_reported s i)"
    "sy_reported s i \<le> sy_raised s i"
    unfolding accounted_def owed_def by (simp_all split: if_splits)
  then show "int (sy_accepted s i) \<le> max 0 (j_max_attempts j)"
    "j_current_attempt j < j_max_attempts j + int (sy_raised s i)"
    by (simp_all add: spent_def)
qed

end

interpretation mem_sys: platform mem_port mem_ok mem_see
  by unfold_locales (simp add: mem_see_def split: option.split)

interpretation pg_sys: platform "pg_port locked" pg_ok pg_see for locked
  by unfold_locales (simp add: pg_see_def)

subsection \<open>Runs of one job\<close>

text \<open>A queue that holds one job, and what a claim of its lane and each stage make of it.\<close>

definition one_job :: "queued_job \<Rightarrow> mem_queue" where
  "one_job j = \<lparr>mq_jobs = [(j_id j, j)], mq_order = [j_id j]\<rparr>"

definition claimed_job :: "string \<Rightarrow> time \<Rightarrow> queued_job \<Rightarrow> queued_job" where
  "claimed_job ow ex j = j\<lparr>j_state := Dispatched, j_lease_owner := Some ow, j_lease_expires_at := Some ex\<rparr>"

lemma one_job_get [simp]: "mem_get i (one_job j) = (if i = j_id j then Some j else None)"
  by (simp add: mem_get_def one_job_def)

lemma one_job_claim:
  assumes "is_backlog j" "j_kind j \<in> set (kinds_for_backend b)" "0 < cap" "0 < max_active_jobs_per_user st"
    and "\<forall>t. j_available_at j = Some t \<longrightarrow> t \<le> now"
  shows "claim_for_backend mem_port st ow secs now b cap (one_job j) =
    (one_job (claimed_job ow (now + timedelta_us secs) j), [claimed_job ow (now + timedelta_us secs) j])"
proof -
  have "mem_candidates now (Some (kinds_for_backend b)) (one_job j) = [j]"
    using assms(1,2,5) by (auto simp: mem_candidates_def one_job_def kind_in_def split: option.split)
  moreover have "mem_active_counts m (one_job j) = []" for m
    using assms(1) by (auto simp: mem_active_counts_def one_job_def)
  ultimately show ?thesis using assms(3,4)
    by (simp add: claim_for_backend_def mem_claim_next_with_lease_def mem_claim_next_def count_of_def
        Let_def on_jobs_def claimed_job_def) (simp add: one_job_def)
qed

lemma one_job_running: "mem_mark_running (j_id j) (one_job j) = one_job (j\<lparr>j_state := Running, j_prompt_id := None\<rparr>)"
  by (simp add: mem_mark_running_def one_job_def on_jobs_def dmem_iff_dget)

lemma one_job_prompt: "mem_set_prompt_id (j_id j) pid (one_job j) = one_job (j\<lparr>j_prompt_id := Some pid\<rparr>)"
  by (simp add: mem_set_prompt_id_def one_job_def on_jobs_def dmem_iff_dget)

lemma one_job_retry:
  "\<not> is_terminal (j_state j) \<Longrightarrow> mem_mark_retry_wait now rnd (j_id j) code detail None (one_job j) =
     one_job (j\<lparr>j_state := RetryWait, j_error_code := Some code, j_error_detail := detail,
       j_current_attempt := j_current_attempt j + 1, j_lease_owner := None, j_lease_expires_at := None,
       j_available_at := Some (now + timedelta_us
         (compute_backoff_seconds (j_current_attempt j + 1) default_backoff rnd))\<rparr>)"
  by (simp add: mem_mark_retry_wait_def one_job_def on_jobs_def Let_def)

lemma reach_task:
  "sys_reach P C st see s0 s \<Longrightarrow> sy_tasks s = [t] \<Longrightarrow>
    dispatch_stage P C now rnd t (sy_queue s) (sy_comfy s) = (q', c', nxt) \<Longrightarrow>
    sys_reach P C st see s0 ((count_stage P t nxt s)\<lparr>sy_queue := q', sy_comfy := c', sy_tasks := opt_list nxt\<rparr>)"
  using step_task [of s "[]" t "[]" P C now rnd q' c' nxt st see] by (auto intro: reach_step)

text \<open>The run up to the answer of the renderer: the job is claimed, running and submitted.\<close>

definition idle :: "(mem_queue, 'c) sys \<Rightarrow> queued_job \<Rightarrow> bool" where
  "idle s j \<longleftrightarrow> sy_queue s = one_job j \<and> sy_tasks s = [] \<and> is_backlog j"

lemma run_to_submit:
  assumes "sys_reach mem_port C st see s0 s" "idle s j" "j_kind j \<in> set (kinds_for_backend b)"
    and "0 < max_active_jobs_per_user st" "\<forall>t. j_available_at j = Some t \<longrightarrow> t \<le> now"
  defines "jr \<equiv> claimed_job ''s'' (now + timedelta_us 120) j"
  shows "sys_reach mem_port C st see s0 (s\<lparr>sy_queue := one_job (jr\<lparr>j_state := Running, j_prompt_id := None\<rparr>),
      sy_tasks := [To_Submit jr]\<rparr>)"
proof -
  let ?jr = "claimed_job ''s'' (now + timedelta_us 120) j"
  from assms(2) have s: "sy_queue s = one_job j" "sy_tasks s = []" "is_backlog j" by (simp_all add: idle_def)
  have cl: "claim_for_backend mem_port st ''s'' 120 now b 1 (sy_queue s) = (one_job ?jr, [?jr])"
    unfolding s(1) by (rule one_job_claim [OF s(3) assms(3) _ assms(4,5)]) simp
  have r1: "sys_reach mem_port C st see s0 (s\<lparr>sy_queue := one_job ?jr, sy_tasks := [To_Running ?jr]\<rparr>)"
    using reach_step [OF assms(1) step_claim [OF cl]] s(2) by simp
  have "dispatch_stage mem_port C now 0 (To_Running ?jr) (one_job ?jr) (sy_comfy s) =
      (one_job (?jr\<lparr>j_state := Running, j_prompt_id := None\<rparr>), sy_comfy s, Some (To_Submit ?jr))"
    by (simp add: one_job_running)
  with reach_task [OF r1, of "To_Running ?jr" now 0] show ?thesis by (simp add: jr_def)
qed

text \<open>A renderer that cannot be reached.\<close>

definition refusing_client :: "unit comfy_client" where
  "refusing_client = \<lparr>cc_submit = (\<lambda>payload kd c. (Inl ''ConnectError'', c)),
     cc_get_status = (\<lambda>pid c. (Inl ''ConnectError'', c)), cc_cancel = (\<lambda>pid c. (Inl ''ConnectError'', c)),
     cc_health = (\<lambda>c. (Inr False, c))\<rparr>"

lemma round_fails:
  assumes "sys_reach mem_port refusing_client st see s0 s" "idle s j" "j_kind j \<in> set (kinds_for_backend b)"
    and "0 < max_active_jobs_per_user st"
  shows "\<exists>s' j'. sys_reach mem_port refusing_client st see s0 s' \<and> idle s' j' \<and> same_job j j' \<and>
    j_current_attempt j' = j_current_attempt j + 1"
proof -
  define now where "now = (case j_available_at j of None \<Rightarrow> 0 | Some t \<Rightarrow> t)"
  define jr where "jr = claimed_job ''s'' (now + timedelta_us 120) j"
  let ?run = "jr\<lparr>j_state := Running, j_prompt_id := None\<rparr>"
  let ?s1 = "s\<lparr>sy_queue := one_job ?run, sy_tasks := [To_Submit jr]\<rparr>"
  have av: "\<forall>t. j_available_at j = Some t \<longrightarrow> t \<le> now" by (simp add: now_def)
  have r1: "sys_reach mem_port refusing_client st see s0 ?s1"
    unfolding jr_def by (rule run_to_submit [OF assms av])
  have "dispatch_stage mem_port refusing_client now 0 (To_Submit jr) (sy_queue ?s1) (sy_comfy ?s1) =
      (one_job ?run, sy_comfy s, Some (To_Report jr ''ConnectError''))" by (simp add: refusing_client_def)
  from reach_task [OF r1 _ this] obtain s2 where r2: "sys_reach mem_port refusing_client st see s0 s2"
    and s2: "sy_queue s2 = one_job ?run" "sy_tasks s2 = [To_Report jr ''ConnectError'']" by fastforce
  have jid: "j_id jr = j_id ?run" by simp
  obtain j' where j': "mem_mark_retry_wait now 0 (j_id jr) ''worker_unreachable''
      (Some (''dispatch_error:'' @ ''ConnectError'')) None (one_job ?run) = one_job j'"
    "j_state j' = RetryWait" "same_job ?run j'" "j_current_attempt j' = j_current_attempt jr + 1"
    by (rule that [OF one_job_retry [of ?run now 0, folded jid]]) (simp_all add: same_job_def)
  from j'(1) have d: "dispatch_stage mem_port refusing_client now 0 (To_Report jr ''ConnectError'') (sy_queue s2)
      (sy_comfy s2) = (one_job j', sy_comfy s2, None)" by (simp add: s2)
  from reach_task [OF r2 s2(2) d] obtain s3 where "sys_reach mem_port refusing_client st see s0 s3"
    "sy_queue s3 = one_job j'" "sy_tasks s3 = []" by fastforce
  moreover have "same_job j j'" "j_current_attempt j' = j_current_attempt j + 1"
    using j'(3,4) by (simp_all add: jr_def claimed_job_def same_job_def)
  ultimately show ?thesis using j'(2) by (auto simp: idle_def is_backlog_def)
qed

lemma rounds_fail:
  assumes "sys_reach mem_port refusing_client st see s0 s" "idle s j" "j_kind j \<in> set (kinds_for_backend b)"
    and "0 < max_active_jobs_per_user st"
  shows "\<exists>s' j'. sys_reach mem_port refusing_client st see s0 s' \<and> idle s' j' \<and> same_job j j' \<and>
    j_current_attempt j' = j_current_attempt j + int n"
proof (induction n)
  case 0
  from assms(1,2) show ?case by (intro exI [of _ s] exI [of _ j]) simp
next
  case (Suc n)
  then obtain s1 j1 where s1: "sys_reach mem_port refusing_client st see s0 s1" "idle s1 j1" "same_job j j1"
    "j_current_attempt j1 = j_current_attempt j + int n" by blast
  have "j_kind j1 \<in> set (kinds_for_backend b)" using assms(3) s1(3) by (simp add: same_job_def)
  from round_fails [OF s1(1,2) this assms(4)] obtain s2 j2 where
    "sys_reach mem_port refusing_client st see s0 s2" "idle s2 j2" "same_job j1 j2"
    "j_current_attempt j2 = j_current_attempt j1 + 1" by blast
  with s1(3,4) same_job_trans [OF s1(3)] show ?case by (auto intro!: exI [of _ s2] exI [of _ j2])
qed

text \<open>The example: a poster admitted to the empty in-memory queue.\<close>

definition poster_job :: queued_job where
  "poster_job = new_queued_job 1 7 ''poster_infographic'' Queued 0 0 poster_request ''key'' 5 None"

lemma poster_facts [simp]:
  "j_id poster_job = 1" "is_backlog poster_job" "j_current_attempt poster_job = 0"
  "j_max_attempts poster_job = 3" "j_available_at poster_job = None" "j_kind poster_job = ''poster_infographic''"
  "0 < max_active_jobs_per_user small_settings" "''poster_infographic'' \<in> set (kinds_for_backend ''gemini'')"
  by (simp_all add: poster_job_def new_queued_job_def is_backlog_def small_settings_def default_settings_def
      kinds_for_backend_def REGISTRY_def)

lemma poster_admitted:
  "\<exists>s. sys_reach mem_port C small_settings see (sys_init mem_init c) s \<and> idle s poster_job \<and> sy_accepted s = (\<lambda>_. 0)
     \<and> sy_comfy s = c"
proof -
  from admit_poster obtain r where a: "admit_generation_job plain_env mem_port small_settings 5 1 7
      ''poster_infographic'' ''v1'' poster_request ''key'' None (sy_queue (sys_init mem_init c)) =
    Inr (r, one_job poster_job)"
    by (auto simp: sys_init_def poster_job_def one_job_def mem_enqueue_def mem_init_def)
  have n: "jq_get mem_port 1 (sy_queue (sys_init mem_init c)) = None"
    by (simp add: sys_init_def mem_get_def mem_init_def)
  show ?thesis
    by (intro exI conjI, rule reach_step [OF reach_start step_admit [OF n a]])
      (simp_all add: sys_init_def idle_def)
qed

lemma poster_accepted:
  assumes sub: "\<And>payload kd. \<exists>pid c'. cc_submit C payload kd c = (Inr pid, c')"
  shows "\<exists>s j. sys_reach mem_port C small_settings see (sys_init mem_init c) s \<and>
    mem_get 1 (sy_queue s) = Some j \<and> j_max_attempts j = 3 \<and> sy_accepted s 1 = 1"
proof -
  obtain s where s: "sys_reach mem_port C small_settings see (sys_init mem_init c) s" "idle s poster_job"
    "sy_accepted s = (\<lambda>_. 0)" "sy_comfy s = c" using poster_admitted [of C see c] by blast
  define jr where "jr = claimed_job ''s'' (5 + timedelta_us 120) poster_job"
  have id: "j_id jr = 1" "j_max_attempts jr = 3" by (simp_all add: jr_def claimed_job_def)
  let ?s1 = "s\<lparr>sy_queue := one_job (jr\<lparr>j_state := Running, j_prompt_id := None\<rparr>), sy_tasks := [To_Submit jr]\<rparr>"
  have r1: "sys_reach mem_port C small_settings see (sys_init mem_init c) ?s1"
    unfolding jr_def by (rule run_to_submit [OF s(1,2), of "''gemini''"]) simp_all
  obtain pid c' where "cc_submit C (j_input_payload jr) (Some (j_kind jr)) c = (Inr pid, c')" using sub by blast
  then have d: "dispatch_stage mem_port C 5 0 (To_Submit jr) (sy_queue ?s1) (sy_comfy ?s1) =
      (sy_queue ?s1, c', Some (To_Record jr pid))" by (simp add: s(4))
  have "sy_tasks ?s1 = [To_Submit jr]" by simp
  note r2 = reach_task [OF r1 this d]
  show ?thesis
    by (rule exI, rule exI [of _ "jr\<lparr>j_state := Running, j_prompt_id := None\<rparr>"], intro conjI, rule r2)
      (simp_all add: id s(3))
qed

subsection \<open>Properties\<close>



text \<open>The same for the in-memory queue, where the reconciler sees the live job objects and
  \<open>mark_running\<close> has no guard.\<close>

theorem accepted_submissions_bounded_memory:
  assumes "sys_reach mem_port C st mem_see (sys_init mem_init c) s" and "mem_get i (sy_queue s) = Some j"
  shows "int (sy_accepted s i) \<le> max 0 (j_max_attempts j) \<and>
    j_current_attempt j < j_max_attempts j + int (sy_raised s i)"
proof -
  have "jq_get mem_port i mem_init = None" for i by (simp add: mem_get_def mem_init_def)
  moreover have "jq_get mem_port i (sy_queue s) = Some j" using assms(2) by simp
  ultimately show ?thesis using mem_sys.submissions_bounded [OF mem_ok_init _ assms(1)] by blast
qed

theorem accepted_submissions_bounded_memory_witness:
  "\<exists>s. sys_reach mem_port (mock_port (\<lambda>_. []) id) small_settings mem_see (sys_init mem_init example_mock) s \<and>
    sy_accepted s 1 = 1 \<and> int (sy_accepted s 1) \<le> 3"
proof -
  have "\<exists>pid c'. cc_submit (mock_port (\<lambda>_. []) id) payload kd example_mock = (Inr pid, c')" for payload kd
    by (simp add: mock_port_def mock_submit_def Let_def)
  from poster_accepted [OF this] obtain s j where
    "sys_reach mem_port (mock_port (\<lambda>_. []) id) small_settings mem_see (sys_init mem_init example_mock) s"
    "mem_get 1 (sy_queue s) = Some j" "j_max_attempts j = 3" "sy_accepted s 1 = 1" by blast
  with accepted_submissions_bounded_memory [OF this(1,2)] show ?thesis by auto
qed


end
