(* ===== verification/Py_Uuid.thy ===== *)
theory Py_Uuid
  imports Prelude
begin

section \<open>The text of UUIDs and the errors of the HTTP layer\<close>

text \<open>
  Every id travels as text: \<open>str(u)\<close> in responses and ownership checks, \<open>uuid.UUID(s)\<close> on the
  way in. Both are Python's, \<open>UUID\<close> with all it accepts: braces, the \<open>urn:uuid:\<close> prefix, dashes
  anywhere, and whatever \<open>int(s, 16)\<close> reads. The \<open>HTTPException\<close> of FastAPI is a record.
\<close>

subsection \<open>Hexadecimal numbers\<close>

definition hex_char :: "nat \<Rightarrow> char" where
  "hex_char d = (if d < 10 then char_of (48 + d) else char_of (87 + d))"

definition hex_val :: "char \<Rightarrow> nat option" where
  "hex_val c = (let n = of_char c :: nat in
     if 48 \<le> n \<and> n \<le> 57 then Some (n - 48)
     else if 97 \<le> n \<and> n \<le> 102 then Some (n - 87)
     else if 65 \<le> n \<and> n \<le> 70 then Some (n - 55) else None)"

text \<open>\<open>'%0kx' % n\<close> for a number of at most \<open>k\<close> digits.\<close>

fun hex_digits :: "nat \<Rightarrow> nat \<Rightarrow> string" where
  "hex_digits 0 n = []"
| "hex_digits (Suc k) n = hex_digits k (n div 16) @ [hex_char (n mod 16)]"

fun parse_hex_digits :: "string \<Rightarrow> nat \<Rightarrow> bool \<Rightarrow> nat option" where
  "parse_hex_digits [] acc after_digit = (if after_digit then Some acc else None)"
| "parse_hex_digits (c # cs) acc after_digit =
     (case hex_val c of
        Some d \<Rightarrow> parse_hex_digits cs (16 * acc + d) True
      | None \<Rightarrow> if c = CHR ''_'' \<and> after_digit then parse_hex_digits cs acc False else None)"

text \<open>\<open>int(s, 16)\<close>: white space around, a sign, the prefix \<open>0x\<close>, single underscores.\<close>

definition parse_int16 :: "string \<Rightarrow> int option" where
  "parse_int16 s =
     (let (sg, ds) = split_sign (py_strip s);
          prefixed = starts_with ''0x'' ds \<or> starts_with ''0X'' ds
      in map_option (\<lambda>n. sg * int n)
           (if prefixed then parse_hex_digits (drop 2 ds) 0 True else parse_hex_digits ds 0 False))"

subsection \<open>\<open>str(u)\<close> and \<open>uuid.UUID(s)\<close>\<close>

definition uuid_text :: "uuid \<Rightarrow> string" where
  "uuid_text u = (let h = hex_digits 32 u in
     take 8 h @ ''-'' @ take 4 (drop 8 h) @ ''-'' @ take 4 (drop 12 h) @ ''-'' @ take 4 (drop 16 h) @ ''-'' @ drop 20 h)"

definition strip_chars :: "char list \<Rightarrow> string \<Rightarrow> string" where
  "strip_chars cs s = rev (dropWhile (\<lambda>c. c \<in> set cs) (rev (dropWhile (\<lambda>c. c \<in> set cs) s)))"

text \<open>\<open>None\<close> is the \<open>ValueError\<close>.\<close>

definition parse_uuid :: "string \<Rightarrow> uuid option" where
  "parse_uuid s =
     (let h = filter (\<lambda>c. c \<noteq> CHR ''-'')
                (strip_chars ''{}'' (py_replace ''uuid:'' [] (py_replace ''urn:'' [] s)))
      in if length h \<noteq> 32 then None
         else (case parse_int16 h of
             None \<Rightarrow> None
           | Some i \<Rightarrow> if 0 \<le> i \<and> i < 2 ^ 128 then Some (nat i) else None))"

subsection \<open>Round trip\<close>

lemma hex_val_char [simp]: "d < 16 \<Longrightarrow> hex_val (hex_char d) = Some d"
  by (simp add: hex_val_def hex_char_def Let_def)

lemma length_hex_digits [simp]: "length (hex_digits k n) = k"
  by (induction k n rule: hex_digits.induct) simp_all

definition is_hex :: "char \<Rightarrow> bool" where
  "is_hex c \<longleftrightarrow> c \<in> set ''0123456789abcdef''"

lemma is_hex_char [simp]: "d < 16 \<Longrightarrow> is_hex (hex_char d)"
proof -
  have "\<forall>d \<in> set [0..<16]. is_hex (hex_char d)" by code_simp
  then show "d < 16 \<Longrightarrow> is_hex (hex_char d)" by simp
qed

lemma is_hexD:
  "is_hex c \<Longrightarrow> \<not> is_space c \<and> c \<noteq> CHR ''-'' \<and> c \<noteq> CHR ''+'' \<and> c \<noteq> CHR ''x'' \<and> c \<noteq> CHR ''X'' \<and>
    c \<noteq> CHR ''u'' \<and> c \<notin> set ''{}'' \<and> hex_val c \<noteq> None"
proof -
  have "\<forall>c \<in> set ''0123456789abcdef''. \<not> is_space c \<and> c \<noteq> CHR ''-'' \<and> c \<noteq> CHR ''+'' \<and> c \<noteq> CHR ''x'' \<and>
      c \<noteq> CHR ''X'' \<and> c \<noteq> CHR ''u'' \<and> c \<notin> set ''{}'' \<and> hex_val c \<noteq> None" by code_simp
  then show "is_hex c \<Longrightarrow> ?thesis" unfolding is_hex_def by blast
qed

lemma hex_digits_hex: "c \<in> set (hex_digits k n) \<Longrightarrow> is_hex c"
  by (induction k n rule: hex_digits.induct) (auto simp del: is_hex_char intro: is_hex_char)

lemma parse_hex_snoc:
  "parse_hex_digits xs a b = Some m \<Longrightarrow> d < 16 \<Longrightarrow> \<forall>c \<in> set xs. is_hex c \<Longrightarrow>
    parse_hex_digits (xs @ [hex_char d]) a b = Some (16 * m + d)"
proof (induction xs arbitrary: a b)
  case (Cons x xs)
  then obtain v where "hex_val x = Some v" using is_hexD by fastforce
  with Cons show ?case by simp
qed (simp split: if_splits)

lemma parse_hex_hex_digits: "n < 16 ^ Suc k \<Longrightarrow> parse_hex_digits (hex_digits (Suc k) n) 0 False = Some n"
proof (induction k arbitrary: n)
  case (Suc k)
  have "n div 16 < 16 ^ Suc k"
    using Suc.prems by (simp add: less_mult_imp_div_less)
  from parse_hex_snoc [OF Suc.IH [OF this], of "n mod 16"]
  show ?case using hex_digits_hex by (simp only: hex_digits.simps) (simp add: hex_digits.simps(2))
qed simp

lemma hex_no_sign: "\<forall>c \<in> set h. is_hex c \<Longrightarrow> split_sign h = (1, h)"
  by (cases h) (auto simp: split_sign_def dest: is_hexD)

lemma hex_no_space: "\<forall>c \<in> set h. is_hex c \<Longrightarrow> py_strip h = h"
  by (rule py_strip_no_space) (auto dest: is_hexD)

lemma hex_no_prefix:
  "\<forall>c \<in> set h. is_hex c \<Longrightarrow> \<not> starts_with ''0x'' h \<and> \<not> starts_with ''0X'' h"
  by (cases h; cases "tl h") (auto dest: is_hexD)

lemma py_replace_absent: "(\<forall>c \<in> set s. c \<noteq> o1) \<Longrightarrow> py_replace (o1 # os) new s = s"
  by (induction s) auto

lemma strip_chars_absent: "\<forall>c \<in> set s. c \<notin> set cs \<Longrightarrow> strip_chars cs s = s"
proof -
  assume a: "\<forall>c \<in> set s. c \<notin> set cs"
  have "dropWhile (\<lambda>c. c \<in> set cs) xs = xs" if "set xs \<subseteq> set s" for xs
    using a that by (cases xs) auto
  then show "strip_chars cs s = s" by (simp add: strip_chars_def)
qed

lemma parse_uuid_text [simp]:
  assumes "u < 2 ^ 128" shows "parse_uuid (uuid_text u) = Some u"
proof -
  define h where "h = hex_digits 32 u"
  let ?h = h and ?t = "uuid_text u"
  have hex: "\<forall>c \<in> set ?h. is_hex c" using hex_digits_hex by (auto simp only: h_def)
  have t: "is_hex c \<or> c = CHR ''-''" if "c \<in> set ?t" for c
  proof -
    from that have "c \<in> set ?h \<or> c = CHR ''-''"
      by (auto simp: uuid_text_def Let_def simp flip: h_def dest: in_set_takeD in_set_dropD)
    with hex show ?thesis by auto
  qed
  have chars: "\<forall>c \<in> set ?t. c \<noteq> CHR ''u'' \<and> c \<notin> set ''{}''" using t is_hexD by fastforce
  have f: "filter (\<lambda>c. c \<noteq> CHR ''-'') xs = xs" if "set xs \<subseteq> set ?h" for xs
    using that hex is_hexD by (fastforce simp: filter_id_conv)
  have parts: "take 8 ?h @ take 4 (drop 8 ?h) @ take 4 (drop 12 ?h) @ take 4 (drop 16 ?h) @ drop 20 ?h = ?h"
  proof -
    have "take 4 (drop 16 ?h) @ drop 20 ?h = drop 16 ?h"
      using append_take_drop_id [of 4 "drop 16 ?h"] by simp
    moreover have "take 4 (drop 12 ?h) @ drop 16 ?h = drop 12 ?h"
      using append_take_drop_id [of 4 "drop 12 ?h"] by simp
    moreover have "take 4 (drop 8 ?h) @ drop 12 ?h = drop 8 ?h"
      using append_take_drop_id [of 4 "drop 8 ?h"] by simp
    ultimately show ?thesis by simp
  qed
  have fs: "filter (\<lambda>c. c \<noteq> CHR ''-'') (take n (drop m ?h)) = take n (drop m ?h)" 
    "filter (\<lambda>c. c \<noteq> CHR ''-'') (drop m ?h) = drop m ?h"
    "filter (\<lambda>c. c \<noteq> CHR ''-'') (take n ?h) = take n ?h" for n m
    by (rule f, meson order_trans set_drop_subset set_take_subset)+
  have "filter (\<lambda>c. c \<noteq> CHR ''-'') ?t = ?h"
    using parts by (simp add: uuid_text_def Let_def fs flip: h_def)
  moreover have "strip_chars ''{}'' (py_replace ''uuid:'' [] (py_replace ''urn:'' [] ?t)) = ?t"
    using chars by (simp add: py_replace_absent strip_chars_absent)
  moreover have "parse_int16 ?h = Some (int u)"
  proof -
    have "u < 16 ^ Suc 31" using assms by simp
    moreover have "Suc 31 = 32" by simp
    ultimately have "parse_hex_digits ?h 0 False = Some u" using parse_hex_hex_digits by (metis h_def)
    then show ?thesis
      using hex_no_prefix [OF hex] by (simp add: parse_int16_def hex_no_sign hex hex_no_space)
  qed
  moreover have "length ?h = 32" by (simp add: h_def)
  ultimately show ?thesis using assms by (simp add: parse_uuid_def)
qed

lemma uuid_text_eq_iff: "u < 2 ^ 128 \<Longrightarrow> v < 2 ^ 128 \<Longrightarrow> uuid_text u = uuid_text v \<longleftrightarrow> u = v"
  by (metis option.inject parse_uuid_text)

lemma parse_uuid_bound: "parse_uuid s = Some u \<Longrightarrow> u < 2 ^ 128"
  by (auto simp: parse_uuid_def Let_def split: option.splits if_splits)

subsection \<open>HTTP errors\<close>

record http_error =
  he_status :: int
  he_detail :: string
  he_retry_after :: "int option"

definition http :: "int \<Rightarrow> string \<Rightarrow> http_error" where
  "http status_code detail = \<lparr>he_status = status_code, he_detail = detail, he_retry_after = None\<rparr>"

definition not_found :: http_error where
  "not_found = http 404 ''not found''"

text \<open>An exception that no handler names: FastAPI answers 500.\<close>

definition unhandled :: "string \<Rightarrow> http_error" where
  "unhandled exc = http 500 exc"

end
