(* ===== verification/Jobs_Api.thy ===== *)
theory Jobs_Api
  imports Admission Storage Py_Uuid Py_Json
begin

section \<open>The job endpoints (api/v1/jobs.py)\<close>

text \<open>
  Status, cancellation, asset download and the event stream of a job, over any queue that
  implements the port. A handler is a function of the queue (and the storage) that answers with an
  \<open>http_error\<close> or a body; \<open>cancel_job\<close> also returns the queue. The event stream polls a queue
  that others change meanwhile, so it is a function of the sequence of answers it gets.
\<close>

subsection \<open>Handlers\<close>

record job_out =
  jo_id :: string
  jo_state :: job_state
  jo_kind :: string
  jo_current_attempt :: int
  jo_error_code :: "string option"
  jo_error_detail :: "string option"
  jo_result :: "dict option"
  jo_queue_position :: "nat option"
  jo_estimated_wait_seconds :: "rat option"
  jo_is_preview :: bool

definition live_queue_eta ::
  "'q job_queue_port \<Rightarrow> settings \<Rightarrow> time \<Rightarrow> 'q \<Rightarrow> queued_job \<Rightarrow> nat option \<times> rat option" where
  "live_queue_eta P s now q job =
     (if j_state job \<notin> {Queued, RetryWait} then (None, None)
      else case backend_for_kind (j_kind job) of
        None \<Rightarrow> (None, None)
      | Some backend \<Rightarrow>
          (case jq_queue_rank P now (j_id job) (Some (kinds_for_backend backend)) q of
             None \<Rightarrow> (None, None)
           | Some position \<Rightarrow> (Some position, estimate_wait_seconds position backend s)))"

definition get_owned_job :: "'q job_queue_port \<Rightarrow> 'q \<Rightarrow> string \<Rightarrow> uuid \<Rightarrow> http_error + queued_job" where
  "get_owned_job P q job_id user =
     (case parse_uuid job_id of
        None \<Rightarrow> Inl not_found
      | Some job_uuid \<Rightarrow>
          (case jq_get P job_uuid q of
             None \<Rightarrow> Inl not_found
           | Some job \<Rightarrow>
               (case assert_owner (uuid_text (j_user_id job)) (uuid_text user) of
                  Inl NotOwnerError \<Rightarrow> Inl not_found
                | Inr _ \<Rightarrow> Inr job)))"

definition job_out_of :: "'q job_queue_port \<Rightarrow> settings \<Rightarrow> time \<Rightarrow> 'q \<Rightarrow> queued_job \<Rightarrow> job_out" where
  "job_out_of P s now q job =
     (case live_queue_eta P s now q job of (position, eta) \<Rightarrow>
        \<lparr>jo_id = uuid_text (j_id job), jo_state = j_state job, jo_kind = j_kind job,
         jo_current_attempt = j_current_attempt job, jo_error_code = j_error_code job,
         jo_error_detail = j_error_detail job, jo_result = j_result job,
         jo_queue_position = position, jo_estimated_wait_seconds = eta,
         jo_is_preview = truthy (get_json (j_input_payload job) ''is_preview'')\<rparr>)"

definition get_job :: "'q job_queue_port \<Rightarrow> settings \<Rightarrow> time \<Rightarrow> string \<Rightarrow> uuid \<Rightarrow> 'q \<Rightarrow> http_error + job_out" where
  "get_job P s now job_id user q =
     (case get_owned_job P q job_id user of
        Inl e \<Rightarrow> Inl e
      | Inr job \<Rightarrow> Inr (job_out_of P s now q job))"

definition cancel_job ::
  "'q job_queue_port \<Rightarrow> settings \<Rightarrow> time \<Rightarrow> string \<Rightarrow> uuid \<Rightarrow> 'q \<Rightarrow> (http_error + job_out) \<times> 'q" where
  "cancel_job P s now job_id user q =
     (case get_owned_job P q job_id user of
        Inl e \<Rightarrow> (Inl e, q)
      | Inr job \<Rightarrow>
          (case jq_cancel P now (j_id job) q of (q, _) \<Rightarrow>
             (case jq_get P (j_id job) q of
                None \<Rightarrow> (Inl (unhandled ''AttributeError''), q)
              | Some job \<Rightarrow> (Inr (job_out_of P s now q job), q))))"

text \<open>The bytes and the media type of an output; the stored result is JSON of any shape.\<close>

definition json_len :: "json \<Rightarrow> nat option" where
  "json_len x = (case x of JList xs \<Rightarrow> Some (length xs) | JStr s \<Rightarrow> Some (length s)
     | JObj d \<Rightarrow> Some (length d) | _ \<Rightarrow> None)"

definition asset_not_found :: http_error where
  "asset_not_found = http 404 ''asset not found''"

definition get_job_asset ::
  "'q job_queue_port \<Rightarrow> string \<Rightarrow> int \<Rightarrow> uuid \<Rightarrow> 'q \<Rightarrow> storage \<Rightarrow> http_error + (string \<times> json)" where
  "get_job_asset P job_id index user q st =
     (case get_owned_job P q job_id user of
        Inl e \<Rightarrow> Inl e
      | Inr job \<Rightarrow>
          let outputs = or_default (get_json (case j_result job of Some r \<Rightarrow> r | None \<Rightarrow> []) ''outputs'') (JList [])
          in case json_len outputs of
               None \<Rightarrow> Inl (unhandled ''TypeError'')
             | Some n \<Rightarrow>
                 if \<not> (0 \<le> index \<and> index < int n) then Inl asset_not_found
                 else (case index_nat outputs (nat index) of
                    Inl e \<Rightarrow> Inl (unhandled e)
                  | Inr (JObj output) \<Rightarrow>
                      let object_key = get_json output ''object_key'';
                          mime_type = (case dget output ''mime_type'' of Some m \<Rightarrow> m
                             | None \<Rightarrow> JStr ''application/octet-stream'')
                      in if \<not> truthy object_key then Inl asset_not_found
                         else if \<not> hashable object_key then Inl (unhandled ''TypeError'')
                         else (case object_key of
                            JStr k \<Rightarrow> (case get_object k st of
                                Inl (Storage_KeyError msg) \<Rightarrow> Inl asset_not_found
                              | Inr data \<Rightarrow> Inr (data, mime_type))
                          | _ \<Rightarrow> Inl asset_not_found)
                  | Inr _ \<Rightarrow> Inl (unhandled ''AttributeError'')))"

text \<open>
  The event stream: at most \<open>n\<close> more polls, of which the next is number \<open>i\<close>; \<open>poll i\<close> is what
  \<open>queue.get\<close> answers then. An event is the data that one SSE frame carries.
\<close>

fun event_stream :: "(nat \<Rightarrow> queued_job option) \<Rightarrow> job_state option \<Rightarrow> nat \<Rightarrow> nat \<Rightarrow> dict list" where
  "event_stream poll last_state 0 i = []"
| "event_stream poll last_state (Suc n) i =
     (case poll i of
        None \<Rightarrow> []
      | Some current \<Rightarrow>
          (if Some (j_state current) \<noteq> last_state then
             [[(''id'', JStr (uuid_text (j_id current))), (''state'', JStr (state_str (j_state current))),
               (''error_code'', (case j_error_code current of Some c \<Rightarrow> JStr c | None \<Rightarrow> JNull)),
               (''error_detail'', (case j_error_detail current of Some c \<Rightarrow> JStr c | None \<Rightarrow> JNull))]]
           else []) @
          (if is_terminal (j_state current) then []
           else event_stream poll (Some (j_state current)) n (Suc i)))"

definition job_events ::
  "'q job_queue_port \<Rightarrow> string \<Rightarrow> uuid \<Rightarrow> (nat \<Rightarrow> 'q) \<Rightarrow> 'q \<Rightarrow> http_error + dict list" where
  "job_events P job_id user later q =
     (case get_owned_job P q job_id user of
        Inl e \<Rightarrow> Inl e
      | Inr job \<Rightarrow> Inr (event_stream (\<lambda>i. jq_get P (j_id job) (later i)) None 600 0))"

text \<open>\<open>f"event: state\\ndata: {json.dumps(data)}\\n\\n"\<close>; \<open>dumps\<close> is the interpreter's.\<close>

definition sse_frame :: "(json \<Rightarrow> string) \<Rightarrow> dict \<Rightarrow> string" where
  "sse_frame dumps data = ''event: state'' @ [CHR 0x0A] @ ''data: '' @ dumps (JObj data) @ [CHR 0x0A, CHR 0x0A]"

subsection \<open>Ownership\<close>

text \<open>The user may see the job of this id.\<close>

definition owned :: "'q job_queue_port \<Rightarrow> 'q \<Rightarrow> string \<Rightarrow> uuid \<Rightarrow> bool" where
  "owned P q job_id user \<longleftrightarrow>
     (\<exists>i j. parse_uuid job_id = Some i \<and> jq_get P i q = Some j \<and> uuid_text (j_user_id j) = uuid_text user)"

lemma get_owned_job_iff: "get_owned_job P q job_id user = Inr j \<longleftrightarrow>
    (\<exists>i. parse_uuid job_id = Some i \<and> jq_get P i q = Some j \<and> uuid_text (j_user_id j) = uuid_text user)"
  by (auto simp: get_owned_job_def assert_owner_def split: option.splits)

lemma get_owned_job_not_owned: "\<not> owned P q job_id user \<Longrightarrow> get_owned_job P q job_id user = Inl not_found"
  by (auto simp: get_owned_job_def assert_owner_def owned_def split: option.splits)

subsection \<open>Cancellation\<close>

context job_queue
begin

lemma cancel_job_owned:
  assumes "ok q" "jq_get P i q = Some j" "parse_uuid job_id = Some i" "uuid_text (j_user_id j) = uuid_text user"
  shows "\<exists>out q' j'. cancel_job P s now job_id user q = (Inr out, q') \<and> ok q' \<and>
    jq_get P i q' = Some j' \<and> same_job j j' \<and> jo_state out = j_state j' \<and>
    j_state j' = (if is_terminal (j_state j) then j_state j else Cancelled) \<and>
    jo_queue_position out = None \<and> (\<forall>k. k \<noteq> i \<longrightarrow> jq_get P k q' = jq_get P k q)"
proof -
  obtain q' dn where c: "jq_cancel P now i q = (q', dn)" by force
  from get_id [OF assms(1,2)] have i: "j_id j = i" .
  from cancel_ok [OF assms(1) c] assms(2) obtain j' where j': "jq_get P i q' = Some j'" "same_job j j'"
    "if is_terminal (j_state j) then j' = j else j_state j' = Cancelled" and
    r: "ok q'" "\<forall>k. k \<noteq> i \<longrightarrow> jq_get P k q' = jq_get P k q" by blast
  from j'(3) have st: "j_state j' = (if is_terminal (j_state j) then j_state j else Cancelled)"
    by (simp split: if_splits)
  then have "is_terminal (j_state j')" by simp
  then have "live_queue_eta P s now q' j' = (None, None)"
    by (auto simp: live_queue_eta_def is_terminal_iff)
  moreover have "get_owned_job P q job_id user = Inr j" using assms by (simp add: get_owned_job_iff)
  ultimately show ?thesis using c j' r st by (simp add: cancel_job_def i job_out_of_def)
qed

end

subsection \<open>The event stream\<close>

definition event_state :: "dict \<Rightarrow> json" where
  "event_state ev = get_json ev ''state''"

text \<open>What a client that watches every poll would see: the states up to the first final one.\<close>

definition upto_terminal :: "job_state list \<Rightarrow> job_state list" where
  "upto_terminal xs = takeWhile (\<lambda>x. \<not> is_terminal x) xs @ take 1 (dropWhile (\<lambda>x. \<not> is_terminal x) xs)"

lemma upto_terminal_simps [simp]:
  "upto_terminal [] = []"
  "upto_terminal (x # xs) = x # (if is_terminal x then [] else upto_terminal xs)"
  by (simp_all add: upto_terminal_def)

definition state_json :: "job_state \<Rightarrow> json" where
  "state_json x = JStr (state_str x)"

lemma event_stream_from:
  "\<forall>k \<in> {i..<i + n}. \<exists>j. poll k = Some j \<and> j_state j = st k \<Longrightarrow>
    state_json x # map event_state (event_stream poll (Some x) n i) =
      map state_json (remdups_adj (x # upto_terminal (map st [i..<i + n])))"
proof (induction n arbitrary: i x)
  case (Suc n)
  from Suc.prems obtain j where j: "poll i = Some j" "j_state j = st i" by fastforce
  have up: "[i..<i + Suc n] = i # [Suc i..<Suc i + n]" by (simp add: upt_rec)
  have "\<forall>k \<in> {Suc i..<Suc i + n}. \<exists>j. poll k = Some j \<and> j_state j = st k" using Suc.prems by simp
  note IH = Suc.IH [OF this, of "st i"]
  show ?case
    unfolding up list.map upto_terminal_simps
    using j IH by (auto simp: event_state_def get_json_def state_json_def)
qed simp

lemma event_stream_states:
  assumes "\<forall>k < n. \<exists>j. poll k = Some j \<and> j_state j = st k"
  shows "map event_state (event_stream poll None n 0) = map state_json (remdups_adj (upto_terminal (map st [0..<n])))"
proof (cases n)
  case (Suc m)
  from assms Suc obtain j where j: "poll 0 = Some j" "j_state j = st 0" by blast
  have up: "[0..<n] = 0 # [1..<1 + m]" by (simp add: Suc upt_rec)
  have "\<forall>k \<in> {1..<1 + m}. \<exists>j. poll k = Some j \<and> j_state j = st k" using assms Suc by simp
  note step = event_stream_from [OF this, of "st 0"]
  show ?thesis unfolding up list.map upto_terminal_simps
    using j step by (auto simp: Suc event_state_def get_json_def state_json_def)
qed simp

text \<open>A job stays under its id, with its owner and payload, whatever happens to the queue.\<close>

context job_queue
begin

lemma job_step:
  assumes "ok q" "op_fresh P op1 q" "jq_get P i q = Some j"
  shows "\<exists>j'. jq_get P i (queue_step P op1 q) = Some j' \<and> same_job j j'"
proof (cases op1)
  case (Op_Enqueue now jn)
  show ?thesis
  proof (cases "jq_enqueue P now jn q")
    case (Inr q')
    have "i \<noteq> j_id jn" using assms(2,3) Op_Enqueue by auto
    with enqueue_ok [OF assms(1) _ Inr] assms Op_Enqueue Inr show ?thesis by simp
  qed (use Op_Enqueue assms in simp)
next
  case (Op_Claim now cap owner secs kinds maxa)
  obtain q' cl where c: "jq_claim_with_lease P now cap owner secs kinds maxa q = (q', cl)" by force
  show ?thesis
  proof (cases "i \<in> j_id ` set cl")
    case True
    with claim_ok [OF assms(1) c] assms(3) obtain j1 where "jq_get P i q' = Some j1" "same_job j j1" by fastforce
    with c Op_Claim show ?thesis by simp
  qed (use claim_ok [OF assms(1) c] assms(3) c Op_Claim in simp)
next
  case (Op_Renew now k secs)
  then show ?thesis using renew_ok [OF assms(1), of now k secs] assms(3) by (cases "k = i") auto
next
  case (Op_Running now k)
  then show ?thesis using running_ok [OF assms(1), of now k] assms(3) by (cases "k = i") auto
next
  case (Op_Succeeded now k res)
  then show ?thesis using succeeded_ok [OF assms(1), of now k res] assms(3) by (cases "k = i") auto
next
  case (Op_Failed now k code detail)
  then show ?thesis using failed_ok [OF assms(1), of now k code detail] assms(3) by (cases "k = i") auto
next
  case (Op_Retry now rnd k code detail delay)
  then show ?thesis using retry_ok [OF assms(1), of now rnd k code detail delay] assms(3) by (cases "k = i") auto
next
  case (Op_Prompt k pid)
  then show ?thesis using prompt_ok [OF assms(1), of k pid] assms(3) by (cases "k = i") auto
next
  case (Op_Cancel now k)
  obtain q' dn where c: "jq_cancel P now k q = (q', dn)" by force
  then show ?thesis using cancel_ok [OF assms(1) c] assms(3) Op_Cancel by (cases "k = i") auto
qed

lemma job_history:
  "history P q ops q' \<Longrightarrow> ok q \<Longrightarrow> jq_get P i q = Some j \<Longrightarrow> \<exists>j'. jq_get P i q' = Some j' \<and> same_job j j'"
proof (induction arbitrary: j rule: history.induct)
  case (history_Cons op1 q ops q')
  from job_step [OF history_Cons.prems(1) history_Cons.hyps(1) history_Cons.prems(2)]
  obtain j1 where j1: "jq_get P i (queue_step P op1 q) = Some j1" "same_job j j1" by blast
  from history_Cons.IH [OF step_ok [OF history_Cons.prems(1) history_Cons.hyps(1)] j1(1)] j1(2)
  show ?case by (metis same_job_trans)
qed (metis same_job_refl)

text \<open>A sequence of snapshots of a queue in use: between two of them anything may happen.\<close>

lemma snapshots_ok:
  assumes "ok (Q 0)" "\<And>k. \<exists>ops. history P (Q k) ops (Q (Suc k))"
  shows "ok (Q k)"
  using assms by (induction k) (use history_ok in blast)+

lemma snapshots_job:
  assumes "ok (Q 0)" "\<And>k. \<exists>ops. history P (Q k) ops (Q (Suc k))" "jq_get P i (Q 0) = Some j"
  shows "\<exists>j'. jq_get P i (Q k) = Some j' \<and> same_job j j'"
proof (induction k)
  case (Suc k)
  then obtain j1 ops where j1: "jq_get P i (Q k) = Some j1" "same_job j j1" "history P (Q k) ops (Q (Suc k))"
    using assms(2) by blast
  from job_history [OF j1(3) snapshots_ok [OF assms(1,2)] j1(1)] j1(2) show ?case by (metis same_job_trans)
qed (use assms(3) in simp)

end

context guarded_queue
begin

lemma snapshots_terminal:
  assumes "ok (Q 0)" "\<And>k. \<exists>ops. history P (Q k) ops (Q (Suc k))"
    and "jq_get P i (Q k) = Some j" "is_terminal (j_state j)"
  shows "\<exists>j'. jq_get P i (Q (k + m)) = Some j' \<and> j_state j' = j_state j"
proof (induction m)
  case (Suc m)
  then obtain j1 ops where j1: "jq_get P i (Q (k + m)) = Some j1" "j_state j1 = j_state j"
    "history P (Q (k + m)) ops (Q (Suc (k + m)))" using assms(2) by blast
  from terminal_history_any [OF j1(3) snapshots_ok [OF assms(1,2)] j1(1)] j1(2) assms(4)
  show ?case by (auto simp: finished_as_def)
qed (use assms(3) in simp)

end

lemma upto_terminal_last:
  "\<exists>x \<in> set xs. is_terminal x \<Longrightarrow>
    upto_terminal xs \<noteq> [] \<and> is_terminal (last (upto_terminal xs)) \<and> last (upto_terminal xs) \<in> set xs"
  by (induction xs) auto

lemma upto_terminal_upt:
  assumes "k < n" "is_terminal (st k)"
  shows "\<exists>m < n. upto_terminal (map st [0..<n]) \<noteq> [] \<and> is_terminal (st m) \<and>
    last (upto_terminal (map st [0..<n])) = st m"
proof -
  have "\<exists>x \<in> set (map st [0..<n]). is_terminal x" using assms by auto
  from upto_terminal_last [OF this] show ?thesis by auto
qed

lemma last_remdups_adj: "last (remdups_adj xs) = last xs"
  by (induction xs rule: remdups_adj.induct) auto

subsection \<open>Properties\<close>

text \<open>C22. The event stream tells the truth about a job in a busy system: whatever clients, scheduler
  and reconciler do to the Postgres queue between two polls, the stream of the owner is the
  sequence of states that the 600 polls see, repetitions removed, up to the first final one; when
  a poll sees a final state the stream ends with it, and no later look at the job differs.\<close>

theorem event_stream_reports_outcome:
  assumes "pg_ok (Q 0)" and "\<forall>k. \<exists>ops. history (pg_port locked) (Q k) ops (Q (Suc k))"
    and "parse_uuid job_id = Some i" and "pg_get i (Q 0) = Some j"
  shows "\<exists>evs st. job_events (pg_port locked) job_id (j_user_id j) Q (Q 0) = Inr evs \<and>
    (\<forall>k. \<exists>jk. pg_get i (Q k) = Some jk \<and> j_state jk = st k) \<and>
    map event_state evs = map state_json (remdups_adj (upto_terminal (map st [0..<600]))) \<and>
    (\<forall>k < 600. is_terminal (st k) \<longrightarrow> event_state (last evs) = state_json (st k) \<and> (\<forall>m \<ge> k. st m = st k))"
proof -
  have g: "jq_get (pg_port locked) = pg_get" by (simp add: pg_port_def)
  have h: "\<And>k. \<exists>ops. history (pg_port locked) (Q k) ops (Q (Suc k))" using assms(2) by blast
  define st where "st k = j_state (the (pg_get i (Q k)))" for k
  have at: "\<exists>jk. pg_get i (Q k) = Some jk \<and> j_state jk = st k" for k
    using pg.snapshots_job [of Q locked i j k, OF assms(1) h] assms(4) by (auto simp: g st_def)
  have final: "st m = st k" if "is_terminal (st k)" "k \<le> m" for k m
  proof -
    from at [of k] obtain jk where jk: "jq_get (pg_port locked) i (Q k) = Some jk" "j_state jk = st k"
      unfolding g by blast
    from jk(2) that(1) have "is_terminal (j_state jk)" by simp
    from pg.snapshots_terminal [of Q, OF assms(1) h jk(1) this, of "m - k"] jk(2) that(2)
    have "\<exists>j'. pg_get i (Q m) = Some j' \<and> j_state j' = st k" by (simp add: g)
    then show ?thesis unfolding st_def [of m] by fastforce
  qed
  have id: "j_id j = i" using pg.get_id [OF assms(1), of locked i j] assms(4) by (simp add: g)
  define evs where "evs = event_stream (\<lambda>k. pg_get i (Q k)) None 600 0"
  have out: "job_events (pg_port locked) job_id (j_user_id j) Q (Q 0) = Inr evs"
  proof -
    have "get_owned_job (pg_port locked) (Q 0) job_id (j_user_id j) = Inr j"
      using assms(3,4) by (simp add: get_owned_job_iff g)
    then show ?thesis by (simp add: job_events_def g id evs_def)
  qed
  have seen: "map event_state evs = map state_json (remdups_adj (upto_terminal (map st [0..<600])))"
    unfolding evs_def by (rule event_stream_states) (use at in blast)
  have "event_state (last evs) = state_json (st k)" if k: "k < 600" "is_terminal (st k)" for k
  proof -
    from upto_terminal_upt [of k 600 st, OF k] obtain m where
      m: "upto_terminal (map st [0..<600]) \<noteq> []" "is_terminal (st m)" "last (upto_terminal (map st [0..<600])) = st m"
      by blast
    have "st m = st k" using final [OF k(2), of "max k m"] final [OF m(2), of "max k m"] by simp
    have ne: "remdups_adj (upto_terminal (map st [0..<600])) \<noteq> []" using m(1) by (simp only: remdups_adj_Nil_iff not_False_eq_True)
    then have "map event_state evs \<noteq> []" unfolding seen by (simp only: map_is_Nil_conv not_False_eq_True)
    then have "evs \<noteq> []" by (simp only: map_is_Nil_conv not_False_eq_True)
    then have "event_state (last evs) = last (map event_state evs)" by (rule last_map [symmetric])
    also have "\<dots> = state_json (last (upto_terminal (map st [0..<600])))"
      unfolding seen last_map [OF ne] last_remdups_adj ..
    finally show ?thesis using m(3) \<open>st m = st k\<close> by (simp only:)
  qed
  with out at seen final show ?thesis by blast
qed

text \<open>A queue with one job of user 7, and the same after the job was cancelled.\<close>

definition one_job_db :: pg_db where
  "one_job_db = example_db\<lparr>generation_jobs := [inserted_row (example_pg_job 1 7 5) ''sdxl'' ''v1'']\<rparr>"

definition cancelled_db :: pg_db where
  "cancelled_db = fst (pg_cancel 8 1 one_job_db)"

lemma one_job_facts:
  "pg_ok one_job_db" "\<exists>j. pg_get 1 one_job_db = Some j \<and> j_user_id j = 7 \<and> j_state j = Queued"
  "\<exists>j. pg_get 1 cancelled_db = Some j \<and> j_user_id j = 7 \<and> j_state j = Cancelled"
proof -
  have row: "row_of one_job_db 1 = Some (inserted_row (example_pg_job 1 7 5) ''sdxl'' ''v1'')"
    by (simp add: one_job_db_def row_of_def inserted_row_def example_pg_job_def new_queued_job_def)
  show ok: "pg_ok one_job_db" by (simp add: one_job_db_def pg_ok_def)
  show "\<exists>j. pg_get 1 one_job_db = Some j \<and> j_user_id j = 7 \<and> j_state j = Queued"
    using row by (simp add: pg_get_row inserted_row_def example_pg_job_def new_queued_job_def row_to_queued_job_def Let_def)
  have "\<exists>r. row_of one_job_db 1 = Some r \<and> \<not> is_terminal (g_state r)"
    using row by (simp add: inserted_row_def example_pg_job_def new_queued_job_def)
  note obs = conjunct2 [OF pg_cancel_law(2) [OF ok this, of 8]]
  show "\<exists>j. pg_get 1 cancelled_db = Some j \<and> j_user_id j = 7 \<and> j_state j = Cancelled"
    using obs row by (simp add: observed_def pg_get_row inserted_row_def example_pg_job_def
        new_queued_job_def row_to_queued_job_def cancelled_db_def Let_def)
qed

theorem event_stream_reports_outcome_witness:
  "\<exists>evs. job_events (pg_port (\<lambda>_. False)) (uuid_text 1) 7 (\<lambda>k. if k = 0 then one_job_db else cancelled_db) one_job_db = Inr evs \<and>
    event_state (last evs) = JStr ''cancelled''"
proof -
  let ?Q = "\<lambda>k::nat. if k = 0 then one_job_db else cancelled_db" and ?P = "pg_port (\<lambda>_. False)"
  have "history ?P one_job_db [Op_Cancel 8 1] cancelled_db"
    by (simp add: cancelled_db_def pg_port_def)
  then have h: "\<forall>k. \<exists>ops. history ?P (?Q k) ops (?Q (Suc k))" 
    by (metis history_Nil nat.distinct(1) Zero_not_Suc)
  obtain j where j: "pg_get 1 (?Q 0) = Some j" "j_user_id j = 7" using one_job_facts(2) by auto
  have "pg_ok (?Q 0)" using one_job_facts(1) by simp
  from event_stream_reports_outcome [OF this h parse_uuid_text j(1)] obtain evs st where
    e: "job_events ?P (uuid_text 1) 7 ?Q (?Q 0) = Inr evs"
    and st: "\<forall>k. \<exists>jk. pg_get 1 (?Q k) = Some jk \<and> j_state jk = st k"
    and last: "\<forall>k < 600. is_terminal (st k) \<longrightarrow> event_state (last evs) = state_json (st k) \<and> (\<forall>m \<ge> k. st m = st k)"
    unfolding j(2) by auto
  from st one_job_facts(3) have "st 1 = Cancelled" by (auto dest!: spec [of _ 1])
  with last have "event_state (last evs) = JStr ''cancelled''" by (auto simp: state_json_def dest!: spec [of _ 1])
  with e show ?thesis by auto
qed

end
