(* ===== verification/Generations_Api.thy ===== *)
theory Generations_Api
  imports Jobs_Api
begin

section \<open>Submission endpoints (api/v1/generations.py)\<close>

text \<open>
  \<open>POST /v1/generations\<close> and its second half for previews, \<open>POST /v1/generations/{id}/finalize\<close>:
  what the two handlers do between the HTTP layer and admission. The boolean beside the body is
  the header \<open>Idempotency-Replayed\<close>.
\<close>

subsection \<open>Handlers\<close>

record generation_out =
  go_id :: string
  go_state :: job_state
  go_kind :: string
  go_error_code :: "string option"
  go_error_detail :: "string option"
  go_queue_position :: "nat option"
  go_estimated_wait_seconds :: "rat option"
  go_is_preview :: bool

definition generation_out_of :: "admission_result \<Rightarrow> generation_out" where
  "generation_out_of r =
     \<lparr>go_id = uuid_text (ar_id r), go_state = ar_state r, go_kind = ar_kind r, go_error_code = None,
      go_error_detail = None, go_queue_position = ar_queue_position r,
      go_estimated_wait_seconds = ar_estimated_wait_seconds r, go_is_preview = ar_is_preview r\<rparr>"

text \<open>The \<open>except\<close> clauses the two handlers share.\<close>

fun admission_http :: "admission_error \<Rightarrow> http_error" where
  "admission_http (Adm_UnknownWorkflow msg) = http 400 ''unknown workflow''"
| "admission_http (Adm_UnknownModelProfile msg) = http 400 ''unknown model_profile''"
| "admission_http (Adm_InvalidComfyOverride msg) = http 400 msg"
| "admission_http (Adm_PreviewNotSupported msg) = http 400 msg"
| "admission_http Adm_IdempotencyConflict = http 409 ''Idempotency-Key already used with a different payload''"
| "admission_http (Adm_CapacityExceeded reason retry_after_s) =
     \<lparr>he_status = 429, he_detail = reason, he_retry_after = Some retry_after_s\<rparr>"
| "admission_http (Adm_Unhandled e) = unhandled e"
| "admission_http (Adm_Queue e) = unhandled (case e of Integrity_Error \<Rightarrow> ''IntegrityError'' | Unresolvable_Kind k \<Rightarrow> ''KeyError'')"

definition create_generation ::
  "py_env \<Rightarrow> 'q job_queue_port \<Rightarrow> settings \<Rightarrow> time \<Rightarrow> uuid \<Rightarrow> uuid \<Rightarrow> string \<Rightarrow> string \<Rightarrow> dict \<Rightarrow> string \<Rightarrow> 'q
     \<Rightarrow> (http_error + (generation_out \<times> bool)) \<times> 'q" where
  "create_generation E P s now new_id user workflow_name workflow_version inputs idempotency_key q =
     (case admit_generation_job E P s now new_id user workflow_name workflow_version inputs idempotency_key None q of
        Inl e \<Rightarrow> (Inl (admission_http e), q)
      | Inr (r, q') \<Rightarrow> (Inr (generation_out_of r, ar_replayed r), q'))"

text \<open>The inputs of the final job, from the stored payload of the preview.\<close>

definition final_inputs_of :: "uuid \<Rightarrow> dict \<Rightarrow> dict" where
  "final_inputs_of original_id payload =
     (let d = dpop ''is_preview'' (dpop ''preview'' payload);
          overrides = (case dget d ''preview_original_overrides'' of Some v \<Rightarrow> v | None \<Rightarrow> JObj [])
      in dput ''preview_of'' (JStr (uuid_text original_id))
           (dput ''model_overrides'' overrides (dpop ''preview_original_overrides'' d)))"

definition finalize_generation ::
  "py_env \<Rightarrow> 'q job_queue_port \<Rightarrow> settings \<Rightarrow> time \<Rightarrow> uuid \<Rightarrow> uuid \<Rightarrow> string \<Rightarrow> string \<Rightarrow> 'q
     \<Rightarrow> (http_error + (generation_out \<times> bool)) \<times> 'q" where
  "finalize_generation E P s now new_id user job_id idempotency_key q =
     (case get_owned_job P q job_id user of
        Inl e \<Rightarrow> (Inl e, q)
      | Inr original \<Rightarrow>
          if \<not> truthy (get_json (j_input_payload original) ''is_preview'') then
            (Inl (http 400 ''job is not a preview job''), q)
          else if j_state original \<noteq> Succeeded then
            (Inl (http 409 (''preview job has not finished yet (state='' @ state_str (j_state original) @ '')'')), q)
          else create_generation E P s now new_id user (j_kind original) ''v1''
                 (final_inputs_of (j_id original) (j_input_payload original)) idempotency_key q)"

subsection \<open>Validated overrides validate to themselves\<close>

lemma subseq_set: "subseq xs ys \<Longrightarrow> set xs \<subseteq> set ys"
  by (induction xs ys rule: list_emb.induct) auto

lemma subseq_keys: "subseq (map fst d) ks \<Longrightarrow> fst ` set d \<subseteq> set ks"
proof -
  assume "subseq (map fst d) ks"
  then have "set (map fst d) \<subseteq> set ks" by (rule subseq_set)
  then show ?thesis by simp
qed

lemma dict_of_subseq:
  "subseq (map fst d) ks \<Longrightarrow> distinct ks \<Longrightarrow> d = List.map_filter (\<lambda>k. map_option (Pair k) (dget d k)) ks"
proof (induction ks arbitrary: d)
  case Nil
  then have "d = []" by (metis list_emb_Nil2 map_is_Nil_conv)
  then show ?case by (simp add: List.map_filter_simps)
next
  case (Cons k ks)
  show ?case
  proof (cases "\<exists>v e. d = (k, v) # e")
    case True
    then obtain v e where d: "d = (k, v) # e" by blast
    with Cons.prems have sub: "subseq (map fst e) ks" and dist: "k \<notin> set ks" "distinct ks" by auto
    have "List.map_filter (\<lambda>k'. map_option (Pair k') (dget d k')) ks =
        List.map_filter (\<lambda>k'. map_option (Pair k') (dget e k')) ks"
      using dist d by (auto simp: List.map_filter_def intro!: map_cong filter_cong)
    with Cons.IH [OF sub dist(2)] show ?thesis using d by (simp add: List.map_filter_simps)
  next
    case False
    have sub: "subseq (map fst d) ks"
    proof (cases d)
      case (Cons kv e)
      with False have "fst kv \<noteq> k" by (cases kv) auto
      with Cons Cons.prems(1) show ?thesis by (simp add: subseq_Cons2_neq)
    qed simp
    have "k \<notin> fst ` set d" using subseq_keys [OF sub] Cons.prems(2) by auto
    then have "dget d k = None" by (simp add: dget_None_iff)
    with Cons.IH [OF sub] Cons.prems(2) show ?thesis by (simp add: List.map_filter_simps)
  qed
qed

lemma dput_new: "k \<notin> fst ` set d \<Longrightarrow> dput k v d = d @ [(k, v)]"
  by (simp add: dput_absent dget_None_iff)

lemma string_fields_keys:
  "validate_string_fields rp fs ov al acc = Inr d' \<Longrightarrow> distinct (map fst fs) \<Longrightarrow> fst ` set acc \<inter> fst ` set fs = {} \<Longrightarrow>
    \<exists>e. d' = acc @ e \<and> subseq (map fst e) (map fst fs)"
proof (induction rp fs ov al acc rule: validate_string_fields.induct)
  case (2 rp f attr fs ov al acc)
  show ?case
  proof (cases "dget ov f")
    case None
    with 2 obtain e where "d' = acc @ e" "subseq (map fst e) (map fst fs)" by auto
    then show ?thesis by (auto intro: list_emb_Cons)
  next
    case (Some v)
    let ?s = "py_strip (py_str rp v)"
    from "2.prems" Some have ok: "attr al \<noteq> []" "?s \<in> set (attr al)"
      and r: "validate_string_fields rp fs ov al (dput f (JStr ?s) acc) = Inr d'"
      by (auto simp: Let_def split: if_splits)
    have new: "dput f (JStr ?s) acc = acc @ [(f, JStr ?s)]" using "2.prems"(3) by (intro dput_new) auto
    have "fst ` set (dput f (JStr ?s) acc) \<inter> fst ` set fs = {}" using "2.prems" by (auto simp: new)
    from "2.IH"(2) [OF Some refl refl ok(1) _ r _ this] ok "2.prems"(2) obtain e where
      "d' = (acc @ [(f, JStr ?s)]) @ e" "subseq (map fst e) (map fst fs)" unfolding new by auto
    then show ?thesis by (intro exI [of _ "(f, JStr ?s) # e"]) auto
  qed
qed simp

lemma optional_keys:
  "validate_steps ov al acc = Inr d' \<Longrightarrow> ''steps'' \<notin> fst ` set acc \<Longrightarrow>
    \<exists>e. d' = acc @ e \<and> subseq (map fst e) [''steps'']"
  "validate_cfg_scale ov al acc = Inr d2 \<Longrightarrow> ''cfg_scale'' \<notin> fst ` set acc \<Longrightarrow>
    \<exists>e. d2 = acc @ e \<and> subseq (map fst e) [''cfg_scale'']"
  "''negative_prompt'' \<notin> fst ` set acc \<Longrightarrow>
    \<exists>e. validate_negative_prompt rp ov al acc = acc @ e \<and> subseq (map fst e) [''negative_prompt'']"
  by (auto simp: validate_steps_def validate_cfg_scale_def validate_negative_prompt_def dput_new
      split: option.splits conv.splits if_splits)

lemma validated_keys:
  assumes "validate_overrides rp (JObj ov) al = Inr d"
  shows "subseq (map fst d) ALL_OVERRIDE_KEYS"
proof -
  from assms obtain d1 d2 d3 where v: "validate_string_fields rp STRING_ALLOWLIST_FIELDS ov al [] = Inr d1"
    "validate_steps ov al d1 = Inr d2" "validate_cfg_scale ov al d2 = Inr d3"
    "d = validate_negative_prompt rp ov al d3"
    by (auto simp: validate_overrides_def Let_def split: sum.splits if_splits)
  from string_fields_keys [OF v(1) override_keys_distinct(2)]
  have s1: "subseq (map fst d1) (map fst STRING_ALLOWLIST_FIELDS)" by auto
  then have k1: "fst ` set d1 \<subseteq> fst ` set STRING_ALLOWLIST_FIELDS"
    using subseq_set [OF s1] by simp
  from optional_keys(1) [OF v(2)] k1 not_string_field obtain e2 where
    e2: "d2 = d1 @ e2" "subseq (map fst e2) [''steps'']" by blast
  then have k2: "fst ` set d2 \<subseteq> fst ` set STRING_ALLOWLIST_FIELDS \<union> {''steps''}"
    using k1 subseq_keys [OF e2(2)] by auto
  then have "''cfg_scale'' \<notin> fst ` set d2" using not_string_field(2) subsetD [OF k2, of "''cfg_scale''"] by auto
  from optional_keys(2) [OF v(3) this] obtain e3 where
    e3: "d3 = d2 @ e3" "subseq (map fst e3) [''cfg_scale'']" by blast
  then have k3: "fst ` set d3 \<subseteq> fst ` set STRING_ALLOWLIST_FIELDS \<union> {''steps'', ''cfg_scale''}"
    using k2 subseq_keys [OF e3(2)] by auto
  then have "''negative_prompt'' \<notin> fst ` set d3"
    using not_string_field(3) subsetD [OF k3, of "''negative_prompt''"] by auto
  from optional_keys(3) [OF this, of rp ov al] v(4) obtain e4 where
    e4: "d = d3 @ e4" "subseq (map fst e4) [''negative_prompt'']" by blast
  have "subseq (map fst d1 @ map fst e2 @ map fst e3 @ map fst e4)
      (map fst STRING_ALLOWLIST_FIELDS @ [''steps''] @ [''cfg_scale''] @ [''negative_prompt''])"
    by (intro list_emb_append_mono s1 e2(2) e3(2) e4(2))
  then show ?thesis by (simp add: e4(1) e3(1) e2(1) ALL_OVERRIDE_KEYS_def)
qed

lemma valid_string_entry:
  assumes "valid_entry al f v" "(f, attr) \<in> set STRING_ALLOWLIST_FIELDS"
  shows "\<exists>t. v = JStr t \<and> t \<in> set (attr al) \<and> py_strip t = t"
proof -
  have "f \<in> fst ` set STRING_ALLOWLIST_FIELDS" using assms(2) by (metis fst_conv imageI)
  then have "f \<noteq> ''steps''" "f \<noteq> ''cfg_scale''" "f \<noteq> ''negative_prompt''" using not_string_field by metis+
  moreover have "a = attr" if "(f, a) \<in> set STRING_ALLOWLIST_FIELDS" for a
    by (rule eq_key_imp_eq_value [OF override_keys_distinct(2) that assms(2)])
  ultimately show ?thesis using assms(1) unfolding valid_entry_def by blast
qed

lemma string_fields_again:
  "valid_dict al d \<Longrightarrow> set fs \<subseteq> set STRING_ALLOWLIST_FIELDS \<Longrightarrow>
    \<exists>d'. validate_string_fields rp fs d al acc = Inr d' \<and>
      (\<forall>k. dget d' k = (if k \<in> fst ` set fs \<and> dget d k \<noteq> None then dget d k else dget acc k))"
proof (induction fs arbitrary: acc)
  case (Cons x fs)
  obtain f attr where x: "x = (f, attr)" by force
  from Cons.prems x have fa: "(f, attr) \<in> set STRING_ALLOWLIST_FIELDS" by simp
  show ?case
  proof (cases "dget d f")
    case None
    from Cons.IH [OF Cons.prems(1), of acc] Cons.prems(2) obtain d' where
      d': "validate_string_fields rp fs d al acc = Inr d'"
      "\<forall>k. dget d' k = (if k \<in> fst ` set fs \<and> dget d k \<noteq> None then dget d k else dget acc k)" by auto
    have "\<forall>k. dget d' k = (if k \<in> fst ` set (x # fs) \<and> dget d k \<noteq> None then dget d k else dget acc k)"
      using d'(2) None by (simp add: x)
    moreover have "validate_string_fields rp (x # fs) d al acc = Inr d'" using d'(1) None by (simp add: x)
    ultimately show ?thesis by blast
  next
    case (Some v)
    with Cons.prems(1) have "valid_entry al f v" by (simp add: valid_dict_def)
    from valid_string_entry [OF this fa] obtain t where
      t: "v = JStr t" "t \<in> set (attr al)" "py_strip t = t" by blast
    then have ne: "attr al \<noteq> []" by auto
    from Cons.IH [OF Cons.prems(1), of "dput f v acc"] Cons.prems(2) obtain d' where
      d': "validate_string_fields rp fs d al (dput f v acc) = Inr d'"
      "\<forall>k. dget d' k = (if k \<in> fst ` set fs \<and> dget d k \<noteq> None then dget d k else dget (dput f v acc) k)" by auto
    have "\<forall>k. dget d' k = (if k \<in> fst ` set (x # fs) \<and> dget d k \<noteq> None then dget d k else dget acc k)"
      using d'(2) Some by (simp add: x)
    moreover have "validate_string_fields rp (x # fs) d al acc = Inr d'" using d'(1) Some t ne by (simp add: x)
    ultimately show ?thesis by blast
  qed
qed simp

lemma validate_again:
  assumes "validate_overrides rp ov al = Inr d" "0 \<le> max_negative_prompt_chars al"
  shows "validate_overrides rp2 (JObj d) al = Inr d"
proof (cases "d = []")
  case True
  then show ?thesis
    by (simp add: validate_overrides_def STRING_ALLOWLIST_FIELDS_def validate_steps_def validate_cfg_scale_def
        validate_negative_prompt_def)
next
  case False
  with assms(1) obtain o1 where ov: "ov = JObj o1" by (cases ov) (auto simp: validate_overrides_def)
  have vd: "valid_dict al d" by (rule validate_overrides_valid [OF assms(1)])
  have keys: "subseq (map fst d) ALL_OVERRIDE_KEYS" using assms(1) unfolding ov by (rule validated_keys)
  then have known: "filter (\<lambda>k. k \<notin> set ALL_OVERRIDE_KEYS) (map fst d) = []"
    using subseq_keys [OF keys] by (auto simp: filter_empty_conv)
  obtain d1 where d1: "validate_string_fields rp2 STRING_ALLOWLIST_FIELDS d al [] = Inr d1"
    "\<forall>k. dget d1 k = (if k \<in> fst ` set STRING_ALLOWLIST_FIELDS \<and> dget d k \<noteq> None then dget d k else None)"
    using string_fields_again [OF vd subset_refl, of rp2 "[]"] by auto
  have ent: "valid_entry al k v" if "dget d k = Some v" for k v using vd that by (simp add: valid_dict_def)
  obtain d2 where d2: "validate_steps d al d1 = Inr d2"
    "\<forall>k. dget d2 k = (if k = ''steps'' \<and> dget d k \<noteq> None then dget d k else dget d1 k)"
    using ent [of "''steps''"] not_string_field
    by (cases "dget d ''steps''") (auto simp: validate_steps_def valid_entry_def rev_image_eqI)
  obtain d3 where d3: "validate_cfg_scale d al d2 = Inr d3"
    "\<forall>k. dget d3 k = (if k = ''cfg_scale'' \<and> dget d k \<noteq> None then dget d k else dget d2 k)"
    using ent [of "''cfg_scale''"] not_string_field
    by (cases "dget d ''cfg_scale''") (auto simp: validate_cfg_scale_def valid_entry_def rev_image_eqI)
  have d4: "dget (validate_negative_prompt rp2 d al d3) k =
      (if k = ''negative_prompt'' \<and> dget d k \<noteq> None then dget d k else dget d3 k)" for k
    using ent [of "''negative_prompt''"] not_string_field assms(2)
    by (cases "dget d ''negative_prompt''") (auto simp: validate_negative_prompt_def valid_entry_def py_take_def rev_image_eqI)
  have v: "validate_overrides rp2 (JObj d) al = Inr (validate_negative_prompt rp2 d al d3)"
    using known d1(1) d2(1) d3(1) by (simp add: validate_overrides_def)
  have "dget (validate_negative_prompt rp2 d al d3) k = dget d k" for k
  proof (cases "dget d k")
    case None
    then show ?thesis by (simp add: d4 d3(2) d2(2) d1(2))
  next
    case (Some x)
    then have "k \<in> fst ` set d" by (metis dget_None_iff option.distinct(1))
    then have "k \<in> set ALL_OVERRIDE_KEYS" using subseq_keys [OF keys] by auto
    with Some show ?thesis by (auto simp: d4 d3(2) d2(2) d1(2) ALL_OVERRIDE_KEYS_def)
  qed
  with dict_of_subseq [OF validated_keys [OF v] override_keys_distinct(1)]
    dict_of_subseq [OF keys override_keys_distinct(1)] v show ?thesis by simp
qed

subsection \<open>What finalizing submits\<close>

text \<open>The request the user would have sent for the full-quality image in the first place.\<close>

definition full_quality :: "uuid \<Rightarrow> dict \<Rightarrow> dict" where
  "full_quality original_id inputs =
     dput ''preview_of'' (JStr (uuid_text original_id)) (dpop ''preview_original_overrides'' (dpop ''preview'' inputs))"

lemma normalise_preview:
  assumes "normalise_inputs E s w inputs = Inr payload" "truthy (get_json inputs ''preview'')"
  obtains k d where "wf_backend w = ''comfyui''"
    and "resolve_profile_key (py_repr E) (get_json inputs ''model_profile'') (build_profiles s) = Inr k"
    and "validate_overrides (py_repr E) (get_json inputs ''model_overrides'') (build_allowlists s) = Inr d"
    and "payload = dput ''preview_original_overrides'' (JObj d) (dput ''is_preview'' (JBool True)
           (dput ''model_overrides'' (JObj (dput ''steps'' (JInt (preview_steps s)) d)) (dput ''model_profile'' (JStr k) inputs)))"
proof -
  have w: "wf_backend w = ''comfyui''" using assms by (simp add: normalise_inputs_def split: if_splits)
  obtain k where k: "resolve_profile_key (py_repr E) (get_json inputs ''model_profile'') (build_profiles s) = Inr k"
  proof (cases "resolve_profile_key (py_repr E) (get_json inputs ''model_profile'') (build_profiles s)")
    case (Inl e)
    with assms(1) w show ?thesis by (cases e) (simp_all add: normalise_inputs_def Let_def)
  qed (rule that)
  obtain d where d: "validate_overrides (py_repr E) (get_json inputs ''model_overrides'') (build_allowlists s) = Inr d"
  proof (cases "validate_overrides (py_repr E) (get_json inputs ''model_overrides'') (build_allowlists s)")
    case (Inl e)
    with assms(1) w k show ?thesis by (cases e) (simp_all add: normalise_inputs_def Let_def)
  qed (rule that)
  from assms w k d show thesis by (intro that [OF w k d]) (simp add: normalise_inputs_def Let_def split: if_splits)
qed

lemma normalise_plain:
  assumes "wf_backend w = ''comfyui''" "\<not> truthy (get_json inputs ''preview'')"
    and "resolve_profile_key (py_repr E) (get_json inputs ''model_profile'') (build_profiles s) = Inr k"
    and "validate_overrides (py_repr E) (get_json inputs ''model_overrides'') (build_allowlists s) = Inr d"
  shows "normalise_inputs E s w inputs = Inr (dput ''is_preview'' (JBool False)
    (dput ''model_overrides'' (JObj d) (dput ''model_profile'' (JStr k) inputs)))"
  using assms by (simp add: normalise_inputs_def)

lemma normalise_entry:
  "normalise_inputs E s w inputs = Inr payload \<Longrightarrow> k \<notin> {''is_preview'', ''model_overrides'', ''model_profile'', ''preview_original_overrides''} \<Longrightarrow>
    dget payload k = dget inputs k"
  by (auto simp: normalise_inputs_def Let_def split: if_splits sum.splits profile_error.splits override_error.splits)

lemma normalise_keeps:
  assumes "normalise_inputs E s w inputs = Inr payload"
    and "k \<notin> {''is_preview'', ''model_overrides'', ''model_profile'', ''preview_original_overrides''}"
  shows "get_json payload k = get_json inputs k"
  using normalise_entry [OF assms] by (simp add: get_json_def)

lemma resolve_profile_again:
  assumes "resolve_profile_key rp x ps = Inr k"
  shows "resolve_profile_key rp2 (JStr k) ps = Inr k"
proof -
  obtain t where t: "(if truthy x then x else JStr []) = JStr t"
    using assms by (cases "if truthy x then x else JStr []") (simp_all add: resolve_profile_key_def)
  define k0 where "k0 = (if py_strip t \<noteq> [] then py_strip t else DEFAULT_PROFILE_KEY)"
  have k: "k0 = k" "dmem k ps"
    using assms by (simp_all add: resolve_profile_key_def t Let_def flip: k0_def split: if_splits)
  have "py_strip DEFAULT_PROFILE_KEY = DEFAULT_PROFILE_KEY" "DEFAULT_PROFILE_KEY \<noteq> []" by code_simp+
  then have "py_strip k = k \<and> k \<noteq> []" unfolding k(1) [symmetric] k0_def by simp
  with k(2) show ?thesis by (simp add: resolve_profile_key_def)
qed

lemma finalized_inputs:
  assumes "normalise_inputs E s w inputs = Inr payload" "truthy (get_json inputs ''preview'')"
    and "0 \<le> comfy_override_max_negative_prompt_chars s" "distinct (map fst inputs)"
  shows "\<exists>F N. normalise_inputs E s w (final_inputs_of i payload) = Inr F \<and>
    normalise_inputs E s w (full_quality i inputs) = Inr N \<and> dget F = dget N \<and>
    payload_hash E F = payload_hash E N \<and> \<not> truthy (get_json F ''is_preview'')"
  using assms(1,2)
proof (rule normalise_preview)
  fix k d
  assume w: "wf_backend w = ''comfyui''"
    and k: "resolve_profile_key (py_repr E) (get_json inputs ''model_profile'') (build_profiles s) = Inr k"
    and d: "validate_overrides (py_repr E) (get_json inputs ''model_overrides'') (build_allowlists s) = Inr d"
    and payload: "payload = dput ''preview_original_overrides'' (JObj d) (dput ''is_preview'' (JBool True)
           (dput ''model_overrides'' (JObj (dput ''steps'' (JInt (preview_steps s)) d)) (dput ''model_profile'' (JStr k) inputs)))"
  let ?out = "\<lambda>x. dput ''is_preview'' (JBool False) (dput ''model_overrides'' (JObj d) (dput ''model_profile'' (JStr k) x))"
  let ?f = "final_inputs_of i payload" and ?n = "full_quality i inputs"
  have al: "0 \<le> max_negative_prompt_chars (build_allowlists s)" using assms(3) by (simp add: build_allowlists_def)
  have "get_json ?f ''preview'' = JNull" "get_json ?f ''model_profile'' = JStr k" "get_json ?f ''model_overrides'' = JObj d"
    by (simp_all add: final_inputs_of_def payload Let_def)
  then have F: "normalise_inputs E s w ?f = Inr (?out ?f)"
    using w resolve_profile_again [OF k] validate_again [OF d al] by (intro normalise_plain) simp_all
  have "get_json ?n ''preview'' = JNull" "get_json ?n ''model_profile'' = get_json inputs ''model_profile''"
    "get_json ?n ''model_overrides'' = get_json inputs ''model_overrides''"
    by (simp_all add: full_quality_def)
  then have N: "normalise_inputs E s w ?n = Inr (?out ?n)" using w k d by (intro normalise_plain) simp_all
  have same: "dget (?out ?f) = dget (?out ?n)"
    by (rule ext) (simp add: final_inputs_of_def full_quality_def payload Let_def)
  have dist: "distinct (map fst (?out ?f))" "distinct (map fst (?out ?n))"
    using assms(4) by (simp_all add: final_inputs_of_def full_quality_def payload Let_def)
  have "payload_hash E (?out ?f) = payload_hash E (?out ?n)"
    unfolding payload_hash_def by (rule canonical_hash_order [OF dist same])
  moreover have "\<not> truthy (get_json (?out ?f) ''is_preview'')" by simp
  ultimately show ?thesis using F N same by blast
qed

subsection \<open>Properties\<close>

text \<open>C21. Ids tell nothing: to a user who does not own a job, every endpoint that takes its id gives
  the answer it gives for an id that names no job at all, and changes nothing.\<close>

theorem foreign_job_looks_absent:
  assumes "\<forall>i j. parse_uuid job_id = Some i \<longrightarrow> jq_get P i q = Some j \<longrightarrow> j_user_id j \<noteq> user \<and> j_user_id j < 2 ^ 128"
    and "user < 2 ^ 128"
  shows "get_job P s now job_id user q = Inl not_found \<and>
    cancel_job P s now job_id user q = (Inl not_found, q) \<and>
    get_job_asset P job_id index user q st = Inl not_found \<and>
    job_events P job_id user later q = Inl not_found \<and>
    finalize_generation E P s now nid user job_id key q = (Inl not_found, q)"
proof -
  have "\<not> owned P q job_id user" using assms uuid_text_eq_iff by (auto simp: owned_def)
  then have "get_owned_job P q job_id user = Inl not_found" by (rule get_owned_job_not_owned)
  then show ?thesis
    by (simp add: get_job_def cancel_job_def get_job_asset_def job_events_def finalize_generation_def)
qed

theorem foreign_job_looks_absent_witness:
  "cancel_job (pg_port (\<lambda>_. False)) default_settings 9 (uuid_text 1) 8 one_job_db = (Inl not_found, one_job_db) \<and>
   (\<exists>out q. cancel_job (pg_port (\<lambda>_. False)) default_settings 9 (uuid_text 1) 7 one_job_db = (Inr out, q) \<and> jo_state out = Cancelled)"
proof -
  let ?P = "pg_port (\<lambda>_. False)"
  have g: "jq_get ?P = pg_get" by (simp add: pg_port_def)
  obtain j where j: "pg_get 1 one_job_db = Some j" "j_user_id j = 7" "j_state j = Queued" using one_job_facts(2) by blast
  have "\<forall>i j. parse_uuid (uuid_text 1) = Some i \<longrightarrow> jq_get ?P i one_job_db = Some j \<longrightarrow>
      j_user_id j \<noteq> 8 \<and> j_user_id j < 2 ^ 128" using j by (simp add: g)
  from foreign_job_looks_absent [OF this, of default_settings 9]
  have "cancel_job ?P default_settings 9 (uuid_text 1) 8 one_job_db = (Inl not_found, one_job_db)" by simp
  moreover have "\<exists>out q. cancel_job ?P default_settings 9 (uuid_text 1) 7 one_job_db = (Inr out, q) \<and> jo_state out = Cancelled"
    using pg.cancel_job_owned [OF one_job_facts(1), of "\<lambda>_. False" 1 j "uuid_text 1" 7 default_settings 9] j
    by (auto simp: g)
  ultimately show ?thesis by blast
qed


text \<open>A finished preview of user 7.\<close>

definition preview_payload :: dict where
  "preview_payload =
     (case normalise_inputs plain_env small_settings \<lparr>wf_name = ''image_basic'', wf_version = ''v1'',
        wf_model_family = ''sdxl'', wf_graph_template = [], wf_backend = ''comfyui''\<rparr> image_request of
        Inr d \<Rightarrow> d | Inl e \<Rightarrow> [])"

definition preview_job :: queued_job where
  "preview_job = new_queued_job 1 7 ''image_basic'' Succeeded 0 0 preview_payload ''p'' 5 None"

lemma normalise_image_request:
  "normalise_inputs plain_env small_settings \<lparr>wf_name = ''image_basic'', wf_version = ''v1'',
     wf_model_family = ''sdxl'', wf_graph_template = [], wf_backend = ''comfyui''\<rparr> image_request = Inr preview_payload"
  "truthy (get_json preview_payload ''is_preview'')"
proof -
  let ?w = "\<lparr>wf_name = ''image_basic'', wf_version = ''v1'', wf_model_family = ''sdxl'', wf_graph_template = [], wf_backend = ''comfyui''\<rparr>"
  have "resolve_profile_key rp JNull (build_profiles small_settings) = Inr ''student''" for rp
    using default_profiles by (simp add: resolve_profile_key_def py_strip_def DEFAULT_PROFILE_KEY_def)
  moreover have "preview_enabled small_settings" by (simp add: small_settings_def default_settings_def)
  ultimately have n: "\<exists>i. normalise_inputs plain_env small_settings ?w image_request = Inr i \<and> truthy (get_json i ''is_preview'')"
    by (simp add: normalise_inputs_def image_request_def get_json_def validate_overrides_def)
  then show "normalise_inputs plain_env small_settings ?w image_request = Inr preview_payload"
    "truthy (get_json preview_payload ''is_preview'')" by (auto simp: preview_payload_def)
qed


end
