(* ===== verification/Auth.thy ===== *)
theory Auth
  imports Settings Py_Uuid
begin

section \<open>Users, sessions and API keys (domain/auth, api/v1/auth.py, api/deps.py)\<close>

text \<open>
  The three tables of the authentication, the two ways to authenticate a request
  (\<open>get_current_user\<close>) and the endpoints that issue and revoke sessions. SHA-256 and the Argon2
  hasher are parameters, and so is every random draw: the raw token of a session, the salt of a
  password hash. \<open>users.email\<close> is \<open>CITEXT\<close>: it is compared without regard to case.
\<close>

subsection \<open>Tables and requests\<close>

record user_row =
  u_id :: uuid
  u_email :: string
  u_password_hash :: "string option"
  u_display_name :: string
  u_status :: string
  u_plan_code :: string

record auth_session =
  as_user_id :: uuid
  as_token_hash :: string
  as_expires_at :: time
  as_revoked_at :: "time option"
  as_ip_hash :: "string option"
  as_user_agent :: "string option"

record api_key =
  ak_user_id :: uuid
  ak_key_hash :: string
  ak_label :: string
  ak_revoked_at :: "time option"

record auth_db =
  db_users :: "user_row list"
  db_sessions :: "auth_session list"
  db_api_keys :: "api_key list"

text \<open>What a handler reads of a request; a header or cookie that is absent is \<open>None\<close>.\<close>

record request =
  rq_session_token :: "string option"
  rq_authorization :: "string option"
  rq_cookies :: "(string \<times> string) list"
  rq_client_host :: "string option"
  rq_user_agent :: "string option"

datatype argon_outcome = Verified | VerifyMismatchError | InvalidHashError

record auth_env =
  ae_sha256 :: "string \<Rightarrow> string"
  ae_hash :: "string \<Rightarrow> string \<Rightarrow> string"
  ae_verify :: "string \<Rightarrow> string \<Rightarrow> argon_outcome"

subsection \<open>Passwords, keys and tokens\<close>

definition hash_password :: "auth_env \<Rightarrow> string \<Rightarrow> string \<Rightarrow> string" where
  "hash_password E salt raw = ae_hash E salt raw"

definition verify_password :: "auth_env \<Rightarrow> string \<Rightarrow> string \<Rightarrow> bool" where
  "verify_password E raw stored_hash =
     (case ae_verify E stored_hash raw of Verified \<Rightarrow> True | VerifyMismatchError \<Rightarrow> False | InvalidHashError \<Rightarrow> False)"

definition KEY_PREFIX :: string where
  "KEY_PREFIX = ''imgn_''"

definition hash_api_key :: "auth_env \<Rightarrow> string \<Rightarrow> string" where
  "hash_api_key E raw_key = ae_sha256 E raw_key"

definition generate_raw_api_key :: "string \<Rightarrow> string" where
  "generate_raw_api_key token = KEY_PREFIX @ token"

record issued_api_key =
  ik_raw_key :: string
  ik_key_hash :: string

definition issue_api_key :: "auth_env \<Rightarrow> string \<Rightarrow> issued_api_key" where
  "issue_api_key E token = (let raw = generate_raw_api_key token in \<lparr>ik_raw_key = raw, ik_key_hash = hash_api_key E raw\<rparr>)"

definition is_api_key_active :: "time option \<Rightarrow> bool" where
  "is_api_key_active revoked_at = (revoked_at = None)"

definition hash_token :: "auth_env \<Rightarrow> string \<Rightarrow> string" where
  "hash_token E raw_token = ae_sha256 E raw_token"

record issued_session =
  is_raw_token :: string
  is_token_hash :: string
  is_expires_at :: time

definition issue_session :: "auth_env \<Rightarrow> int \<Rightarrow> time \<Rightarrow> string \<Rightarrow> issued_session" where
  "issue_session E ttl_hours now raw =
     \<lparr>is_raw_token = raw, is_token_hash = hash_token E raw, is_expires_at = now + ttl_hours * 3600 * 1000000\<rparr>"

definition is_session_valid :: "time \<Rightarrow> time option \<Rightarrow> time \<Rightarrow> bool" where
  "is_session_valid expires_at revoked_at now = (if revoked_at \<noteq> None then False else now < expires_at)"

definition hash_ip :: "auth_env \<Rightarrow> string \<Rightarrow> string \<Rightarrow> string" where
  "hash_ip E ip pepper = ae_sha256 E (pepper @ ip)"

subsection \<open>Who is calling\<close>

definition user_by_id :: "uuid \<Rightarrow> auth_db \<Rightarrow> user_row option" where
  "user_by_id i db = find (\<lambda>u. u_id u = i) (db_users db)"

definition same_email :: "string \<Rightarrow> string \<Rightarrow> bool" where
  "same_email a b \<longleftrightarrow> map to_lower a = map to_lower b"

definition user_by_email :: "string \<Rightarrow> auth_db \<Rightarrow> user_row option" where
  "user_by_email e db = find (\<lambda>u. same_email (u_email u) e) (db_users db)"

definition session_by_hash :: "string \<Rightarrow> auth_db \<Rightarrow> auth_session option" where
  "session_by_hash h db = find (\<lambda>s. as_token_hash s = h) (db_sessions db)"

definition resolve_api_key_user :: "auth_env \<Rightarrow> auth_db \<Rightarrow> string \<Rightarrow> user_row option" where
  "resolve_api_key_user E db raw_key =
     (case find (\<lambda>k. ak_key_hash k = hash_api_key E raw_key) (db_api_keys db) of
        None \<Rightarrow> None
      | Some k \<Rightarrow>
          if \<not> is_api_key_active (ak_revoked_at k) then None
          else (case user_by_id (ak_user_id k) db of
              None \<Rightarrow> None
            | Some u \<Rightarrow> if u_status u \<noteq> ''active'' then None else Some u))"

text \<open>\<open>x or y\<close> on optional text: an empty header counts as absent.\<close>

definition or_text :: "string option \<Rightarrow> string option \<Rightarrow> string option" where
  "or_text x y = (case x of Some t \<Rightarrow> if t \<noteq> [] then x else y | None \<Rightarrow> y)"

definition raw_token_of :: "settings \<Rightarrow> request \<Rightarrow> string option" where
  "raw_token_of s rq = or_text (rq_session_token rq) (dget (rq_cookies rq) (session_cookie_name s))"

definition unauthorized :: "string \<Rightarrow> http_error" where
  "unauthorized detail = http 401 detail"

definition session_user :: "auth_env \<Rightarrow> settings \<Rightarrow> time \<Rightarrow> request \<Rightarrow> auth_db \<Rightarrow> http_error + user_row" where
  "session_user E s now rq db =
     (case or_text (raw_token_of s rq) None of
        None \<Rightarrow> Inl (unauthorized ''not authenticated'')
      | Some raw_token \<Rightarrow>
          (case session_by_hash (hash_token E raw_token) db of
             None \<Rightarrow> Inl (unauthorized ''session invalid'')
           | Some a \<Rightarrow>
               if \<not> is_session_valid (as_expires_at a) (as_revoked_at a) now then Inl (unauthorized ''session invalid'')
               else (case user_by_id (as_user_id a) db of
                   None \<Rightarrow> Inl (unauthorized ''user not active'')
                 | Some u \<Rightarrow> if u_status u \<noteq> ''active'' then Inl (unauthorized ''user not active'') else Inr u)))"

definition bearer_key :: "request \<Rightarrow> string option" where
  "bearer_key rq =
     (case rq_authorization rq of
        None \<Rightarrow> None
      | Some a \<Rightarrow>
          if \<not> starts_with ''Bearer '' a then None
          else let raw = py_strip (drop (length ''Bearer '') a) in
            if starts_with KEY_PREFIX raw then Some raw else None)"

definition get_current_user :: "auth_env \<Rightarrow> settings \<Rightarrow> time \<Rightarrow> request \<Rightarrow> auth_db \<Rightarrow> http_error + user_row" where
  "get_current_user E s now rq db =
     (case bearer_key rq of
        Some raw \<Rightarrow>
          (case resolve_api_key_user E db raw of
             None \<Rightarrow> Inl (unauthorized ''invalid api key'')
           | Some u \<Rightarrow> Inr u)
      | None \<Rightarrow> session_user E s now rq db)"

subsection \<open>The endpoints\<close>

record session_cookie =
  ck_name :: string
  ck_value :: string
  ck_httponly :: bool
  ck_secure :: bool
  ck_samesite :: string
  ck_max_age :: int

record login_response =
  lr_session_token :: string
  lr_expires_at :: time
  lr_cookie :: session_cookie

definition client_ip :: "request \<Rightarrow> string" where
  "client_ip rq = (case rq_client_host rq of Some h \<Rightarrow> h | None \<Rightarrow> ''unknown'')"

text \<open>Inserting a session and committing; \<open>token_hash\<close> is unique.\<close>

definition issue_for ::
  "auth_env \<Rightarrow> settings \<Rightarrow> time \<Rightarrow> string \<Rightarrow> request \<Rightarrow> uuid \<Rightarrow> auth_db \<Rightarrow> (http_error + login_response) \<times> auth_db" where
  "issue_for E s now token rq user_id db =
     (let issued = issue_session E (session_ttl_hours s) now token in
      if session_by_hash (is_token_hash issued) db \<noteq> None then (Inl (unhandled ''IntegrityError''), db)
      else (Inr \<lparr>lr_session_token = is_raw_token issued, lr_expires_at = is_expires_at issued,
                 lr_cookie = \<lparr>ck_name = session_cookie_name s, ck_value = is_raw_token issued, ck_httponly = True,
                    ck_secure = cookie_secure s, ck_samesite = cookie_samesite s,
                    ck_max_age = session_ttl_hours s * 3600\<rparr>\<rparr>,
            db\<lparr>db_sessions := db_sessions db @
               [\<lparr>as_user_id = user_id, as_token_hash = is_token_hash issued, as_expires_at = is_expires_at issued,
                 as_revoked_at = None, as_ip_hash = Some (hash_ip E (client_ip rq) []),
                 as_user_agent = rq_user_agent rq\<rparr>]\<rparr>))"

text \<open>Registration selects, hashes, then inserts: \<open>seen\<close> is the database at the select, \<open>db\<close> at the
  flush, when a concurrent registration may have come first.\<close>

definition register ::
  "auth_env \<Rightarrow> settings \<Rightarrow> time \<Rightarrow> uuid \<Rightarrow> string \<Rightarrow> string \<Rightarrow> request \<Rightarrow> string \<Rightarrow> string \<Rightarrow> string \<Rightarrow> auth_db \<Rightarrow> auth_db
     \<Rightarrow> (http_error + login_response) \<times> auth_db" where
  "register E s now new_id salt token rq email password display_name seen db =
     (if user_by_email email seen \<noteq> None then (Inl (http 409 ''email already registered''), db)
      else if length password < 8 then (Inl (http 400 ''password must be at least 8 characters''), db)
      else if user_by_email email db \<noteq> None then (Inl (http 409 ''email already registered''), db)
      else let user = \<lparr>u_id = new_id, u_email = email, u_password_hash = Some (hash_password E salt password),
                 u_display_name = (if py_strip display_name \<noteq> [] then py_strip display_name
                                   else hd (py_split (CHR ''@'') email)),
                 u_status = ''active'', u_plan_code = ''standard''\<rparr>
           in (case issue_for E s now token rq new_id (db\<lparr>db_users := db_users db @ [user]\<rparr>) of
                 (Inl e, _) \<Rightarrow> (Inl e, db)
               | (Inr r, db') \<Rightarrow> (Inr r, db')))"

definition login ::
  "auth_env \<Rightarrow> settings \<Rightarrow> time \<Rightarrow> string \<Rightarrow> request \<Rightarrow> string \<Rightarrow> string \<Rightarrow> auth_db \<Rightarrow> (http_error + login_response) \<times> auth_db" where
  "login E s now token rq email password db =
     (case user_by_email email db of
        None \<Rightarrow> (Inl (unauthorized ''invalid credentials''), db)
      | Some u \<Rightarrow>
          (case u_password_hash u of
             None \<Rightarrow> (Inl (unauthorized ''invalid credentials''), db)
           | Some stored \<Rightarrow>
               if \<not> verify_password E password stored then (Inl (unauthorized ''invalid credentials''), db)
               else if u_status u \<noteq> ''active'' then (Inl (http 403 ''account not active''), db)
               else issue_for E s now token rq (u_id u) db))"

definition revoke_where :: "(auth_session \<Rightarrow> bool) \<Rightarrow> time \<Rightarrow> auth_db \<Rightarrow> auth_db" where
  "revoke_where p now db =
     db\<lparr>db_sessions := map (\<lambda>a. if p a then a\<lparr>as_revoked_at := Some now\<rparr> else a) (db_sessions db)\<rparr>"

definition revoke_raw :: "auth_env \<Rightarrow> settings \<Rightarrow> time \<Rightarrow> request \<Rightarrow> auth_db \<Rightarrow> auth_db" where
  "revoke_raw E s now rq db =
     (case or_text (raw_token_of s rq) None of
        None \<Rightarrow> db
      | Some raw_token \<Rightarrow> revoke_where (\<lambda>a. as_token_hash a = hash_token E raw_token) now db)"

text \<open>The revocation and the new session are one transaction: a failed insert undoes both.\<close>

definition refresh ::
  "auth_env \<Rightarrow> settings \<Rightarrow> time \<Rightarrow> string \<Rightarrow> request \<Rightarrow> auth_db \<Rightarrow> (http_error + login_response) \<times> auth_db" where
  "refresh E s now token rq db =
     (case get_current_user E s now rq db of
        Inl e \<Rightarrow> (Inl e, db)
      | Inr u \<Rightarrow> (case issue_for E s now token rq (u_id u) (revoke_raw E s now rq db) of
            (Inl e, _) \<Rightarrow> (Inl e, db)
          | (Inr r, db') \<Rightarrow> (Inr r, db')))"

definition logout :: "auth_env \<Rightarrow> settings \<Rightarrow> time \<Rightarrow> request \<Rightarrow> auth_db \<Rightarrow> (http_error + unit) \<times> auth_db" where
  "logout E s now rq db =
     (case get_current_user E s now rq db of
        Inl e \<Rightarrow> (Inl e, db)
      | Inr u \<Rightarrow> (Inr (), revoke_raw E s now rq db))"

definition logout_all :: "auth_env \<Rightarrow> settings \<Rightarrow> time \<Rightarrow> request \<Rightarrow> auth_db \<Rightarrow> (http_error + unit) \<times> auth_db" where
  "logout_all E s now rq db =
     (case get_current_user E s now rq db of
        Inl e \<Rightarrow> (Inl e, db)
      | Inr u \<Rightarrow> (Inr (), revoke_where (\<lambda>a. as_user_id a = u_id u \<and> as_revoked_at a = None) now db))"

definition me :: "auth_env \<Rightarrow> settings \<Rightarrow> time \<Rightarrow> request \<Rightarrow> auth_db \<Rightarrow> http_error + (string \<times> string \<times> string)" where
  "me E s now rq db =
     (case get_current_user E s now rq db of
        Inl e \<Rightarrow> Inl e
      | Inr u \<Rightarrow> Inr (uuid_text (u_id u), u_email u, u_display_name u))"

subsection \<open>Runs of the endpoints\<close>

datatype auth_op =
    Op_Register time uuid string string request string string string auth_db
  | Op_Login time string request string string
  | Op_Refresh time string request
  | Op_Logout time request
  | Op_Logout_All time request

fun auth_step :: "auth_env \<Rightarrow> settings \<Rightarrow> auth_op \<Rightarrow> auth_db \<Rightarrow> auth_db" where
  "auth_step E s (Op_Register now i salt token rq email pw dn seen) db = snd (register E s now i salt token rq email pw dn seen db)"
| "auth_step E s (Op_Login now token rq email pw) db = snd (login E s now token rq email pw db)"
| "auth_step E s (Op_Refresh now token rq) db = snd (refresh E s now token rq db)"
| "auth_step E s (Op_Logout now rq) db = snd (logout E s now rq db)"
| "auth_step E s (Op_Logout_All now rq) db = snd (logout_all E s now rq db)"

definition auth_run :: "auth_env \<Rightarrow> settings \<Rightarrow> auth_op list \<Rightarrow> auth_db \<Rightarrow> auth_db" where
  "auth_run E s ops db = fold (auth_step E s) ops db"

text \<open>The unique constraint on \<open>token_hash\<close>, and a request that presents nothing but a session token.\<close>

definition auth_ok :: "auth_db \<Rightarrow> bool" where
  "auth_ok db \<longleftrightarrow> distinct (map as_token_hash (db_sessions db))"

definition presenting :: "string \<Rightarrow> request" where
  "presenting t = \<lparr>rq_session_token = Some t, rq_authorization = None, rq_cookies = [], rq_client_host = None, rq_user_agent = None\<rparr>"

text \<open>The whole effect of an endpoint on the sessions: some are revoked, at most one, with a new hash,
  is added.\<close>

definition aged :: "auth_session \<Rightarrow> auth_session \<Rightarrow> bool" where
  "aged a b \<longleftrightarrow> b = a \<or> (\<exists>now. b = a\<lparr>as_revoked_at := Some now\<rparr>)"

lemma aged_refl [simp]: "aged a a" and aged_revoke [simp]: "aged a (a\<lparr>as_revoked_at := Some now\<rparr>)"
  by (auto simp: aged_def)

lemma aged_hash: "aged a b \<Longrightarrow> as_token_hash b = as_token_hash a \<and> (as_revoked_at a \<noteq> None \<longrightarrow> as_revoked_at b \<noteq> None)"
  by (auto simp: aged_def)

definition sessions_evolve :: "auth_session list \<Rightarrow> auth_session list \<Rightarrow> bool" where
  "sessions_evolve xs ys \<longleftrightarrow> (\<exists>zs added. ys = zs @ added \<and> list_all2 aged xs zs \<and>
     (\<forall>n \<in> set added. as_token_hash n \<notin> as_token_hash ` set xs))"

lemma evolve_aged: "list_all2 aged xs ys \<Longrightarrow> sessions_evolve xs ys"
  unfolding sessions_evolve_def by (intro exI [of _ ys] exI [of _ "[]"]) simp

lemma evolve_added: "list_all2 aged xs zs \<Longrightarrow> as_token_hash n \<notin> as_token_hash ` set xs \<Longrightarrow> sessions_evolve xs (zs @ [n])"
  unfolding sessions_evolve_def by (intro exI [of _ zs] exI [of _ "[n]"]) simp

lemma aged_same: "list_all2 aged xs xs"
  by (simp add: list_all2_refl)

lemma evolve_refl [simp]: "sessions_evolve xs xs"
  by (rule evolve_aged [OF aged_same])

lemma aged_revoke_where: "list_all2 aged (db_sessions db) (db_sessions (revoke_where p now db))"
  unfolding revoke_where_def by (auto simp: list_all2_map2 intro: list_all2_refl)

lemma aged_revoke_raw: "list_all2 aged (db_sessions db) (db_sessions (revoke_raw E s now rq db))"
  unfolding revoke_raw_def by (auto simp: aged_revoke_where aged_same split: option.split)

lemma hashes_revoke [simp]:
  "map as_token_hash (db_sessions (revoke_where p now db)) = map as_token_hash (db_sessions db)"
  by (simp add: revoke_where_def)

lemma session_by_hash_None: "session_by_hash h db = None \<longleftrightarrow> h \<notin> as_token_hash ` set (db_sessions db)"
  by (auto simp: session_by_hash_def find_None_iff)

lemma issue_for_evolve:
  assumes "list_all2 aged xs (db_sessions db)" "issue_for E s now token rq u db = (Inr r, db')"
  shows "sessions_evolve xs (db_sessions db')"
proof -
  have "map as_token_hash (db_sessions db) = map as_token_hash xs"
    using assms(1) by (induction rule: list_all2_induct) (auto simp: aged_def)
  then have h: "as_token_hash ` set (db_sessions db) = as_token_hash ` set xs" by (metis list.set_map)
  from assms(2) have new: "session_by_hash (hash_token E token) db = None"
    and db': "\<exists>n. db_sessions db' = db_sessions db @ [n] \<and> as_token_hash n = hash_token E token"
    by (auto simp: issue_for_def issue_session_def Let_def split: if_splits)
  from new h have "hash_token E token \<notin> as_token_hash ` set xs" by (simp add: session_by_hash_None)
  with db' evolve_added [OF assms(1)] show ?thesis by auto
qed

lemma issue_for_fails: "issue_for E s now token rq u db = (Inl e, db') \<Longrightarrow> db' = db"
  by (auto simp: issue_for_def Let_def split: if_splits)

lemma auth_step_evolve: "sessions_evolve (db_sessions db) (db_sessions (auth_step E s op1 db))"
proof (cases op1)
  case (Op_Register now i salt token rq email pw dn seen)
  define u where "u = \<lparr>u_id = i, u_email = email, u_password_hash = Some (hash_password E salt pw),
    u_display_name = (if py_strip dn \<noteq> [] then py_strip dn else hd (py_split (CHR ''@'') email)),
    u_status = ''active'', u_plan_code = ''standard''\<rparr>"
  let ?db = "db\<lparr>db_users := db_users db @ [u]\<rparr>"
  have "list_all2 aged (db_sessions db) (db_sessions ?db)" by (simp add: aged_same)
  from issue_for_evolve [OF this] Op_Register show ?thesis
    by (auto simp: register_def Let_def u_def [symmetric] split: prod.splits sum.splits)
next
  case (Op_Login now token rq email pw)
  have "sessions_evolve (db_sessions db) (db_sessions (snd (issue_for E s now token rq i db)))" for i
  proof (cases "issue_for E s now token rq i db")
    case (Pair r db')
    then show ?thesis using issue_for_evolve [OF aged_same] issue_for_fails by (cases r) fastforce+
  qed
  with Op_Login show ?thesis by (simp add: login_def split: option.split)
next
  case (Op_Refresh now token rq)
  from issue_for_evolve [OF aged_revoke_raw] Op_Refresh show ?thesis
    by (auto simp: refresh_def split: prod.splits sum.splits)
next
  case (Op_Logout now rq)
  then show ?thesis using evolve_aged [OF aged_revoke_raw] by (auto simp: logout_def split: sum.split)
next
  case (Op_Logout_All now rq)
  then show ?thesis using evolve_aged [OF aged_revoke_where] by (auto simp: logout_all_def split: sum.split)
qed

text \<open>A session that is dead (revoked, under its hash) stays dead.\<close>

definition dead :: "string \<Rightarrow> auth_session list \<Rightarrow> bool" where
  "dead h xs \<longleftrightarrow> (\<exists>a \<in> set xs. as_token_hash a = h) \<and> (\<forall>a \<in> set xs. as_token_hash a = h \<longrightarrow> as_revoked_at a \<noteq> None)"

lemma evolve_dead:
  assumes "sessions_evolve xs ys" "dead h xs"
  shows "dead h ys"
proof -
  from assms(1) obtain zs added where z: "ys = zs @ added" "list_all2 aged xs zs"
    "\<forall>n \<in> set added. as_token_hash n \<notin> as_token_hash ` set xs" unfolding sessions_evolve_def by blast
  have "\<exists>b \<in> set zs. as_token_hash b = as_token_hash a" if "a \<in> set xs" for a
    using z(2) that by (induction rule: list_all2_induct) (auto simp: aged_def)
  then have some: "\<exists>b \<in> set zs. as_token_hash b = h" using assms(2) unfolding dead_def by metis
  have "as_revoked_at b \<noteq> None" if "b \<in> set zs" "as_token_hash b = h" for b
    using list_all2_in [OF z(2) that(1)] aged_hash that(2) assms(2) unfolding dead_def by metis
  moreover have "h \<in> as_token_hash ` set xs" using assms(2) unfolding dead_def by blast
  ultimately show ?thesis using some z(3) unfolding dead_def z(1) by fastforce
qed

lemma run_dead: "dead h (db_sessions db) \<Longrightarrow> dead h (db_sessions (auth_run E s ops db))"
  unfolding auth_run_def by (induction ops arbitrary: db) (simp_all add: evolve_dead [OF auth_step_evolve])

lemma presenting_user:
  "t \<noteq> [] \<Longrightarrow> get_current_user E s now (presenting t) db =
    (case session_by_hash (hash_token E t) db of
       None \<Rightarrow> Inl (unauthorized ''session invalid'')
     | Some a \<Rightarrow>
         if \<not> is_session_valid (as_expires_at a) (as_revoked_at a) now then Inl (unauthorized ''session invalid'')
         else (case user_by_id (as_user_id a) db of
             None \<Rightarrow> Inl (unauthorized ''user not active'')
           | Some u \<Rightarrow> if u_status u \<noteq> ''active'' then Inl (unauthorized ''user not active'') else Inr u))"
  by (simp add: get_current_user_def bearer_key_def presenting_def session_user_def raw_token_of_def or_text_def)

lemma dead_rejected:
  "dead (hash_token E t) (db_sessions db) \<Longrightarrow> t \<noteq> [] \<Longrightarrow>
    get_current_user E s now (presenting t) db = Inl (unauthorized ''session invalid'')"
  by (auto simp: presenting_user is_session_valid_def session_by_hash_def dead_def
      split: option.split dest: find_in)

lemma session_by_hash_revoke:
  assumes "\<And>a b. as_token_hash a = as_token_hash b \<Longrightarrow> a \<in> set (db_sessions db) \<Longrightarrow> b \<in> set (db_sessions db) \<Longrightarrow> p a = p b"
  shows "session_by_hash h (revoke_where p now db) =
    map_option (\<lambda>a. if p a then a\<lparr>as_revoked_at := Some now\<rparr> else a) (session_by_hash h db)"
proof -
  have "find (\<lambda>a. as_token_hash a = h) (map (\<lambda>a. if p a then a\<lparr>as_revoked_at := Some now\<rparr> else a) xs) =
      map_option (\<lambda>a. if p a then a\<lparr>as_revoked_at := Some now\<rparr> else a) (find (\<lambda>a. as_token_hash a = h) xs)" for xs
    by (induction xs) auto
  then show ?thesis by (simp add: session_by_hash_def revoke_where_def)
qed

lemma find_append: "find p (xs @ ys) = (case find p xs of None \<Rightarrow> find p ys | Some x \<Rightarrow> Some x)"
  by (induction xs) auto

lemma issue_for_facts:
  assumes "issue_for E s now token rq u db = (Inr r, db')"
  shows "lr_session_token r = token" "lr_expires_at r = now + session_ttl_hours s * 3600 * 1000000"
    "db_users db' = db_users db" "db_api_keys db' = db_api_keys db" "session_by_hash (hash_token E token) db = None"
    "\<exists>n. as_user_id n = u \<and> as_expires_at n = lr_expires_at r \<and> as_revoked_at n = None \<and>
      (\<forall>h. session_by_hash h db' = (if h = hash_token E token then Some n else session_by_hash h db))"
proof -
  have none: "session_by_hash (hash_token E token) db = None"
    using assms by (auto simp: issue_for_def issue_session_def Let_def split: if_splits)
  then show "session_by_hash (hash_token E token) db = None" .
  define n where "n = \<lparr>as_user_id = u, as_token_hash = hash_token E token, as_expires_at = now + session_ttl_hours s * 3600 * 1000000,
    as_revoked_at = None, as_ip_hash = Some (hash_ip E (client_ip rq) []), as_user_agent = rq_user_agent rq\<rparr>"
  have db': "db' = db\<lparr>db_sessions := db_sessions db @ [n]\<rparr>"
    and r: "lr_session_token r = token" "lr_expires_at r = now + session_ttl_hours s * 3600 * 1000000"
    using assms none by (auto simp: issue_for_def issue_session_def Let_def n_def)
  show "lr_session_token r = token" "lr_expires_at r = now + session_ttl_hours s * 3600 * 1000000" by (fact r)+
  show "db_users db' = db_users db" "db_api_keys db' = db_api_keys db" by (simp_all add: db')
  have "session_by_hash h db' = (if h = hash_token E token then Some n else session_by_hash h db)" for h
    using none by (auto simp: session_by_hash_def db' find_append n_def split: option.split)
  moreover have "as_user_id n = u \<and> as_expires_at n = lr_expires_at r \<and> as_revoked_at n = None" by (simp add: n_def r)
  ultimately show "\<exists>n. as_user_id n = u \<and> as_expires_at n = lr_expires_at r \<and> as_revoked_at n = None \<and>
      (\<forall>h. session_by_hash h db' = (if h = hash_token E token then Some n else session_by_hash h db))" by blast
qed

lemma users_revoke [simp]: "db_users (revoke_where p now db) = db_users db" "db_api_keys (revoke_where p now db) = db_api_keys db"
  by (simp_all add: revoke_where_def)

lemma presenting_cong:
  assumes "session_by_hash (hash_token E t) db' = session_by_hash (hash_token E t) db" "db_users db' = db_users db"
  shows "session_user E s now (presenting t) db' = session_user E s now (presenting t) db"
proof -
  have "user_by_id i db' = user_by_id i db" for i by (simp add: user_by_id_def assms(2))
  then show ?thesis by (simp add: session_user_def presenting_def raw_token_of_def or_text_def assms(1)
      split: option.split)
qed

subsection \<open>Properties\<close>

text \<open>C23. Refreshing rotates the token: the old one is refused in every later run of the endpoints and
  at every time, the new one authenticates the same user until it expires, and every other token
  keeps its meaning.\<close>

theorem refresh_rotates:
  assumes "bearer_key rq = None" and "raw_token_of s rq = Some old"
    and "refresh E s now token rq db = (Inr r, db')" and "token \<noteq> []"
  shows "get_current_user E s t (presenting old) (auth_run E s ops db') = Inl (unauthorized ''session invalid'') \<and>
    (t < lr_expires_at r \<longrightarrow> get_current_user E s t (presenting (lr_session_token r)) db' = get_current_user E s now rq db) \<and>
    (\<forall>k. hash_token E k \<notin> hash_token E ` {old, token} \<longrightarrow>
       session_user E s t (presenting k) db' = session_user E s t (presenting k) db)"
proof -
  from assms(3) obtain u where u: "get_current_user E s now rq db = Inr u"
    and i: "issue_for E s now token rq (u_id u) (revoke_raw E s now rq db) = (Inr r, db')"
    by (auto simp: refresh_def split: sum.splits prod.splits)
  from u assms(1,2) obtain a where old: "old \<noteq> []" and a: "session_by_hash (hash_token E old) db = Some a"
    and ua: "user_by_id (as_user_id a) db = Some u" "u_status u = ''active''"
    by (auto simp: get_current_user_def session_user_def or_text_def split: option.splits if_splits)
  have rr: "revoke_raw E s now rq db = revoke_where (\<lambda>b. as_token_hash b = hash_token E old) now db"
    using assms(2) old by (simp add: revoke_raw_def or_text_def)
  note facts = issue_for_facts [OF i]
  have users: "db_users db' = db_users db" using facts(3) by (simp add: rr)
  have look: "session_by_hash h (revoke_raw E s now rq db) = (if h = hash_token E old
      then map_option (\<lambda>b. b\<lparr>as_revoked_at := Some now\<rparr>) (session_by_hash h db) else session_by_hash h db)" for h
  proof -
    have "as_token_hash b = h" if "session_by_hash h db = Some b" for b
      using find_in [OF that [unfolded session_by_hash_def]] by simp
    with session_by_hash_revoke [of db "\<lambda>b. as_token_hash b = hash_token E old" h now] show ?thesis
      unfolding rr by (cases "session_by_hash h db") auto
  qed
  from facts(6) obtain n where n: "as_user_id n = u_id u" "as_expires_at n = lr_expires_at r" "as_revoked_at n = None"
    "\<And>h. session_by_hash h db' = (if h = hash_token E token then Some n else session_by_hash h (revoke_raw E s now rq db))"
    by blast
  have dead1: "dead (hash_token E old) (db_sessions (revoke_raw E s now rq db))"
    using find_in [OF a [unfolded session_by_hash_def]]
    by (auto simp: rr dead_def revoke_where_def intro!: bexI [of _ "a\<lparr>as_revoked_at := Some now\<rparr>"])
  have "dead (hash_token E old) (db_sessions db')"
    by (rule evolve_dead [OF issue_for_evolve [OF aged_same i] dead1])
  then have 1: "get_current_user E s t (presenting old) (auth_run E s ops db') = Inl (unauthorized ''session invalid'')"
    by (intro dead_rejected run_dead old)
  have "user_by_id (u_id u) db' = Some u"
    using ua users find_in [of "\<lambda>x. u_id x = as_user_id a" "db_users db" u] by (auto simp: user_by_id_def)
  then have 2: "t < lr_expires_at r \<longrightarrow> get_current_user E s t (presenting (lr_session_token r)) db' = Inr u"
    using assms(4) n ua by (simp add: facts(1) presenting_user is_session_valid_def)
  have "session_user E s t (presenting k) db' = session_user E s t (presenting k) db"
    if "hash_token E k \<notin> hash_token E ` {old, token}" for k
    by (rule presenting_cong) (use that n(4) look users in auto)
  with 1 2 u show ?thesis by simp
qed

text \<open>A database with two users, a session each, and a service key of the first.\<close>

definition small_env :: auth_env where
  "small_env = \<lparr>ae_sha256 = (\<lambda>x. x), ae_hash = (\<lambda>salt x. salt @ x), ae_verify = (\<lambda>st x. if st = x then Verified else VerifyMismatchError)\<rparr>"

definition user_of :: "uuid \<Rightarrow> user_row" where
  "user_of i = \<lparr>u_id = i, u_email = nat_str i, u_password_hash = None, u_display_name = ''u'', u_status = ''active'', u_plan_code = ''standard''\<rparr>"

definition session_of :: "uuid \<Rightarrow> string \<Rightarrow> auth_session" where
  "session_of i t = \<lparr>as_user_id = i, as_token_hash = t, as_expires_at = 1000, as_revoked_at = None, as_ip_hash = None, as_user_agent = None\<rparr>"

definition small_auth_db :: auth_db where
  "small_auth_db = \<lparr>db_users = [user_of 1, user_of 2], db_sessions = [session_of 1 ''a'', session_of 2 ''b''],
     db_api_keys = [\<lparr>ak_user_id = 1, ak_key_hash = ''imgn_k'', ak_label = ''bot'', ak_revoked_at = None\<rparr>]\<rparr>"

definition with_key :: request where
  "with_key = (presenting [])\<lparr>rq_session_token := None, rq_authorization := Some ''Bearer imgn_k''\<rparr>"

theorem refresh_rotates_witness:
  "\<exists>r db'. refresh small_env default_settings 5 ''c'' (presenting ''a'') small_auth_db = (Inr r, db') \<and>
    get_current_user small_env default_settings 6 (presenting ''a'') db' = Inl (unauthorized ''session invalid'')"
proof -
  have "\<exists>r db'. refresh small_env default_settings 5 ''c'' (presenting ''a'') small_auth_db = (Inr r, db')"
    by (simp add: refresh_def presenting_user issue_for_def issue_session_def session_by_hash_def hash_token_def small_env_def
        small_auth_db_def session_of_def user_by_id_def user_of_def is_session_valid_def revoke_raw_def raw_token_of_def
        presenting_def [of "''a''"] or_text_def revoke_where_def get_current_user_def bearer_key_def session_user_def Let_def)
  then obtain r db' where r: "refresh small_env default_settings 5 ''c'' (presenting ''a'') small_auth_db = (Inr r, db')" by blast
  have b: "bearer_key (presenting ''a'') = None" and t: "raw_token_of default_settings (presenting ''a'') = Some ''a''"
    by (simp_all add: bearer_key_def presenting_def raw_token_of_def or_text_def)
  from refresh_rotates [OF b t r, of 6 "[]"] r show ?thesis by (auto simp: auth_run_def)
qed

text \<open>Logging out everywhere ends every session of the user, in every later run, and no session of
  anybody else: the tokens of other users authenticate as before.\<close>

theorem logout_all_is_exact:
  assumes "auth_ok db" and "get_current_user E s now rq db = Inr u" and "logout_all E s now rq db = (Inr (), db')"
  shows "\<forall>a \<in> set (db_sessions db). \<forall>k. k \<noteq> [] \<longrightarrow> as_token_hash a = hash_token E k \<longrightarrow>
    (if as_user_id a = u_id u
     then get_current_user E s t (presenting k) (auth_run E s ops db') = Inl (unauthorized ''session invalid'')
     else get_current_user E s t (presenting k) db' = get_current_user E s t (presenting k) db)"
proof (intro ballI allI impI)
  fix a k assume a: "a \<in> set (db_sessions db)" "k \<noteq> []" "as_token_hash a = hash_token E k"
  let ?p = "\<lambda>a. as_user_id a = u_id u \<and> as_revoked_at a = None"
  have db': "db' = revoke_where ?p now db" using assms(2,3) by (simp add: logout_all_def)
  have uniq: "b = c" if "b \<in> set (db_sessions db)" "c \<in> set (db_sessions db)" "as_token_hash b = as_token_hash c" for b c
    using assms(1) that by (auto simp: auth_ok_def distinct_map dest: inj_onD)
  have find: "session_by_hash (hash_token E k) db = Some a"
  proof (cases "session_by_hash (hash_token E k) db")
    case None
    with a(1,3) show ?thesis by (metis session_by_hash_None imageI)
  next
    case (Some b)
    from find_in [OF this [unfolded session_by_hash_def]] a uniq [of b a] have "b = a" by simp
    with Some show ?thesis by simp
  qed
  show "if as_user_id a = u_id u
     then get_current_user E s t (presenting k) (auth_run E s ops db') = Inl (unauthorized ''session invalid'')
     else get_current_user E s t (presenting k) db' = get_current_user E s t (presenting k) db"
  proof (cases "as_user_id a = u_id u")
    case True
    let ?f = "\<lambda>b. if ?p b then b\<lparr>as_revoked_at := Some now\<rparr> else b"
    have sess: "db_sessions db' = map ?f (db_sessions db)" by (simp add: db' revoke_where_def)
    have "?f a \<in> set (db_sessions db')" unfolding sess list.set_map using a(1) by (rule imageI)
    moreover have "as_token_hash (?f a) = hash_token E k" using a(3) by simp
    moreover have "as_revoked_at c \<noteq> None" if c: "c \<in> set (db_sessions db')" "as_token_hash c = hash_token E k" for c
    proof -
      from c(1) obtain b where b: "b \<in> set (db_sessions db)" "c = ?f b" unfolding sess by auto
      with c(2) a(3) have "as_token_hash b = as_token_hash a" by (simp split: if_splits)
      with b a(1) uniq have "b = a" by blast
      with b(2) True show ?thesis by (simp split: if_splits)
    qed
    ultimately have "dead (hash_token E k) (db_sessions db')" unfolding dead_def by blast
    with True a(2) show ?thesis by (simp add: dead_rejected run_dead)
  next
    case False
    have "session_by_hash (hash_token E k) db' = session_by_hash (hash_token E k) db"
      unfolding db' by (subst session_by_hash_revoke) (use False find uniq in auto)
    moreover have "user_by_id i db' = user_by_id i db" for i by (simp add: user_by_id_def db')
    ultimately show ?thesis using False find a(2) by (simp add: presenting_user)
  qed
qed

theorem logout_all_is_exact_witness:
  "\<exists>db'. logout_all small_env default_settings 5 (presenting ''a'') small_auth_db = (Inr (), db') \<and>
    get_current_user small_env default_settings 6 (presenting ''a'') db' = Inl (unauthorized ''session invalid'') \<and>
    get_current_user small_env default_settings 6 (presenting ''b'') db' = Inr (user_of 2)"
proof -
  have u: "get_current_user small_env default_settings t (presenting ''a'') small_auth_db = Inr (user_of 1)"
    "get_current_user small_env default_settings t (presenting ''b'') small_auth_db = Inr (user_of 2)" if "t < 1000" for t
    using that by (simp_all add: presenting_user session_by_hash_def hash_token_def small_env_def small_auth_db_def
        session_of_def user_by_id_def is_session_valid_def) (simp_all add: user_of_def)
  then obtain db' where l: "logout_all small_env default_settings 5 (presenting ''a'') small_auth_db = (Inr (), db')"
    by (simp add: logout_all_def)
  have ok: "auth_ok small_auth_db" by (simp add: auth_ok_def small_auth_db_def session_of_def)
  from logout_all_is_exact [OF ok u(1) l, of 6 "[]"] u(2) [of 6] l show ?thesis
    by (auto simp: small_auth_db_def session_of_def user_of_def hash_token_def small_env_def auth_run_def)
qed

text \<open>Revoking an API key does not end the access it gave: \<open>/auth/refresh\<close> takes a key as
  authentication and issues an ordinary session for it, which works after every key is revoked.\<close>

theorem api_key_session_outlives_key:
  assumes "bearer_key rq = Some raw" and "refresh E s now token rq db = (Inr r, db')" and "token \<noteq> []"
    and "t < now + session_ttl_hours s * 3600 * 1000000"
  shows "\<exists>u. get_current_user E s now rq db = Inr u \<and>
    (let revoked = db'\<lparr>db_api_keys := map (\<lambda>k. k\<lparr>ak_revoked_at := Some now\<rparr>) (db_api_keys db')\<rparr> in
     get_current_user E s t rq revoked = Inl (unauthorized ''invalid api key'') \<and>
     get_current_user E s t (presenting (lr_session_token r)) revoked = Inr u)"
proof -
  from assms(2) obtain u where u: "get_current_user E s now rq db = Inr u"
    and i: "issue_for E s now token rq (u_id u) (revoke_raw E s now rq db) = (Inr r, db')"
    by (auto simp: refresh_def split: sum.splits prod.splits)
  note facts = issue_for_facts [OF i]
  have users: "db_users db' = db_users db"
    using facts(3) by (auto simp: revoke_raw_def split: option.splits)
  from u assms(1) have ua: "u_status u = ''active''" "\<exists>k. user_by_id k db = Some u"
    by (auto simp: get_current_user_def resolve_api_key_user_def split: option.splits if_splits)
  then have "find (\<lambda>x. u_id x = u_id u) (db_users db') = Some u"
    using find_in [of _ "db_users db" u] by (auto simp: users user_by_id_def)
  moreover define revoked where "revoked = db'\<lparr>db_api_keys := map (\<lambda>k. k\<lparr>ak_revoked_at := Some now\<rparr>) (db_api_keys db')\<rparr>"
  ultimately have "user_by_id (u_id u) revoked = Some u" by (simp add: user_by_id_def)
  moreover have "session_by_hash h revoked = session_by_hash h db'" for h by (simp add: session_by_hash_def revoked_def)
  moreover from facts(6) obtain n where "as_user_id n = u_id u" "as_expires_at n = lr_expires_at r" "as_revoked_at n = None"
    "session_by_hash (hash_token E token) db' = Some n" by auto
  ultimately have "get_current_user E s t (presenting (lr_session_token r)) revoked = Inr u"
    using assms(3,4) ua(1) facts(2) by (simp add: facts(1) presenting_user is_session_valid_def)
  moreover have "ak_revoked_at k \<noteq> None" if "find p (db_api_keys revoked) = Some k" for p k
    using find_in [OF that] by (auto simp: revoked_def)
  then have "resolve_api_key_user E revoked raw = None"
    by (auto simp: resolve_api_key_user_def is_api_key_active_def split: option.split)
  then have "get_current_user E s t rq revoked = Inl (unauthorized ''invalid api key'')"
    using assms(1) by (simp add: get_current_user_def)
  ultimately show ?thesis using u unfolding revoked_def Let_def by blast
qed

theorem api_key_session_outlives_key_witness:
  "\<exists>r db'. refresh small_env default_settings 5 ''c'' with_key small_auth_db = (Inr r, db') \<and>
    get_current_user small_env default_settings 9 (presenting ''c'')
      (db'\<lparr>db_api_keys := map (\<lambda>k. k\<lparr>ak_revoked_at := Some 5\<rparr>) (db_api_keys db')\<rparr>) = Inr (user_of 1)"
proof -
  have b: "bearer_key with_key = Some ''imgn_k''"
    by (simp add: bearer_key_def with_key_def KEY_PREFIX_def py_strip_def is_space_def)
  have u: "get_current_user small_env default_settings 5 with_key small_auth_db = Inr (user_of 1)"
    by (simp add: get_current_user_def b resolve_api_key_user_def hash_api_key_def small_env_def small_auth_db_def
        is_api_key_active_def user_by_id_def) (simp add: user_of_def)
  have rr: "revoke_raw small_env default_settings 5 with_key small_auth_db = small_auth_db"
    by (simp add: revoke_raw_def raw_token_of_def with_key_def presenting_def or_text_def)
  have "\<exists>r db'. refresh small_env default_settings 5 ''c'' with_key small_auth_db = (Inr r, db') \<and> lr_session_token r = ''c''"
  proof -
    have "\<exists>r db'. issue_for small_env default_settings 5 ''c'' with_key i small_auth_db = (Inr r, db') \<and> lr_session_token r = ''c''" for i
      by (simp add: issue_for_def issue_session_def session_by_hash_def hash_token_def small_env_def
          small_auth_db_def session_of_def Let_def)
    then obtain r db' where "issue_for small_env default_settings 5 ''c'' with_key (u_id (user_of 1)) small_auth_db = (Inr r, db')"
      "lr_session_token r = ''c''" by blast
    then show ?thesis by (simp add: refresh_def u rr)
  qed
  then obtain r db' where r: "refresh small_env default_settings 5 ''c'' with_key small_auth_db = (Inr r, db')"
    "lr_session_token r = ''c''" by blast
  have t: "(9::int) < 5 + session_ttl_hours default_settings * 3600 * 1000000" by (simp add: default_settings_def)
  from api_key_session_outlives_key [OF b r(1) _ t] r u show ?thesis by (auto simp: Let_def)
qed

end
