(* ===== verification/Rate_Limit.thy ===== *)
theory Rate_Limit
  imports Settings Py_Uuid Py_Json
begin

section \<open>Rate limits and the admission gate (core/rate_limit.py, api/deps.py)\<close>

text \<open>
  The two soft limits in front of the endpoints. Redis is a service: the client is a record of the
  commands the code sends, over a world \<open>'r\<close>, each of which may raise. \<open>counting\<close> states the
  documented behaviour of \<open>INCR\<close> and \<open>DECR\<close> while the service is up: a counter per key that starts
  at zero and that the two commands move by one and return.
\<close>

subsection \<open>Definitions\<close>

record 'r redis_client =
  r_incr :: "string \<Rightarrow> 'r \<Rightarrow> (exc + int) \<times> 'r"
  r_decr :: "string \<Rightarrow> 'r \<Rightarrow> (exc + int) \<times> 'r"
  r_expire :: "string \<Rightarrow> int \<Rightarrow> 'r \<Rightarrow> (exc + unit) \<times> 'r"

definition window_of :: "int \<Rightarrow> time \<Rightarrow> int" where
  "window_of window_seconds now = now div (window_seconds * 1000000)"

definition rate_limit_key :: "string \<Rightarrow> string \<Rightarrow> int \<Rightarrow> time \<Rightarrow> string" where
  "rate_limit_key scope user_id window_seconds now =
     ''rl:'' @ scope @ '':'' @ user_id @ '':'' @ int_str (window_of window_seconds now)"

definition seconds_until_window_reset :: "int \<Rightarrow> time \<Rightarrow> int" where
  "seconds_until_window_reset window_seconds now =
     window_seconds - (now mod (window_seconds * 1000000)) div 1000000 + 1"

definition check_rate_limit ::
  "'r redis_client option \<Rightarrow> string \<Rightarrow> string \<Rightarrow> int \<Rightarrow> int \<Rightarrow> time \<Rightarrow> 'r \<Rightarrow> bool \<times> 'r" where
  "check_rate_limit redis scope user_id limit_per_window window_seconds now w =
     (case redis of
        None \<Rightarrow> (True, w)
      | Some R \<Rightarrow>
          if limit_per_window \<le> 0 then (True, w)
          else let key = rate_limit_key scope user_id window_seconds now in
            (case r_incr R key w of
               (Inl e, w) \<Rightarrow> (True, w)
             | (Inr count, w) \<Rightarrow>
                 if count = 1 then
                   (case r_expire R key window_seconds w of
                      (Inl e, w) \<Rightarrow> (True, w)
                    | (Inr _, w) \<Rightarrow> (count \<le> limit_per_window, w))
                 else (count \<le> limit_per_window, w)))"

record 'r admission_gate =
  gate_redis :: "'r redis_client option"
  max_inflight :: int
  gate_ttl :: int

definition GATE_KEY :: string where
  "GATE_KEY = ''admission:inflight''"

definition gate_release :: "'r admission_gate \<Rightarrow> 'r \<Rightarrow> 'r" where
  "gate_release g w =
     (case gate_redis g of
        None \<Rightarrow> w
      | Some R \<Rightarrow> snd (r_decr R GATE_KEY w))"

definition try_acquire :: "'r admission_gate \<Rightarrow> 'r \<Rightarrow> bool \<times> 'r" where
  "try_acquire g w =
     (case gate_redis g of
        None \<Rightarrow> (True, w)
      | Some R \<Rightarrow>
          if max_inflight g \<le> 0 then (True, w)
          else (case r_incr R GATE_KEY w of
              (Inl e, w) \<Rightarrow> (True, w)
            | (Inr count, w) \<Rightarrow>
                (case r_expire R GATE_KEY (gate_ttl g) w of
                   (Inl e, w) \<Rightarrow> (True, w)
                 | (Inr _, w) \<Rightarrow>
                     if max_inflight g < count then (False, gate_release g w) else (True, w))))"

text \<open>The dependency in front of a handler, before and after its \<open>yield\<close>.\<close>

definition check_admission_capacity ::
  "settings \<Rightarrow> 'r admission_gate option \<Rightarrow> 'r \<Rightarrow> (http_error + unit) \<times> 'r" where
  "check_admission_capacity s gate w =
     (case gate of
        None \<Rightarrow> (Inr (), w)
      | Some g \<Rightarrow> (case try_acquire g w of
            (True, w) \<Rightarrow> (Inr (), w)
          | (False, w) \<Rightarrow> (Inl \<lparr>he_status = 503, he_detail = ''Server is at capacity, please retry shortly'',
               he_retry_after = Some (admission_gate_retry_after_s s)\<rparr>, w)))"

definition leave_gate :: "'r admission_gate option \<Rightarrow> 'r \<Rightarrow> 'r" where
  "leave_gate gate w = (case gate of None \<Rightarrow> w | Some g \<Rightarrow> gate_release g w)"

definition rate_limited ::
  "'r redis_client option \<Rightarrow> string \<Rightarrow> int \<Rightarrow> uuid \<Rightarrow> time \<Rightarrow> 'r \<Rightarrow> (http_error + unit) \<times> 'r" where
  "rate_limited redis scope limit user now w =
     (case check_rate_limit redis scope (uuid_text user) limit 60 now w of
        (True, w) \<Rightarrow> (Inr (), w)
      | (False, w) \<Rightarrow> (Inl \<lparr>he_status = 429, he_detail = ''Too many requests, please slow down'',
           he_retry_after = Some (seconds_until_window_reset 60 now)\<rparr>, w))"

subsection \<open>What Redis documents\<close>

definition counting :: "'r redis_client \<Rightarrow> ('r \<Rightarrow> string \<Rightarrow> int) \<Rightarrow> ('r \<Rightarrow> bool) \<Rightarrow> bool" where
  "counting R cnt up \<longleftrightarrow>
     (\<forall>w k. up w \<longrightarrow> (\<exists>w'. r_incr R k w = (Inr (cnt w k + 1), w') \<and> up w' \<and> cnt w' = (cnt w)(k := cnt w k + 1))) \<and>
     (\<forall>w k. up w \<longrightarrow> (\<exists>w'. r_decr R k w = (Inr (cnt w k - 1), w') \<and> up w' \<and> cnt w' = (cnt w)(k := cnt w k - 1))) \<and>
     (\<forall>w k n. up w \<longrightarrow> (\<exists>w'. r_expire R k n w = (Inr (), w') \<and> up w' \<and> cnt w' = cnt w)) \<and>
     (\<forall>w k. \<not> up w \<longrightarrow> (\<exists>e. r_incr R k w = (Inl e, w)) \<and> (\<exists>e. r_decr R k w = (Inl e, w)))"

lemma counting_incr: "counting R cnt up \<Longrightarrow> up w \<Longrightarrow>
    \<exists>w'. r_incr R k w = (Inr (cnt w k + 1), w') \<and> up w' \<and> cnt w' = (cnt w)(k := cnt w k + 1)"
  and counting_decr: "counting R cnt up \<Longrightarrow> up w \<Longrightarrow>
    \<exists>w'. r_decr R k w = (Inr (cnt w k - 1), w') \<and> up w' \<and> cnt w' = (cnt w)(k := cnt w k - 1)"
  and counting_expire: "counting R cnt up \<Longrightarrow> up w \<Longrightarrow>
    \<exists>w'. r_expire R k n w = (Inr (), w') \<and> up w' \<and> cnt w' = cnt w"
  and counting_down: "counting R cnt up \<Longrightarrow> \<not> up w \<Longrightarrow> (\<exists>e. r_incr R k w = (Inl e, w)) \<and> (\<exists>e. r_decr R k w = (Inl e, w))"
  unfolding counting_def by blast+

text \<open>A dictionary of counters with a switch is such a service.\<close>

definition counter_redis :: "(bool \<times> (string \<times> int) list) redis_client" where
  "counter_redis =
     (let cnt = (\<lambda>d k. case dget d k of Some n \<Rightarrow> n | None \<Rightarrow> 0);
          move = (\<lambda>\<delta> k (up, d). if up then (Inr (cnt d k + \<delta>), (True, dput k (cnt d k + \<delta>) d)) else (Inl ''ConnectionError'', (up, d)))
      in \<lparr>r_incr = move 1, r_decr = move (-1), r_expire = (\<lambda>k n (up, d). if up then (Inr (), (up, d)) else (Inl ''ConnectionError'', (up, d)))\<rparr>)"

definition counter_of :: "bool \<times> (string \<times> int) list \<Rightarrow> string \<Rightarrow> int" where
  "counter_of w k = (case dget (snd w) k of Some n \<Rightarrow> n | None \<Rightarrow> 0)"

lemma counter_counting: "counting counter_redis counter_of fst"
  by (auto simp: counting_def counter_redis_def counter_of_def fun_eq_iff split: option.splits)

subsection \<open>Sequences of requests\<close>

text \<open>\<open>n\<close> requests of one user in one window, and what each is told.\<close>

fun limit_calls :: "'r redis_client \<Rightarrow> string \<Rightarrow> uuid \<Rightarrow> int \<Rightarrow> time list \<Rightarrow> 'r \<Rightarrow> bool list \<times> 'r" where
  "limit_calls R scope user limit [] w = ([], w)"
| "limit_calls R scope user limit (now # ts) w =
     (case rate_limited (Some R) scope limit user now w of
        (res, w) \<Rightarrow> (case limit_calls R scope user limit ts w of (rs, w) \<Rightarrow> (isl res # rs, w)))"

lemma limit_calls_count:
  assumes "counting R cnt up" "up w" "0 < limit" "\<forall>t \<in> set ts. window_of 60 t = win"
    and "cnt w (''rl:'' @ scope @ '':'' @ uuid_text user @ '':'' @ int_str win) = int c"
  shows "fst (limit_calls R scope user limit ts w) = map (\<lambda>i. limit < int (c + i)) [1..<Suc (length ts)]"
  using assms(2,4,5)
proof (induction ts arbitrary: w c)
  case (Cons now ts)
  let ?k = "''rl:'' @ scope @ '':'' @ uuid_text user @ '':'' @ int_str win"
  have key: "rate_limit_key scope (uuid_text user) 60 now = ?k"
    using Cons.prems(2) by (simp add: rate_limit_key_def)
  from counting_incr [OF assms(1) Cons.prems(1), of ?k] obtain w1 where
    w1: "r_incr R ?k w = (Inr (int c + 1), w1)" "up w1" "cnt w1 ?k = int (Suc c)" using Cons.prems(3) by auto
  from counting_expire [OF assms(1) w1(2), of ?k 60] obtain w2 where
    w2: "r_expire R ?k 60 w1 = (Inr (), w2)" "up w2" "cnt w2 = cnt w1" by blast
  obtain w3 where w3: "check_rate_limit (Some R) scope (uuid_text user) limit 60 now w = (int c + 1 \<le> limit, w3)"
    "up w3" "cnt w3 ?k = int (Suc c)"
  proof (cases "int c + 1 = 1")
    case True
    with w1 w2 assms(3) that [of w2] show thesis by (simp add: check_rate_limit_def key Let_def)
  next
    case False
    with w1 assms(3) that [of w1] show thesis by (simp add: check_rate_limit_def key Let_def)
  qed
  have IH: "fst (limit_calls R scope user limit ts w3) = map (\<lambda>i. limit < int (Suc c + i)) [1..<Suc (length ts)]"
    by (rule Cons.IH) (use w3 Cons.prems in auto)
  have "[1..<Suc (length (now # ts))] = 1 # map Suc [1..<Suc (length ts)]"
    by (simp add: map_Suc_upt upt_conv_Cons del: upt_Suc)
  moreover have "isl (fst (rate_limited (Some R) scope limit user now w)) = (limit < int (c + 1))"
    "snd (rate_limited (Some R) scope limit user now w) = w3"
    using w3(1) by (auto simp: rate_limited_def split: bool.split)
  moreover have "limit_calls R scope user limit (now # ts) w =
      (isl (fst (rate_limited (Some R) scope limit user now w)) #
         fst (limit_calls R scope user limit ts (snd (rate_limited (Some R) scope limit user now w))),
       snd (limit_calls R scope user limit ts (snd (rate_limited (Some R) scope limit user now w))))"
    by (simp add: split_beta)
  ultimately show ?case using IH by (simp add: add_ac del: upt_Suc)
qed simp

text \<open>\<open>n\<close> requests that enter the gate, and \<open>n\<close> that leave it.\<close>

fun enters :: "settings \<Rightarrow> 'r admission_gate \<Rightarrow> nat \<Rightarrow> 'r \<Rightarrow> bool list \<times> 'r" where
  "enters s g 0 w = ([], w)"
| "enters s g (Suc n) w =
     (case check_admission_capacity s (Some g) w of
        (res, w) \<Rightarrow> (case enters s g n w of (rs, w) \<Rightarrow> ((\<not> isl res) # rs, w)))"

fun leaves :: "'r admission_gate \<Rightarrow> nat \<Rightarrow> 'r \<Rightarrow> 'r" where
  "leaves g 0 w = w"
| "leaves g (Suc n) w = leaves g n (leave_gate (Some g) w)"

lemma enter_up:
  assumes "counting R cnt up" "gate_redis g = Some R" "up w" "0 < max_inflight g"
  shows "\<exists>res w'. check_admission_capacity s (Some g) w = (res, w') \<and> up w' \<and>
    (if cnt w GATE_KEY < max_inflight g then \<not> isl res \<and> cnt w' GATE_KEY = cnt w GATE_KEY + 1
     else isl res \<and> cnt w' GATE_KEY = cnt w GATE_KEY)"
proof -
  from counting_incr [OF assms(1,3), of GATE_KEY] obtain w1 where
    w1: "r_incr R GATE_KEY w = (Inr (cnt w GATE_KEY + 1), w1)" "up w1" "cnt w1 GATE_KEY = cnt w GATE_KEY + 1" by auto
  from counting_expire [OF assms(1) w1(2), of GATE_KEY "gate_ttl g"] obtain w2 where
    w2: "r_expire R GATE_KEY (gate_ttl g) w1 = (Inr (), w2)" "up w2" "cnt w2 = cnt w1" by blast
  from counting_decr [OF assms(1) w2(2), of GATE_KEY] obtain w3 where
    w3: "r_decr R GATE_KEY w2 = (Inr (cnt w2 GATE_KEY - 1), w3)" "up w3" "cnt w3 GATE_KEY = cnt w2 GATE_KEY - 1" by auto
  show ?thesis
    using w1 w2 w3 assms(2,4) by (auto simp: check_admission_capacity_def try_acquire_def gate_release_def)
qed

lemma leave_up:
  assumes "counting R cnt up" "gate_redis g = Some R" "up w"
  shows "up (leave_gate (Some g) w) \<and> cnt (leave_gate (Some g) w) GATE_KEY = cnt w GATE_KEY - 1"
  using counting_decr [OF assms(1,3), of GATE_KEY] assms(2) by (auto simp: leave_gate_def gate_release_def)

lemma leaves_up:
  assumes "counting R cnt up" "gate_redis g = Some R"
  shows "up w \<Longrightarrow> up (leaves g n w) \<and> cnt (leaves g n w) GATE_KEY = cnt w GATE_KEY - int n"
  by (induction n arbitrary: w) (use leave_up [OF assms] in auto)

lemma enters_up:
  assumes "counting R cnt up" "gate_redis g = Some R" "0 < max_inflight g"
  shows "up w \<Longrightarrow> fst (enters s g n w) = map (\<lambda>i. cnt w GATE_KEY + int i < max_inflight g) [0..<n]"
proof (induction n arbitrary: w)
  case (Suc n)
  from enter_up [OF assms(1,2) Suc.prems assms(3), of s] obtain res w' where
    e: "check_admission_capacity s (Some g) w = (res, w')" "up w'"
    "if cnt w GATE_KEY < max_inflight g then \<not> isl res \<and> cnt w' GATE_KEY = cnt w GATE_KEY + 1
     else isl res \<and> cnt w' GATE_KEY = cnt w GATE_KEY" by blast
  have up: "[0..<Suc n] = 0 # map Suc [0..<n]" by (simp add: map_Suc_upt upt_conv_Cons del: upt_Suc)
  have "fst (enters s g n w') = map (\<lambda>i. cnt w' GATE_KEY + int i < max_inflight g) [0..<n]"
    by (rule Suc.IH [OF e(2)])
  moreover have "map (\<lambda>i. cnt w' GATE_KEY + int i < max_inflight g) [0..<n] =
      map (\<lambda>i. cnt w GATE_KEY + int (Suc i) < max_inflight g) [0..<n]"
    using e(3) by (auto split: if_splits)
  ultimately show ?case using e unfolding up by (auto simp: split_beta split: if_splits)
qed simp

lemma enter_down:
  assumes "counting R cnt up" "gate_redis g = Some R" "\<not> up w"
  shows "check_admission_capacity s (Some g) w = (Inr (), w)"
  using counting_down [OF assms(1,3), of GATE_KEY] assms(2)
  by (auto simp: check_admission_capacity_def try_acquire_def)

lemma enters_down:
  assumes "counting R cnt up" "gate_redis g = Some R" "\<not> up w"
  shows "enters s g n w = (replicate n True, w)"
  by (induction n) (simp_all add: enter_down [OF assms])

lemma next_window: "(t + seconds_until_window_reset 60 t * 1000000) div 60000000 = t div 60000000 + 1"
proof -
  define q where "q = t div 60000000"
  define m where "m = t mod 60000000"
  define f where "f = m div 1000000"
  define r where "r = m mod 1000000"
  have m: "m = 1000000 * f + r" "0 \<le> r" "r < 1000000" by (simp_all add: f_def r_def)
  have "t = 60000000 * q + m" by (simp add: q_def m_def)
  then have "t + seconds_until_window_reset 60 t * 1000000 = 60000000 * (q + 1) + (1000000 + r)"
    unfolding seconds_until_window_reset_def using m(1) by (simp add: f_def m_def algebra_simps)
  then have "(t + seconds_until_window_reset 60 t * 1000000) div 60000000 = q + 1"
    by (rule int_div_pos_eq) (use m in simp_all)
  then show ?thesis by (simp add: q_def)
qed

subsection \<open>Properties\<close>

text \<open>C24. The rate limit is exact while Redis works: of the requests of one user in one window the
  first \<open>limit\<close> are admitted and every later one is refused with 429; and a client that waits for
  the announced \<open>Retry-After\<close> is in the next window, however the seconds fall.\<close>

theorem rate_limit_is_exact:
  assumes "counting R cnt up" and "up w" and "0 < limit" and "\<forall>t \<in> set ts. window_of 60 t = win"
    and "cnt w (''rl:'' @ scope @ '':'' @ uuid_text user @ '':'' @ int_str win) = 0"
  shows "fst (limit_calls R scope user limit ts w) = map (\<lambda>i. limit < int i) [1..<Suc (length ts)] \<and>
    (\<forall>t \<in> set ts. window_of 60 (t + seconds_until_window_reset 60 t * 1000000) = win + 1)"
proof
  show "fst (limit_calls R scope user limit ts w) = map (\<lambda>i. limit < int i) [1..<Suc (length ts)]"
    using limit_calls_count [OF assms(1-4), of scope user 0] assms(5) by simp
  note next_window
  then show "\<forall>t \<in> set ts. window_of 60 (t + seconds_until_window_reset 60 t * 1000000) = win + 1"
    using assms(4) by (simp add: window_of_def)
qed

theorem rate_limit_is_exact_witness:
  "fst (limit_calls counter_redis ''generation'' 7 2 [5, 6, 7] (True, [])) = [False, False, True]"
proof -
  have "counter_of (True, []) k = 0" for k by (simp add: counter_of_def)
  moreover have "\<forall>t \<in> set [5, 6, 7 :: time]. window_of 60 t = 0" by (simp add: window_of_def)
  ultimately show ?thesis
    using rate_limit_is_exact [OF counter_counting, of "(True, [])" 2 "[5, 6, 7]" 0 "''generation''" 7]
    by (simp add: upt_rec)
qed

text \<open>The gate lets in as many as it says, and what an outage does to it: with Redis up and the
  counter at zero, of any number of requests exactly the first \<open>max_inflight\<close> enter; but \<open>k\<close>
  requests that were let in while Redis was down and leave when it is back each take one off a
  counter they never raised, so that afterwards \<open>max_inflight + k\<close> requests are in at once.\<close>

theorem gate_limit_and_outage:
  assumes "counting R cnt up" and "gate_redis g = Some R" and "0 < max_inflight g"
    and "\<not> up down" and "up back" and "cnt back GATE_KEY = 0"
  shows "fst (enters s g n back) = map (\<lambda>i. int i < max_inflight g) [0..<n] \<and>
    enters s g k down = (replicate k True, down) \<and>
    fst (enters s g n (leaves g k back)) = map (\<lambda>i. int i < max_inflight g + int k) [0..<n]"
proof (intro conjI)
  show "fst (enters s g n back) = map (\<lambda>i. int i < max_inflight g) [0..<n]"
    using enters_up [OF assms(1-3,5), of s n] assms(6) by simp
  show "enters s g k down = (replicate k True, down)" by (rule enters_down [OF assms(1,2,4)])
  have l: "up (leaves g k back)" "cnt (leaves g k back) GATE_KEY = - int k"
    using leaves_up [OF assms(1,2,5), of k] assms(6) by simp_all
  show "fst (enters s g n (leaves g k back)) = map (\<lambda>i. int i < max_inflight g + int k) [0..<n]"
    using enters_up [OF assms(1-3) l(1), of s n] l(2) by (simp add: algebra_simps)
qed

theorem gate_limit_and_outage_witness:
  "fst (enters default_settings \<lparr>gate_redis = Some counter_redis, max_inflight = 1, gate_ttl = 60\<rparr> 4
     (leaves \<lparr>gate_redis = Some counter_redis, max_inflight = 1, gate_ttl = 60\<rparr> 2 (True, []))) = [True, True, True, False]"
proof -
  let ?g = "\<lparr>gate_redis = Some counter_redis, max_inflight = 1, gate_ttl = 60\<rparr>"
  have "fst (enters default_settings ?g 4 (leaves ?g 2 (True, []))) = map (\<lambda>i. int i < max_inflight ?g + int 2) [0..<4]"
    using gate_limit_and_outage [OF counter_counting, of ?g "(False, [])" "(True, [])" default_settings 4 2]
    by (simp add: counter_of_def)
  then show ?thesis by (simp add: upt_rec)
qed

end
