(* ===== verification/Py_Codec.thy ===== *)
theory Py_Codec
  imports Idempotency Py_Uuid
begin

section \<open>base64 and json.loads\<close>

text \<open>
  The two codecs of Python's library that opaque cursors and model answers go through.
  \<open>b64decode\<close> is the lenient decoder of \<open>binascii\<close>: foreign characters are skipped and input after
  a complete padding is ignored. \<open>json_loads\<close> is the decoder of \<open>json\<close>, with the non-standard
  numbers it accepts; its fuel bounds the nesting and the length, and the length of the text is
  enough for the texts of this program. An exception is \<open>None\<close>.
\<close>

subsection \<open>base64\<close>

definition b64_char :: "nat \<Rightarrow> char" where
  "b64_char v = (if v < 26 then char_of (65 + v) else if v < 52 then char_of (71 + v)
     else if v < 62 then char_of (v - 4) else if v = 62 then CHR ''-'' else CHR ''_'')"

definition b64_val :: "char \<Rightarrow> nat option" where
  "b64_val c = (let n = of_char c :: nat in
     if 65 \<le> n \<and> n \<le> 90 then Some (n - 65)
     else if 97 \<le> n \<and> n \<le> 122 then Some (n - 71)
     else if 48 \<le> n \<and> n \<le> 57 then Some (n + 4)
     else if c = CHR ''-'' \<or> c = CHR ''+'' then Some 62
     else if c = CHR ''_'' \<or> c = CHR ''/'' then Some 63 else None)"

fun b64encode :: "nat list \<Rightarrow> string" where
  "b64encode [] = []"
| "b64encode [a] = [b64_char (a div 4), b64_char (a mod 4 * 16), CHR ''='', CHR ''='']"
| "b64encode [a, b] = [b64_char (a div 4), b64_char (a mod 4 * 16 + b div 16), b64_char (b mod 16 * 4), CHR ''='']"
| "b64encode (a # b # c # xs) =
     [b64_char (a div 4), b64_char (a mod 4 * 16 + b div 16), b64_char (b mod 16 * 4 + c div 64), b64_char (c mod 64)] @
     b64encode xs"

text \<open>The position in the group of four, the bits left over, the padding seen.\<close>

fun b64_scan :: "string \<Rightarrow> nat \<Rightarrow> nat \<Rightarrow> nat \<Rightarrow> nat list option" where
  "b64_scan [] quad left pads = (if quad = 0 then Some [] else None)"
| "b64_scan (x # xs) quad left pads =
     (if x = CHR ''='' then
        (if 2 \<le> quad then (if 4 \<le> quad + Suc pads then Some [] else b64_scan xs quad left (Suc pads))
         else b64_scan xs quad left pads)
      else case b64_val x of
        None \<Rightarrow> b64_scan xs quad left pads
      | Some v \<Rightarrow>
          (if quad = 0 then b64_scan xs 1 v 0
           else if quad = 1 then map_option (Cons (left * 4 + v div 16)) (b64_scan xs 2 (v mod 16) 0)
           else if quad = 2 then map_option (Cons (left * 16 + v div 4)) (b64_scan xs 3 (v mod 4) 0)
           else map_option (Cons (left * 64 + v)) (b64_scan xs 0 0 0)))"

definition urlsafe_b64encode :: "string \<Rightarrow> string" where
  "urlsafe_b64encode s = b64encode (map of_char s)"

definition urlsafe_b64decode :: "string \<Rightarrow> string option" where
  "urlsafe_b64decode s =
     (if \<exists>c \<in> set s. 127 < (of_char c :: nat) then None
      else map_option (map char_of) (b64_scan s 0 0 0))"

lemma b64_val_char [simp]: "v < 64 \<Longrightarrow> b64_val (b64_char v) = Some v"
  by (auto simp: b64_val_def b64_char_def Let_def)

lemma b64_char_ascii: "v < 64 \<Longrightarrow> (of_char (b64_char v) :: nat) \<le> 127"
  by (auto simp: b64_char_def)

lemma b64_char_pad [simp]: "v < 64 \<Longrightarrow> b64_char v \<noteq> CHR ''=''"
proof
  assume "v < 64" "b64_char v = CHR ''=''"
  with b64_val_char [of v] show False by (simp add: b64_val_def)
qed

lemma split_bits: "y < k \<Longrightarrow> (x * k + y) div k = (x :: nat)" "y < k \<Longrightarrow> (x * k + y) mod k = y"
  by simp_all

lemma b64_bits: fixes a b c :: nat
  assumes "a < 256" "b < 256" "c < 256"
  shows "a div 4 < 64" "a mod 4 * 16 < 64" "a mod 4 * 16 + b div 16 < 64" "b mod 16 * 4 < 64"
    "b mod 16 * 4 + c div 64 < 64" "c mod 64 < 64"
    "a div 4 * 4 + (a mod 4 * 16) div 16 = a" "a div 4 * 4 + (a mod 4 * 16 + b div 16) div 16 = a"
    "(a mod 4 * 16 + b div 16) mod 16 * 16 + (b mod 16 * 4) div 4 = b"
    "(a mod 4 * 16 + b div 16) mod 16 * 16 + (b mod 16 * 4 + c div 64) div 4 = b"
    "(b mod 16 * 4 + c div 64) mod 4 * 64 + c mod 64 = c"
proof -
  have l: "a mod 4 < 4" "b div 16 < 16" "b mod 16 < 16" "c div 64 < 4" using assms by simp_all
  show "a div 4 < 64" "c mod 64 < 64" using assms by simp_all
  show "a mod 4 * 16 < 64" "a mod 4 * 16 + b div 16 < 64" "b mod 16 * 4 < 64" "b mod 16 * 4 + c div 64 < 64"
    using l by linarith+
  show "a div 4 * 4 + (a mod 4 * 16) div 16 = a" by simp
  show "a div 4 * 4 + (a mod 4 * 16 + b div 16) div 16 = a" unfolding split_bits(1) [OF l(2)] by simp
  show "(a mod 4 * 16 + b div 16) mod 16 * 16 + (b mod 16 * 4) div 4 = b" unfolding split_bits(2) [OF l(2)] by simp
  show "(a mod 4 * 16 + b div 16) mod 16 * 16 + (b mod 16 * 4 + c div 64) div 4 = b"
    unfolding split_bits(2) [OF l(2)] split_bits(1) [OF l(4)] by simp
  show "(b mod 16 * 4 + c div 64) mod 4 * 64 + c mod 64 = c" unfolding split_bits(2) [OF l(4)] by simp
qed

lemma b64_scan_char:
  "v < 64 \<Longrightarrow> b64_scan (b64_char v # xs) 0 left pads = b64_scan xs 1 v 0"
  "v < 64 \<Longrightarrow> b64_scan (b64_char v # xs) 1 left pads = map_option (Cons (left * 4 + v div 16)) (b64_scan xs 2 (v mod 16) 0)"
  "v < 64 \<Longrightarrow> b64_scan (b64_char v # xs) 2 left pads = map_option (Cons (left * 16 + v div 4)) (b64_scan xs 3 (v mod 4) 0)"
  "v < 64 \<Longrightarrow> b64_scan (b64_char v # xs) 3 left pads = map_option (Cons (left * 64 + v)) (b64_scan xs 0 0 0)"
  by simp_all

lemma b64_scan_pad: "b64_scan [CHR ''=''] 3 left 0 = Some []" "b64_scan [CHR ''='', CHR ''=''] 2 left 0 = Some []"
  by simp_all

declare b64_scan.simps(2) [simp del]

lemma b64_scan_encode: "\<forall>x \<in> set xs. x < 256 \<Longrightarrow> b64_scan (b64encode xs) 0 0 0 = Some xs"
proof (induction xs rule: b64encode.induct)
  case (2 a)
  then show ?case by (simp add: b64_bits [of a 0 0] b64_scan_char b64_scan_pad del: One_nat_def)
next
  case (3 a b)
  then have "b div 16 < 16" by (simp add: less_mult_imp_div_less)
  with 3 show ?case by (simp add: b64_bits [of a b 0] b64_scan_char b64_scan_pad del: One_nat_def)
next
  case (4 a b c xs)
  then have "b div 16 < 16" "c div 64 < 4" by (simp_all add: less_mult_imp_div_less)
  with 4 show ?case by (simp add: b64_bits [of a b c] b64_scan_char del: One_nat_def)
qed simp

lemma b64encode_ascii: "\<forall>x \<in> set xs. x < 256 \<Longrightarrow> \<forall>c \<in> set (b64encode xs). (of_char c :: nat) \<le> 127"
proof (induction xs rule: b64encode.induct)
  case (2 a)
  then show ?case by (simp add: b64_bits [of a 0 0] b64_char_ascii)
next
  case (3 a b)
  then show ?case by (simp add: b64_bits [of a b 0] b64_char_ascii)
next
  case (4 a b c xs)
  then show ?case by (simp add: b64_bits [of a b c] b64_char_ascii)
qed simp

lemma urlsafe_round_trip [simp]: "urlsafe_b64decode (urlsafe_b64encode s) = Some s"
proof -
  have b: "\<forall>x \<in> set (map of_char s :: nat list). x < 256" by auto
  have "\<not> (\<exists>c \<in> set (urlsafe_b64encode s). 127 < (of_char c :: nat))"
    using b64encode_ascii [OF b] by (auto simp: urlsafe_b64encode_def)
  then show ?thesis
    using b64_scan_encode [OF b] by (simp add: urlsafe_b64decode_def urlsafe_b64encode_def)
qed

subsection \<open>json.loads\<close>

definition json_space :: "char \<Rightarrow> bool" where
  "json_space c \<longleftrightarrow> of_char c \<in> {32, 9, 10, 13 :: nat}"

definition skip_space :: "string \<Rightarrow> string" where
  "skip_space s = dropWhile json_space s"

text \<open>A code point of the basic plane, as the text of this development holds it.\<close>

definition code_point :: "nat \<Rightarrow> string" where
  "code_point n =
     (if n < 256 then [char_of n]
      else if n < 2048 then [char_of (192 + n div 64), char_of (128 + n mod 64)]
      else [char_of (224 + n div 4096), char_of (128 + n div 64 mod 64), char_of (128 + n mod 64)])"

definition escape_char :: "char \<Rightarrow> char option" where
  "escape_char c = map_of [(CHR 0x22, CHR 0x22), (CHR 0x5C, CHR 0x5C), (CHR ''/'', CHR ''/''), (CHR ''b'', CHR 0x08),
     (CHR ''f'', CHR 0x0C), (CHR ''n'', CHR 0x0A), (CHR ''r'', CHR 0x0D), (CHR ''t'', CHR 0x09)] c"

fun hex4 :: "string \<Rightarrow> (nat \<times> string) option" where
  "hex4 (a # b # c # d # s) =
     (case (hex_val a, hex_val b, hex_val c, hex_val d) of
        (Some a, Some b, Some c, Some d) \<Rightarrow> Some (4096 * a + 256 * b + 16 * c + d, s)
      | _ \<Rightarrow> None)"
| "hex4 s = None"

text \<open>The rest of a string literal after its opening quote.\<close>

function scan_string :: "string \<Rightarrow> string \<Rightarrow> (string \<times> string) option" where
  "scan_string [] acc = None"
| "scan_string (c # s) acc =
     (if c = CHR 0x22 then Some (acc, s)
      else if c = CHR 0x5C then
        (case s of
           [] \<Rightarrow> None
         | e # s' \<Rightarrow>
             if e = CHR ''u'' then
               (case hex4 s' of None \<Rightarrow> None | Some (n, r) \<Rightarrow>
                  if length r < length s then scan_string r (acc @ code_point n) else None)
             else (case escape_char e of None \<Rightarrow> None | Some x \<Rightarrow> scan_string s' (acc @ [x])))
      else if (of_char c :: nat) < 32 then None
      else scan_string s (acc @ [c]))"
  by pat_completeness auto
termination by (relation "measure (\<lambda>(s, acc). length s)") auto

definition int_part :: "string \<Rightarrow> (nat \<times> string) option" where
  "int_part s =
     (let ds = takeWhile is_digit s; r = dropWhile is_digit s in
      if ds = [] then None
      else if hd ds = CHR ''0'' then Some (0, drop 1 s)
      else Some (foldl (\<lambda>a c. 10 * a + digit_val c) 0 ds, r))"

text \<open>A fraction and an exponent, both optional: digits, number of decimals, exponent, rest.\<close>

definition frac_part :: "string \<Rightarrow> (string \<times> string) option" where
  "frac_part s =
     (case s of c # r \<Rightarrow> if c = CHR ''.'' \<and> takeWhile is_digit r \<noteq> []
         then Some (takeWhile is_digit r, dropWhile is_digit r) else None
      | [] \<Rightarrow> None)"

definition exp_part :: "string \<Rightarrow> (int \<times> string) option" where
  "exp_part s =
     (case s of c # r \<Rightarrow>
        if c = CHR ''e'' \<or> c = CHR ''E'' then
          (let (sg, ds) = split_sign r in
           if takeWhile is_digit ds = [] then None
           else Some (sg * int (foldl (\<lambda>a c. 10 * a + digit_val c) 0 (takeWhile is_digit ds)), dropWhile is_digit ds))
        else None
      | [] \<Rightarrow> None)"

definition scan_number :: "string \<Rightarrow> (json \<times> string) option" where
  "scan_number s =
     (let (neg, t) = (case s of c # r \<Rightarrow> if c = CHR ''-'' then (True, r) else (False, s) | [] \<Rightarrow> (False, s)) in
      case int_part t of
        None \<Rightarrow> None
      | Some (n, r) \<Rightarrow>
          let frac = frac_part r; r1 = (case frac of Some (ds, r1) \<Rightarrow> r1 | None \<Rightarrow> r);
              ex = exp_part r1; r2 = (case ex of Some (e, r2) \<Rightarrow> r2 | None \<Rightarrow> r1) in
          if frac = None \<and> ex = None then Some (JInt (if neg then - int n else int n), r)
          else let ds = (case frac of Some (ds, _) \<Rightarrow> ds | None \<Rightarrow> []);
                   m = of_nat n + of_nat (foldl (\<lambda>a c. 10 * a + digit_val c) 0 ds) * pow10 (- int (length ds));
                   q = m * pow10 (case ex of Some (e, _) \<Rightarrow> e | None \<Rightarrow> 0)
               in Some (JFloat (float_of_rat (if neg then - q else q)), r2))"

definition scan_literal :: "string \<Rightarrow> (json \<times> string) option" where
  "scan_literal s =
     (if starts_with ''null'' s then Some (JNull, drop 4 s)
      else if starts_with ''true'' s then Some (JBool True, drop 4 s)
      else if starts_with ''false'' s then Some (JBool False, drop 5 s)
      else if starts_with ''NaN'' s then Some (JFloat NaN, drop 3 s)
      else if starts_with ''Infinity'' s then Some (JFloat PosInf, drop 8 s)
      else if starts_with ''-Infinity'' s then Some (JFloat NegInf, drop 9 s)
      else scan_number s)"

fun scan_value :: "nat \<Rightarrow> string \<Rightarrow> (json \<times> string) option"
  and scan_items :: "nat \<Rightarrow> string \<Rightarrow> json list \<Rightarrow> (json list \<times> string) option"
  and scan_pairs :: "nat \<Rightarrow> string \<Rightarrow> dict \<Rightarrow> (dict \<times> string) option" where
  "scan_value 0 s = None"
| "scan_value (Suc n) s =
     (case s of
        [] \<Rightarrow> None
      | c # r \<Rightarrow>
          if c = CHR 0x22 then map_option (\<lambda>(t, r). (JStr t, r)) (scan_string r [])
          else if c = CHR ''['' then
            (if starts_with '']'' (skip_space r) then Some (JList [], drop 1 (skip_space r))
             else map_option (\<lambda>(xs, r). (JList xs, r)) (scan_items n (skip_space r) []))
          else if c = CHR ''{'' then
            (if starts_with ''}'' (skip_space r) then Some (JObj [], drop 1 (skip_space r))
             else map_option (\<lambda>(d, r). (JObj d, r)) (scan_pairs n (skip_space r) []))
          else scan_literal s)"
| "scan_items 0 s acc = None"
| "scan_items (Suc n) s acc =
     (case scan_value n s of
        None \<Rightarrow> None
      | Some (x, r) \<Rightarrow>
          (case skip_space r of
             c # r' \<Rightarrow> if c = CHR '']'' then Some (acc @ [x], r')
               else if c = CHR '','' then scan_items n (skip_space r') (acc @ [x]) else None
           | [] \<Rightarrow> None))"
| "scan_pairs 0 s acc = None"
| "scan_pairs (Suc n) s acc =
     (case s of
        [] \<Rightarrow> None
      | q # s1 \<Rightarrow>
          if q \<noteq> CHR 0x22 then None
          else (case scan_string s1 [] of
              None \<Rightarrow> None
            | Some (k, s2) \<Rightarrow>
                (case skip_space s2 of
                   [] \<Rightarrow> None
                 | c # s3 \<Rightarrow>
                     if c \<noteq> CHR '':'' then None
                     else (case scan_value n (skip_space s3) of
                         None \<Rightarrow> None
                       | Some (v, s4) \<Rightarrow>
                           (case skip_space s4 of
                              c # s5 \<Rightarrow> if c = CHR ''}'' then Some (dput k v acc, s5)
                                else if c = CHR '','' then scan_pairs n (skip_space s5) (dput k v acc) else None
                            | [] \<Rightarrow> None)))))"

definition json_loads :: "string \<Rightarrow> json option" where
  "json_loads s =
     (case scan_value (Suc (length s)) (skip_space s) of
        None \<Rightarrow> None
      | Some (v, r) \<Rightarrow> if skip_space r = [] then Some v else None)"

subsection \<open>Reading back what was written\<close>

text \<open>JSON without floats, whose text is the interpreter's, and as a Python value holds it.\<close>

fun clean :: "json \<Rightarrow> bool" where
  "clean (JFloat f) = False"
| "clean (JList xs) = (\<forall>x \<in> set xs. clean x)"
| "clean (JObj d) = (distinct (map fst d) \<and> (\<forall>(k, v) \<in> set d. clean v))"
| "clean j = True"

definition stops :: "string \<Rightarrow> bool" where
  "stops r \<longleftrightarrow> r = [] \<or> hd r \<in> {CHR '','', CHR '']'', CHR ''}''}"

lemma stops_Cons [simp]: "stops (c # r) \<longleftrightarrow> c \<in> {CHR '','', CHR '']'', CHR ''}''}"
  by (simp add: stops_def)

lemma stops_Nil [simp]: "stops []"
  by (simp add: stops_def)

lemma scan_char: "scan_string (json_char c @ r) acc = scan_string r (acc @ [c])"
proof -
  define n where "n = (of_char c :: nat)"
  have n: "n < 256" "c = char_of n" by (simp_all add: n_def)
  consider "c \<in> {CHR 0x22, CHR 0x5C, CHR 0x0A, CHR 0x0D, CHR 0x09, CHR 0x08, CHR 0x0C}"
    | "c \<notin> {CHR 0x22, CHR 0x5C, CHR 0x0A, CHR 0x0D, CHR 0x09, CHR 0x08, CHR 0x0C}" by blast
  then show ?thesis
  proof cases
    case 1
    have "\<forall>c \<in> set [CHR 0x22, CHR 0x5C, CHR 0x0A, CHR 0x0D, CHR 0x09, CHR 0x08, CHR 0x0C].
        \<exists>e \<in> set [CHR 0x22, CHR 0x5C, CHR ''n'', CHR ''r'', CHR ''t'', CHR ''b'', CHR ''f''].
          json_char c = [CHR 0x5C, e] \<and> escape_char e = Some c \<and> e \<noteq> CHR ''u''" by code_simp
    from bspec [OF this, of c] 1 obtain e where
      "json_char c = [CHR 0x5C, e]" "escape_char e = Some c" "e \<noteq> CHR ''u''" by auto
    then show ?thesis by simp
  next
    case 2
    have "n \<noteq> 34" "n \<noteq> 92" "n \<noteq> 10" "n \<noteq> 13" "n \<noteq> 9" "n \<noteq> 8" "n \<noteq> 12"
    proof -
      have e: "char_of (34 :: nat) = CHR 0x22" "char_of (92 :: nat) = CHR 0x5C" "char_of (10 :: nat) = CHR 0x0A"
        "char_of (13 :: nat) = CHR 0x0D" "char_of (9 :: nat) = CHR 0x09" "char_of (8 :: nat) = CHR 0x08"
        "char_of (12 :: nat) = CHR 0x0C" by code_simp+
      have "char_of n \<notin> {CHR 0x22, CHR 0x5C, CHR 0x0A, CHR 0x0D, CHR 0x09, CHR 0x08, CHR 0x0C}" using 2 unfolding n(2) .
      then show "n \<noteq> 34" "n \<noteq> 92" "n \<noteq> 10" "n \<noteq> 13" "n \<noteq> 9" "n \<noteq> 8" "n \<noteq> 12"
        unfolding e [symmetric] by blast+
    qed
    show ?thesis
    proof (cases "n < 32 \<or> 126 < n")
      case True
      have h: "hex_digit = hex_char" by (auto simp: hex_digit_def hex_char_def)
      have d: "n div 16 < 16" "n mod 16 < 16" using n(1) by (simp_all add: less_mult_imp_div_less)
      have j: "json_char c = [CHR 0x5C, CHR ''u'', CHR ''0'', CHR ''0'', hex_char (n div 16), hex_char (n mod 16)]"
        using True \<open>n \<noteq> 34\<close> \<open>n \<noteq> 92\<close> \<open>n \<noteq> 10\<close> \<open>n \<noteq> 13\<close> \<open>n \<noteq> 9\<close> \<open>n \<noteq> 8\<close> \<open>n \<noteq> 12\<close>
        by (simp add: json_char_def h Let_def flip: n_def)
      have z: "hex_val CHR ''0'' = Some 0" by (simp add: hex_val_def)
      have "scan_string (json_char c @ r) acc = scan_string r (acc @ code_point n)" using d by (simp add: j z)
      moreover have "code_point n = [c]" using n by (simp add: code_point_def)
      ultimately show ?thesis by (simp only:)
    next
      case False
      then have "json_char c = [c]"
        using \<open>n \<noteq> 34\<close> \<open>n \<noteq> 92\<close> \<open>n \<noteq> 10\<close> \<open>n \<noteq> 13\<close> \<open>n \<noteq> 9\<close> \<open>n \<noteq> 8\<close> \<open>n \<noteq> 12\<close>
        by (simp add: json_char_def Let_def flip: n_def)
      then show ?thesis using 2 False by (simp flip: n_def)
    qed
  qed
qed

lemma scan_chars: "scan_string (concat (map json_char s) @ r) acc = scan_string r (acc @ s)"
  by (induction s arbitrary: acc) (simp_all add: scan_char del: scan_string.simps)

lemma scan_json_string: "scan_string (concat (map json_char s) @ CHR 0x22 # r) [] = Some (s, r)"
  by (simp add: scan_chars)

lemma nat_str_hd: "0 < n \<Longrightarrow> hd (nat_str n) \<noteq> CHR ''0''"
proof (induction n rule: nat_str.induct)
  case (1 n)
  show ?case
  proof (cases "n < 10")
    case True
    have "\<forall>d \<in> set [1..<10]. digit_char d \<noteq> CHR ''0''" by code_simp
    with True "1.prems" show ?thesis by (subst nat_str.simps) simp
  next
    case False
    then have "hd (nat_str n) = hd (nat_str (n div 10))" by (subst nat_str.simps) simp
    with 1 False show ?thesis by simp
  qed
qed

lemma stops_not_number: "stops r \<Longrightarrow> takeWhile is_digit r = [] \<and> dropWhile is_digit r = r \<and> frac_part r = None \<and> exp_part r = None"
  by (cases r) (auto simp: frac_part_def exp_part_def is_digit_def)

lemma int_part_nat_str: "stops r \<Longrightarrow> int_part (nat_str n @ r) = Some (n, r)"
proof -
  assume r: "stops r"
  have t: "takeWhile is_digit (nat_str n @ r) = nat_str n" "dropWhile is_digit (nat_str n @ r) = r"
    using nat_str_digits [of n] stops_not_number [OF r] by (simp_all add: takeWhile_append dropWhile_append)
  show ?thesis
  proof (cases "n = 0")
    case True
    have "nat_str 0 = [CHR ''0'']" by code_simp
    with True t show ?thesis by (simp add: int_part_def)
  next
    case False
    with t nat_str_hd [of n] show ?thesis by (simp add: int_part_def foldl_nat_str Let_def)
  qed
qed

lemma scan_number_int: "stops r \<Longrightarrow> scan_number (int_str i @ r) = Some (JInt i, r)"
proof (cases "i < 0")
  case True
  moreover assume "stops r"
  ultimately show ?thesis
    using int_part_nat_str [of r "nat (- i)"] stops_not_number [of r] by (simp add: scan_number_def int_str_def Let_def)
next
  case False
  assume r: "stops r"
  obtain c cs where c: "nat_str (nat i) = c # cs" by (cases "nat_str (nat i)") simp_all
  then have "c \<noteq> CHR ''-''" using nat_str_hd_not_sign by blast
  with False r c show ?thesis
    using int_part_nat_str [of r "nat i"] stops_not_number [of r] by (simp add: scan_number_def int_str_def Let_def)
qed

lemma int_str_first: "\<exists>c cs. int_str i = c # cs \<and> (is_digit c \<or> c = CHR ''-'' \<and> cs \<noteq> [] \<and> is_digit (hd cs))"
proof -
  have "\<exists>c cs. nat_str n = c # cs \<and> is_digit c" for n
    using nat_str_digits [of n] by (cases "nat_str n") simp_all
  then show ?thesis by (auto simp: int_str_def) (metis hd_conv_nth list.sel(1) list.simps(3))+
qed

text \<open>The first character of a text decides the branch, and is no space and no closing bracket.\<close>

lemma text_first:
  assumes "clean j"
  obtains c cs where "json_text fp j = c # cs" "\<not> json_space c" "c \<noteq> CHR '']''" "c \<noteq> CHR ''}''"
proof (cases j)
  case (JInt i)
  obtain c cs where c: "int_str i = c # cs" "is_digit c \<or> c = CHR ''-''" using int_str_first by blast
  then have "\<not> json_space c \<and> c \<noteq> CHR '']'' \<and> c \<noteq> CHR ''}''" by (auto simp: json_space_def is_digit_def)
  with c JInt that show thesis by simp
next
  case (JBool b)
  with that show thesis by (cases b) (simp_all add: json_space_def)
qed (use assms that in \<open>simp_all add: json_space_def json_string_def\<close>)

lemma skip_space_text [simp]: "clean j \<Longrightarrow> skip_space (json_text fp j @ r) = json_text fp j @ r"
  by (erule text_first [where fp = fp]) (simp add: skip_space_def)

lemma skip_space_quote [simp]: "skip_space (CHR 0x22 # r) = CHR 0x22 # r"
  and skip_space_stop [simp]: "c \<in> {CHR '','', CHR '']'', CHR ''}'', CHR '':''} \<Longrightarrow> skip_space (c # r) = c # r"
  by (auto simp: skip_space_def json_space_def)

lemma scan_literal_int: "stops r \<Longrightarrow> scan_literal (int_str i @ r) = Some (JInt i, r)"
proof -
  assume r: "stops r"
  obtain c cs where c: "int_str i = c # cs" "is_digit c \<or> c = CHR ''-'' \<and> cs \<noteq> [] \<and> is_digit (hd cs)"
    using int_str_first by blast
  then have "c \<notin> {CHR ''n'', CHR ''t'', CHR ''f'', CHR ''N'', CHR ''I''} \<and> \<not> starts_with ''-Infinity'' (int_str i @ r)"
    by (cases cs) (auto simp: is_digit_def)
  then have "scan_literal (int_str i @ r) = scan_number (int_str i @ r)" using c(1) by (auto simp: scan_literal_def)
  with r show ?thesis by (simp add: scan_number_int)
qed

lemma text_nonempty [simp]: "clean j \<Longrightarrow> json_text fp j \<noteq> []"
  by (erule text_first [where fp = fp]) simp

lemma scan_items_text:
  assumes "\<And>x f r. x \<in> set xs \<Longrightarrow> stops r \<Longrightarrow> length (json_text fp x) \<le> f \<Longrightarrow> scan_value f (json_text fp x @ r) = Some (x, r)"
    and "\<forall>x \<in> set xs. clean x" "xs \<noteq> []" "length (py_join '','' (map (json_text fp) xs)) < f"
  shows "scan_items f (py_join '','' (map (json_text fp) xs) @ CHR '']'' # r) acc = Some (acc @ xs, r)"
  using assms
proof (induction xs arbitrary: f acc)
  case (Cons x xs)
  then obtain n where f: "f = Suc n" by (cases f) simp_all
  show ?case
  proof (cases xs)
    case Nil
    with Cons.prems f show ?thesis by simp
  next
    case (Cons y ys)
    let ?t = "py_join '','' (map (json_text fp) xs)"
    have t: "py_join '','' (map (json_text fp) (x # xs)) = json_text fp x @ CHR '','' # ?t" by (simp add: Cons)
    have v: "scan_value n (json_text fp x @ CHR '','' # ?t @ CHR '']'' # r) = Some (x, CHR '','' # ?t @ CHR '']'' # r)"
      by (rule Cons.prems(1)) (use Cons.prems(4) f t in auto)
    have "length (json_text fp x) > 0" using Cons.prems(2) by simp
    then have "length ?t < n" using Cons.prems(4) f t by simp
    then have i: "scan_items n (?t @ CHR '']'' # r) (acc @ [x]) = Some ((acc @ [x]) @ xs, r)"
      by (intro Cons.IH) (use Cons.prems Cons in auto)
    have "skip_space (?t @ CHR '']'' # r) = ?t @ CHR '']'' # r"
      using Cons.prems(2) by (simp add: Cons) (cases ys; simp)
    with v i f show ?thesis unfolding t by simp
  qed
qed simp

definition pair_text :: "(pyfloat \<Rightarrow> string) \<Rightarrow> string \<times> json \<Rightarrow> string" where
  "pair_text fp kv = (case kv of (k, v) \<Rightarrow> json_string k @ '':'' @ json_text fp v)"

lemma json_text_obj: "json_text fp (JObj d) = ''{'' @ py_join '','' (map (pair_text fp) d) @ ''}''"
proof -
  have "pair_text fp = (\<lambda>(k, v). json_string k @ '':'' @ json_text fp v)" by (auto simp: pair_text_def fun_eq_iff)
  then show ?thesis by simp
qed

lemma scan_pair:
  assumes "scan_value n (json_text fp v @ r) = Some (v, r)" "clean v"
  shows "scan_pairs (Suc n) (pair_text fp (k, v) @ r) acc =
    (case skip_space r of
       c # s5 \<Rightarrow> if c = CHR ''}'' then Some (dput k v acc, s5)
         else if c = CHR '','' then scan_pairs n (skip_space s5) (dput k v acc) else None
     | [] \<Rightarrow> None)"
  using assms by (simp add: pair_text_def json_string_def scan_json_string)

lemma scan_pairs_text:
  assumes "\<And>k v f r. (k, v) \<in> set d \<Longrightarrow> stops r \<Longrightarrow> length (json_text fp v) \<le> f \<Longrightarrow> scan_value f (json_text fp v @ r) = Some (v, r)"
    and "\<forall>(k, v) \<in> set d. clean v" "d \<noteq> []" "length (py_join '','' (map (pair_text fp) d)) < f"
    and "distinct (map fst (acc @ d))"
  shows "scan_pairs f (py_join '','' (map (pair_text fp) d) @ CHR ''}'' # r) acc = Some (acc @ d, r)"
  using assms
proof (induction d arbitrary: f acc)
  case (Cons kv d)
  obtain k v where kv: "kv = (k, v)" by force
  from Cons.prems(4) obtain n where f: "f = Suc n" by (cases f) simp_all
  have cv: "clean v" using Cons.prems(2) kv by simp
  have put: "dput k v acc = acc @ [(k, v)]"
    using Cons.prems(5) kv by (intro dput_absent) (simp add: dget_None_iff)
  have len: "length (json_text fp v) + 3 \<le> length (pair_text fp kv)" by (simp add: kv pair_text_def json_string_def)
  show ?case
  proof (cases d)
    case Nil
    have "scan_value n (json_text fp v @ CHR ''}'' # r) = Some (v, CHR ''}'' # r)"
      by (rule Cons.prems(1)) (use Cons.prems(4) f kv len Nil in auto)
    from scan_pair [OF this cv, of k acc] put show ?thesis by (simp add: f kv Nil del: scan_pairs.simps)
  next
    case (Cons y ys)
    let ?t = "py_join '','' (map (pair_text fp) d)"
    have t: "py_join '','' (map (pair_text fp) (kv # d)) = pair_text fp kv @ CHR '','' # ?t" by (simp add: Cons)
    have "scan_value n (json_text fp v @ CHR '','' # ?t @ CHR ''}'' # r) = Some (v, CHR '','' # ?t @ CHR ''}'' # r)"
      by (rule Cons.prems(1)) (use Cons.prems(4) f t kv len in auto)
    note p = scan_pair [OF this cv, of k acc]
    have i: "scan_pairs n (?t @ CHR ''}'' # r) (acc @ [(k, v)]) = Some ((acc @ [(k, v)]) @ d, r)"
      by (rule Cons.IH) (use Cons.prems Cons kv f t len in auto)
    have "\<exists>u. ?t @ CHR ''}'' # r = CHR 0x22 # u"
      by (cases y; cases ys) (simp_all add: Cons pair_text_def json_string_def)
    then have "skip_space (?t @ CHR ''}'' # r) = ?t @ CHR ''}'' # r" by (metis skip_space_quote)
    with p i put show ?thesis unfolding t f by (simp add: kv del: scan_pairs.simps)
  qed
qed simp

lemma scan_text:
  "clean j \<Longrightarrow> stops r \<Longrightarrow> length (json_text fp j) \<le> f \<Longrightarrow> scan_value f (json_text fp j @ r) = Some (j, r)"
proof (induction j arbitrary: f r)
  case (JInt i)
  then obtain n where f: "f = Suc n" by (cases f) (auto simp: text_nonempty [of "JInt i" fp, simplified])
  obtain c cs where c: "int_str i = c # cs" "is_digit c \<or> c = CHR ''-''" using int_str_first by blast
  then have "c \<notin> {CHR 0x22, CHR ''['', CHR ''{''}" by (auto simp: is_digit_def)
  with f c(1) scan_literal_int [OF JInt.prems(2), of i] show ?case by simp
next
  case (JStr t)
  then obtain n where f: "f = Suc n" by (cases f) (auto simp: json_string_def)
  then show ?case by (simp add: json_string_def scan_json_string)
next
  case (JList xs)
  then obtain n where f: "f = Suc n" by (cases f) auto
  show ?case
  proof (cases "xs = []")
    case False
    have "scan_items n (py_join '','' (map (json_text fp) xs) @ CHR '']'' # r) [] = Some ([] @ xs, r)"
      by (rule scan_items_text) (use JList False f in auto)
    moreover obtain x ys where x: "xs = x # ys" "clean x" using False JList.prems(1) by (cases xs) auto
    obtain c cs where "json_text fp x = c # cs" "\<not> json_space c" "c \<noteq> CHR '']''" using x(2) by (rule text_first)
    then have "\<exists>u. py_join '','' (map (json_text fp) xs) @ CHR '']'' # r = c # u" "\<not> json_space c" "c \<noteq> CHR '']''"
      using x(1) by (cases ys; simp)+
    then have "skip_space (py_join '','' (map (json_text fp) xs) @ CHR '']'' # r) = py_join '','' (map (json_text fp) xs) @ CHR '']'' # r"
      "\<not> starts_with '']'' (py_join '','' (map (json_text fp) xs) @ CHR '']'' # r)"
      by (auto simp: skip_space_def)
    ultimately show ?thesis by (simp add: f del: scan_items.simps)
  qed (use f in simp)
next
  case (JObj d)
  then obtain n where f: "f = Suc n" by (cases f) auto
  show ?case
  proof (cases "d = []")
    case False
    have "scan_pairs n (py_join '','' (map (pair_text fp) d) @ CHR ''}'' # r) [] = Some ([] @ d, r)"
    proof (rule scan_pairs_text)
      fix k v f1 r1 assume kv: "(k, v) \<in> set d" and a: "stops (r1 :: string)" "length (json_text fp v) \<le> f1"
      from kv JObj.prems(1) have "clean v" by auto
      with JObj.IH [OF kv, of v] a show "scan_value f1 (json_text fp v @ r1) = Some (v, r1)" by simp
    qed (use JObj.prems False f in \<open>auto simp: json_text_obj simp del: json_text.simps\<close>)
    moreover have "\<exists>u. py_join '','' (map (pair_text fp) d) @ CHR ''}'' # r = CHR 0x22 # u"
      using False by (cases d; cases "hd d"; cases "tl d") (simp_all add: pair_text_def json_string_def)
    then have "skip_space (py_join '','' (map (pair_text fp) d) @ CHR ''}'' # r) = py_join '','' (map (pair_text fp) d) @ CHR ''}'' # r"
      "\<not> starts_with ''}'' (py_join '','' (map (pair_text fp) d) @ CHR ''}'' # r)" by auto
    ultimately show ?thesis unfolding json_text_obj by (simp add: f del: scan_pairs.simps)
  qed (use f in simp)
next
  case (JBool b)
  then obtain n where "f = Suc n" by (cases f; cases b) auto
  then show ?case by (cases b) (simp_all add: scan_literal_def)
next
  case JNull
  then obtain n where "f = Suc n" by (cases f) auto
  then show ?case by (simp add: scan_literal_def)
qed simp

lemma json_loads_text: "clean j \<Longrightarrow> json_loads (json_text fp j) = Some j"
  using scan_text [of j "[]" fp "Suc (length (json_text fp j))"] skip_space_text [of j fp "[]"]
  by (simp add: json_loads_def skip_space_def del: scan_value.simps)

end
