(* ===== verification/Chat_Routing.thy ===== *)
theory Chat_Routing
  imports Idempotency Py_Json
begin

section \<open>Intent routing (domain/chat/routing.py, domain/chat/decision_service.py)\<close>

text \<open>
  What the language model proposes and what the server makes of it. The proposal is JSON of any
  shape; \<open>parse_route_decision\<close> checks it against the fields that \<open>RouteDecision\<close> declares (an
  exception is the name of its class), and \<open>decide_next_step\<close> maps a checked decision to one of
  four actions. The texts that instruct the model are here too, a text beyond ASCII as its UTF-8
  bytes. A chat history is a list of (role, text).
\<close>

subsection \<open>Intents and reasons\<close>

datatype intent = CHAT | GENERAL_IMAGE | POSTER | INFOGRAPHIC | CLARIFICATION

datatype reason_code =
    QUESTION_OR_DISCUSSION
  | GENERAL_VISUAL_REQUEST
  | STRUCTURED_PROMOTIONAL_LAYOUT
  | STRUCTURED_INFORMATION_DESIGN
  | AMBIGUOUS_VISUAL_DELIVERABLE
  | EXPLICIT_USER_MODE

fun intent_value :: "intent \<Rightarrow> string" where
  "intent_value CHAT = ''CHAT''"
| "intent_value GENERAL_IMAGE = ''GENERAL_IMAGE''"
| "intent_value POSTER = ''POSTER''"
| "intent_value INFOGRAPHIC = ''INFOGRAPHIC''"
| "intent_value CLARIFICATION = ''CLARIFICATION''"

fun reason_value :: "reason_code \<Rightarrow> string" where
  "reason_value QUESTION_OR_DISCUSSION = ''question_or_discussion''"
| "reason_value GENERAL_VISUAL_REQUEST = ''general_visual_request''"
| "reason_value STRUCTURED_PROMOTIONAL_LAYOUT = ''structured_promotional_layout''"
| "reason_value STRUCTURED_INFORMATION_DESIGN = ''structured_information_design''"
| "reason_value AMBIGUOUS_VISUAL_DELIVERABLE = ''ambiguous_visual_deliverable''"
| "reason_value EXPLICIT_USER_MODE = ''explicit_user_mode''"

definition ALL_INTENTS :: "intent list" where
  "ALL_INTENTS = [CHAT, GENERAL_IMAGE, POSTER, INFOGRAPHIC, CLARIFICATION]"

definition ALL_REASON_CODES :: "reason_code list" where
  "ALL_REASON_CODES = [QUESTION_OR_DISCUSSION, GENERAL_VISUAL_REQUEST, STRUCTURED_PROMOTIONAL_LAYOUT,
     STRUCTURED_INFORMATION_DESIGN, AMBIGUOUS_VISUAL_DELIVERABLE, EXPLICIT_USER_MODE]"

definition PAID_INTENTS :: "intent list" where
  "PAID_INTENTS = [POSTER, INFOGRAPHIC]"

definition derive_billing_category :: "intent \<Rightarrow> string" where
  "derive_billing_category i = (if i \<in> set PAID_INTENTS then ''paid'' else ''local'')"

subsection \<open>Checking the proposal\<close>

record route_decision =
  rd_intent :: intent
  rd_normalized_prompt :: string
  rd_exact_text :: "string list"
  rd_missing_fields :: "string list"
  rd_clarification_question :: "string option"
  rd_reason_code :: reason_code

definition DECISION_FIELDS :: "string list" where
  "DECISION_FIELDS = [''intent'', ''normalized_prompt'', ''exact_text'', ''missing_fields'',
     ''clarification_question'', ''reason_code'']"

definition VALID_REASON_CODES :: "string list" where
  "VALID_REASON_CODES = map reason_value ALL_REASON_CODES"

definition FALLBACK_REASON_CODE :: string where
  "FALLBACK_REASON_CODE = reason_value AMBIGUOUS_VISUAL_DELIVERABLE"

definition NULLABLE_LIST_FIELDS :: "string list" where
  "NULLABLE_LIST_FIELDS = [''exact_text'', ''missing_fields'']"

text \<open>The types of the fields: a text, an enum by its value, a list of texts, a text or null.\<close>

definition text_field :: "json \<Rightarrow> string option" where
  "text_field v = (case v of JStr s \<Rightarrow> Some s | _ \<Rightarrow> None)"

definition enum_field :: "('e \<Rightarrow> string) \<Rightarrow> 'e list \<Rightarrow> json \<Rightarrow> 'e option" where
  "enum_field value members v =
     (case v of JStr s \<Rightarrow> find (\<lambda>e. value e = s) members | _ \<Rightarrow> None)"

fun text_items :: "json list \<Rightarrow> string list option" where
  "text_items [] = Some []"
| "text_items (v # vs) =
     (case (text_field v, text_items vs) of (Some s, Some ss) \<Rightarrow> Some (s # ss) | _ \<Rightarrow> None)"

definition texts_field :: "json \<Rightarrow> string list option" where
  "texts_field v = (case v of JList vs \<Rightarrow> text_items vs | _ \<Rightarrow> None)"

definition optional_text :: "json \<Rightarrow> string option option" where
  "optional_text v = (case v of JNull \<Rightarrow> Some None | JStr s \<Rightarrow> Some (Some s) | _ \<Rightarrow> None)"

text \<open>\<open>RouteDecision.model_validate\<close>: \<open>None\<close> is the \<open>ValidationError\<close>. An absent field takes its
  default, a field that is not declared is an error (\<open>extra = forbid\<close>).\<close>

definition field_or :: "dict \<Rightarrow> string \<Rightarrow> 'a option \<Rightarrow> (json \<Rightarrow> 'a option) \<Rightarrow> 'a option" where
  "field_or d k dflt read = (case dget d k of None \<Rightarrow> dflt | Some v \<Rightarrow> read v)"

definition validate_decision :: "dict \<Rightarrow> route_decision option" where
  "validate_decision d =
     (if \<not> (\<forall>k \<in> set (map fst d). k \<in> set DECISION_FIELDS) then None
      else case (field_or d ''intent'' None (enum_field intent_value ALL_INTENTS),
                 field_or d ''normalized_prompt'' None text_field,
                 field_or d ''exact_text'' (Some []) texts_field,
                 field_or d ''missing_fields'' (Some []) texts_field,
                 field_or d ''clarification_question'' (Some None) optional_text,
                 field_or d ''reason_code'' None (enum_field reason_value ALL_REASON_CODES)) of
        (Some i, Some p, Some xs, Some ms, Some q, Some r) \<Rightarrow>
          Some \<lparr>rd_intent = i, rd_normalized_prompt = p, rd_exact_text = xs, rd_missing_fields = ms,
                rd_clarification_question = q, rd_reason_code = r\<rparr>
      | _ \<Rightarrow> None)"

definition null_to_empty :: "dict \<Rightarrow> dict" where
  "null_to_empty d = fold (\<lambda>f d. if get_json d f = JNull then dput f (JList []) d else d) NULLABLE_LIST_FIELDS d"

definition parse_route_decision :: "json \<Rightarrow> exc + route_decision" where
  "parse_route_decision raw =
     (case raw of
        JObj d \<Rightarrow>
          let d = null_to_empty d; r = get_json d ''reason_code'' in
          if \<not> hashable r then Inl ''TypeError''
          else let d = (if r \<notin> JStr ` set VALID_REASON_CODES then dput ''reason_code'' (JStr FALLBACK_REASON_CODE) d
                        else d) in
            (case validate_decision d of None \<Rightarrow> Inl ''RouteDecisionError'' | Some rd \<Rightarrow> Inr rd)
      | _ \<Rightarrow> Inl ''RouteDecisionError'')"

subsection \<open>What the server does with it\<close>

datatype next_step =
    RespondChat
  | RespondClarification string
  | EnqueueGeneralImage string "string list"
  | EnqueuePaidImage string string "string list" string

definition DEFAULT_CLARIFICATION_QUESTION :: string where
  "DEFAULT_CLARIFICATION_QUESTION = map char_of
    [224, 184, 138, 224, 185, 136, 224, 184, 167, 224, 184, 162, 224, 184, 173, 224, 184, 152, 224, 184, 180, 224,
     184, 154, 224, 184, 178, 224, 184, 162, 224, 185, 128, 224, 184, 158, 224, 184, 180, 224, 185, 136, 224, 184,
     161, 224, 185, 128, 224, 184, 149, 224, 184, 180, 224, 184, 161, 224, 185, 132, 224, 184, 148, 224, 185, 137,
     224, 185, 132, 224, 184, 171, 224, 184, 161, 224, 184, 132, 224, 184, 176, 224, 184, 167, 224, 185, 136, 224,
     184, 178, 224, 184, 149, 224, 185, 137, 224, 184, 173, 224, 184, 135, 224, 184, 129, 224, 184, 178, 224, 184,
     163, 224, 184, 173, 224, 184, 176, 224, 185, 132, 224, 184, 163, 63 :: nat]"

text \<open>\<open>x or default\<close> on an optional text.\<close>

definition text_or :: "string option \<Rightarrow> string \<Rightarrow> string" where
  "text_or x d = (case x of Some s \<Rightarrow> if s \<noteq> [] then s else d | None \<Rightarrow> d)"

definition decide_next_step :: "route_decision \<Rightarrow> next_step" where
  "decide_next_step d =
     (if rd_intent d = CHAT then RespondChat
      else if rd_intent d = CLARIFICATION then
        RespondClarification (text_or (rd_clarification_question d) DEFAULT_CLARIFICATION_QUESTION)
      else if rd_intent d = GENERAL_IMAGE then EnqueueGeneralImage (rd_normalized_prompt d) (rd_exact_text d)
      else EnqueuePaidImage (if rd_intent d = POSTER then ''poster'' else ''infographic'')
             (rd_normalized_prompt d) (rd_exact_text d) (derive_billing_category (rd_intent d)))"

definition compute_params_fingerprint :: "(pyfloat \<Rightarrow> string) \<Rightarrow> (string \<Rightarrow> string) \<Rightarrow> dict \<Rightarrow> string" where
  "compute_params_fingerprint rp sha params = sha (json_text rp (sort_keys (JObj params)))"

subsection \<open>The schemas and instructions the model is given\<close>

definition enum_schema :: "string list \<Rightarrow> json" where
  "enum_schema vs = JObj [(''type'', JStr ''string''), (''enum'', JList (map JStr vs))]"

definition texts_schema :: json where
  "texts_schema = JObj [(''type'', JStr ''array''), (''items'', JObj [(''type'', JStr ''string'')])]"

definition ROUTE_DECISION_JSON_SCHEMA :: json where
  "ROUTE_DECISION_JSON_SCHEMA = JObj
    [(''type'', JStr ''object''),
     (''properties'', JObj
        [(''intent'', enum_schema (map intent_value ALL_INTENTS)),
         (''normalized_prompt'', JObj [(''type'', JStr ''string'')]),
         (''exact_text'', texts_schema),
         (''missing_fields'', texts_schema),
         (''clarification_question'', JObj [(''type'', JStr ''string''), (''nullable'', JBool True)]),
         (''reason_code'', enum_schema (map reason_value ALL_REASON_CODES))]),
     (''required'', JList (map JStr DECISION_FIELDS))]"

definition ROUTE_DECISION_JSON_SCHEMA_VLLM :: json where
  "ROUTE_DECISION_JSON_SCHEMA_VLLM = JObj
    [(''type'', JStr ''object''),
     (''properties'', JObj
        [(''intent'', enum_schema (map intent_value ALL_INTENTS)),
         (''normalized_prompt'', JObj [(''type'', JStr ''string'')]),
         (''exact_text'', texts_schema),
         (''missing_fields'', texts_schema),
         (''clarification_question'', JObj [(''type'', JList [JStr ''string'', JStr ''null''])]),
         (''reason_code'', enum_schema (map reason_value ALL_REASON_CODES))]),
     (''required'', JList (map JStr DECISION_FIELDS)),
     (''additionalProperties'', JBool False)]"

definition newline :: string where
  "newline = [CHR 0x0A]"

definition text_lines :: "string list \<Rightarrow> string" where
  "text_lines ls = concat (map (\<lambda>l. l @ newline) ls)"

definition ROUTER_SYSTEM_INSTRUCTION :: string where
  \<open>ROUTER_SYSTEM_INSTRUCTION = text_lines
    [''You are the intent router for a university image-generation chat assistant. Classify the user's'' @
      '' latest message (using the conversation so far for context) into exactly one intent, and respond'' @
      '' ONLY with JSON matching the required schema.'',
     [],
     ''Routes:'',
     ''- CHAT: user asks a question, wants ideas/analysis/advice/copywriting only, discusses a design'' @
      '' without asking to generate it, or mentions an image/poster/infographic without requesting'' @
      '' execution. Never starts a generation job.'',
     ''- GENERAL_IMAGE: user explicitly requests a primarily visual image -- a photo, illustration,'' @
      '' artwork, character, object, background, or concept art; a visual asset without structured'' @
      '' information; a promotional-looking visual that does NOT require a readable information hierarchy.'',
     ''- POSTER: the requested result is a promotional/announcement layout with structured communication:'' @
      '' headline, event title, date/time/location, organizer/logo, call to action, multiple typography'' @
      '' levels, deliberate poster composition.'',
     ''- INFOGRAPHIC: the requested result explains structured information: steps/process, timeline,'' @
      '' comparison, categories, statistics, educational sections, charts/diagrams/labeled components.'',
     ''- CLARIFICATION: use ONLY when choosing incorrectly would materially change the output or trigger a'' @
      '' paid API (POSTER/INFOGRAPHIC are paid; GENERAL_IMAGE is local/free). Ask exactly one concise'' @
      '' question. Do not ask about optional details that can safely default.'',
     [],
     ''Field rules:'',
     ''- normalized_prompt: the visual direction, cleaned up, but preserving the user's actual intent and'' @
      '' language (do not translate Thai to English or vice versa). Describe ONLY what the LATEST message'' @
      '' itself asks for. Earlier turns are context for interpreting ambiguous references in the latest'' @
      '' message (e.g. "make it bigger", "same style as before") -- they are NEVER material to combine,'' @
      '' merge, or summarize into the same image. If this conversation contains several earlier, unrelated'' @
      '' image/poster/infographic requests (common in a long testing session), do not fold their subjects'' @
      '' into this one: a request for "a red panda" stays a request for exactly one red panda, never a'' @
      '' collage/portfolio/grid that also includes a cat, coffee, or people from earlier unrelated turns.'' @
      '' Only combine multiple subjects into one composition if the LATEST message explicitly asks for that'' @
      '' (e.g. "put the cat and the coffee cup in the same photo").'',
     ''- exact_text: any literal text/copy that must appear verbatim in the generated image (headlines,'' @
      '' dates, place names the user actually typed) -- preserve exact wording, especially Thai. Do not'' @
      '' invent additional text.'',
     ''- missing_fields: critical factual values the user did not provide that a POSTER or INFOGRAPHIC'' @
      '' cannot be correctly generated without (e.g. event date, location, specific statistics). Never'' @
      '' invent dates, times, locations, prices, statistics, organization names, or URLs -- list them as'' @
      '' missing instead.'',
     ''- clarification_question: required (non-null) only when intent is CLARIFICATION; null otherwise.'',
     ''- reason_code: pick the single best-matching enum value, not free text.'',
     [],
     ''Do not classify a GENERAL_IMAGE request as POSTER merely because it mentions marketing, an event, or'' @
      '' an organization. Do not downgrade a POSTER/INFOGRAPHIC request to GENERAL_IMAGE to avoid cost. If'' @
      '' the user has explicitly selected a mode elsewhere in the conversation, respect it (reason_code:'' @
      '' explicit_user_mode) unless it is incompatible or unsafe.'']\<close>

definition RESEARCH_SYSTEM_INSTRUCTION :: string where
  \<open>RESEARCH_SYSTEM_INSTRUCTION = text_lines
    [''You are a fact-finding assistant for a university image-generation chat tool. The user asked for a'' @
      '' POSTER or INFOGRAPHIC, but some required factual fields are still unknown. Use Google Search to try'' @
      '' to find REAL, CURRENT, VERIFIABLE facts for the missing fields listed below, based on the'' @
      '' conversation so far.'',
     [],
     ''Rules:'',
     ''- Only report facts you actually found via search, with enough specificity to be useful (e.g. an'' @
      '' exact date, not "sometime this year"). Never guess, estimate, or infer a fact that search did not'' @
      '' actually surface.'',
     ''- If you cannot find a confident, current answer for a field, say so explicitly for that field'' @
      '' instead of guessing.'',
     ''- Keep the answer short and factual: one line per missing field, in the format "<field>: <finding or'' @
      '' 'not found'>". Do not add commentary, opinions, or extra formatting.'']\<close>

definition PROMPT_DESIGN_SYSTEM_INSTRUCTION_TEMPLATE :: string where
  \<open>PROMPT_DESIGN_SYSTEM_INSTRUCTION_TEMPLATE = text_lines
    [''You are an expert prompt engineer for an AI image generation model that creates {kind}s. Given a'' @
      '' content brief and a list of text that MUST appear verbatim in the final image, write a single,'' @
      '' detailed image-generation prompt that will produce a visually excellent, professional result.'',
     [],
     ''Your prompt must:'',
     ''- Describe a clear layout and visual hierarchy appropriate for a {kind} (headline placement,'' @
      '' supporting text, imagery, logo/QR placement as relevant).'',
     ''- Specify a coherent color palette, typography style, and overall visual mood that fits the subject'' @
      '' matter.'',
     ''- Explicitly instruct that the given text must be rendered exactly as provided, verbatim, without'' @
      '' translation, paraphrasing, or alteration.'',
     ''- NOT invent any factual content (dates, prices, names, statistics, organizations) beyond what is'' @
      '' given to you -- only add visual/design direction, never new facts.'',
     ''- Be written as plain natural-language prompt text (a paragraph or a few short paragraphs) -- not a'' @
      '' list, not JSON, not markdown -- since it is sent directly to the image model.'',
     ''- Describe exactly the ONE {kind} the content brief asks for -- never expand it into a collage,'' @
      '' portfolio, contact sheet, or multiple separate designs, even if earlier unrelated requests are'' @
      '' visible elsewhere in context.'',
     [],
     ''Respond with ONLY the final image-generation prompt text. No preamble, no explanation, no'' @
      '' surrounding quotation marks.'']\<close>

definition COMFY_PROMPT_DESIGN_SYSTEM_INSTRUCTION :: string where
  \<open>COMFY_PROMPT_DESIGN_SYSTEM_INSTRUCTION = text_lines
    [''You are an expert prompt engineer for a diffusion-based AI image generation model (similar to Stable'' @
      '' Diffusion / SDXL). Given a content brief, write a single, detailed positive prompt that will'' @
      '' produce a visually excellent result.'',
     [],
     ''Your prompt must:'',
     ''- Be a dense, comma-separated list of descriptive phrases and keywords: subject, setting,'' @
      '' composition, lighting, color palette, art style/medium, mood, and relevant quality modifiers (e.g.'' @
      '' "highly detailed", "sharp focus") -- this is the format diffusion models respond best to, NOT a'' @
      '' narrative paragraph.'',
     ''- Stay faithful to the content brief's actual subject and intent -- do not change what the image is'' @
      '' of. The brief describes exactly ONE subject/scene for ONE single image -- never expand it into a'' @
      '' collage, portfolio, contact sheet, multi-panel, or grid layout containing other subjects, even if'' @
      '' earlier unrelated requests are visible elsewhere in context. Only describe multiple subjects'' @
      '' together if the brief itself explicitly asks for them to appear in the same image.'',
     ''- NOT invent specific factual content (dates, names, statistics, real organizations) --'',
     ''only add visual/style/composition direction.'',
     ''- NOT instruct the model to render specific in-image text verbatim -- this generation backend is'' @
      '' unreliable at rendering readable text, so avoid relying on it; if the brief mentions text or'' @
      '' wording, treat it only as thematic context, not text to render.'',
     [],
     ''Respond with ONLY the final positive prompt text (comma-separated keywords/phrases). No preamble, no'' @
      '' explanation, no surrounding quotation marks.'']\<close>

type_synonym chat_history = "(string \<times> string) list"

definition bullets :: "string list \<Rightarrow> string" where
  "bullets ts = py_join newline (map (\<lambda>t. ''- '' @ t) ts)"

definition build_research_query :: "chat_history \<Rightarrow> string list \<Rightarrow> string" where
  "build_research_query history missing_fields =
     (let latest_user_texts = map snd (filter (\<lambda>h. fst h = ''user'') history);
          latest = (if latest_user_texts \<noteq> [] then last latest_user_texts else [])
      in ''Conversation context (latest user request): '' @ latest @ newline @ newline @
         ''Missing fields to research:'' @ newline @ bullets missing_fields)"

definition build_router_system_instruction_with_research :: "string \<Rightarrow> string" where
  "build_router_system_instruction_with_research research_findings =
     ROUTER_SYSTEM_INSTRUCTION @ newline @ newline @
     ''Verified research findings (from a real Google Search call made for this '' @
     ''conversation -- use ONLY these to fill in previously-missing fields if they '' @
     ''directly answer them; if a finding says 'not found' or doesn't clearly answer '' @
     ''a field, keep that field in missing_fields; never invent beyond what's written '' @
     ''here):'' @ newline @ research_findings"

definition build_prompt_design_instruction :: "string \<Rightarrow> string" where
  "build_prompt_design_instruction kd = py_replace ''{kind}'' kd PROMPT_DESIGN_SYSTEM_INSTRUCTION_TEMPLATE"

definition build_prompt_design_user_message :: "string \<Rightarrow> string list \<Rightarrow> string" where
  "build_prompt_design_user_message prompt exact_text =
     (let exact_lines = (if exact_text \<noteq> [] then bullets exact_text else ''(none)'')
      in ''Content brief: '' @ prompt @ newline @ newline @
         ''Text that must appear verbatim in the image:'' @ newline @ exact_lines)"

definition build_comfy_prompt_design_user_message :: "string \<Rightarrow> string list \<Rightarrow> string" where
  "build_comfy_prompt_design_user_message prompt exact_text =
     (if exact_text = [] then ''Content brief: '' @ prompt
      else ''Content brief: '' @ prompt @ newline @ newline @
        ''Related thematic context (not to be rendered as text):'' @ newline @ bullets exact_text)"

end
