(* ===== verification/Llm_Adapters.thy ===== *)
theory Llm_Adapters
  imports Chat_Routing Py_Codec
begin

section \<open>The text models (adapters/gemini.py, adapters/qwen.py)\<close>

text \<open>
  The two interchangeable clients of the conversational model, as records of the operations the
  rest of the code calls. The service behind a client is a parameter: what the Gemini SDK returns
  or raises for a list of contents and a configuration, what the vLLM server answers to a request
  body. Every failure leaves a client as a \<open>RuntimeError\<close> with one of a few fixed texts.
\<close>

subsection \<open>Exceptions\<close>

text \<open>What the handlers look at in an exception: its class name, whether it is the library's
  timeout, the attributes \<open>code\<close> and \<open>status\<close>, the status of an attached HTTP response, its text.\<close>

record py_exc =
  px_type :: string
  px_timeout :: bool
  px_code :: "int option"
  px_status :: "string option"
  px_http_status :: "int option"
  px_message :: string

definition plain_exc :: "string \<Rightarrow> py_exc" where
  "plain_exc name = \<lparr>px_type = name, px_timeout = False, px_code = None, px_status = None,
     px_http_status = None, px_message = []\<rparr>"

definition runtime_error :: "string \<Rightarrow> py_exc" where
  "runtime_error msg = (plain_exc ''RuntimeError'')\<lparr>px_message := msg\<rparr>"

definition raise_plain :: "exc + 'a \<Rightarrow> py_exc + 'a" where
  "raise_plain r = map_sum plain_exc id r"

definition GEMINI_OVERLOAD_ERROR_CODES :: "string list" where
  "GEMINI_OVERLOAD_ERROR_CODES = [''gemini_overloaded'', ''gemini_rate_limited'', ''gemini_timeout'']"

definition QWEN_OVERLOAD_ERROR_CODES :: "string list" where
  "QWEN_OVERLOAD_ERROR_CODES = [''qwen_overloaded'', ''qwen_rate_limited'', ''qwen_timeout'']"

definition gemini_sanitized_error :: "py_exc \<Rightarrow> string" where
  "gemini_sanitized_error e =
     (if px_timeout e then ''gemini_timeout''
      else if px_code e = Some 503 \<or> px_status e = Some ''UNAVAILABLE'' then ''gemini_overloaded''
      else if px_code e = Some 429 \<or> px_status e = Some ''RESOURCE_EXHAUSTED'' then ''gemini_rate_limited''
      else ''gemini_error:'' @ px_type e)"

definition qwen_sanitized_error :: "py_exc \<Rightarrow> string" where
  "qwen_sanitized_error e =
     (if px_timeout e then ''qwen_timeout''
      else if px_http_status e = Some 503 then ''qwen_overloaded''
      else if px_http_status e = Some 429 then ''qwen_rate_limited''
      else ''qwen_error:'' @ px_type e)"

text \<open>\<open>except Exception as exc: raise RuntimeError(_sanitized_error(exc))\<close>.\<close>

definition sanitize :: "(py_exc \<Rightarrow> string) \<Rightarrow> py_exc + 'a \<Rightarrow> py_exc + 'a" where
  "sanitize f r = map_sum (\<lambda>e. runtime_error (f e)) id r"

definition json_loads_exc :: "string \<Rightarrow> py_exc + json" where
  "json_loads_exc s = (case json_loads s of None \<Rightarrow> Inl (plain_exc ''JSONDecodeError'') | Some j \<Rightarrow> Inr j)"

subsection \<open>The client\<close>

record text_client =
  tc_complete :: "chat_history \<Rightarrow> py_exc + string"
  tc_route_intent :: "chat_history \<Rightarrow> string option \<Rightarrow> py_exc + json"
  tc_research_missing_fields :: "chat_history \<Rightarrow> string list \<Rightarrow> py_exc + string"
  tc_design_image_prompt :: "string \<Rightarrow> string list \<Rightarrow> string \<Rightarrow> py_exc + string"
  tc_design_comfyui_prompt :: "string \<Rightarrow> string list \<Rightarrow> py_exc + string"

subsection \<open>GeminiTextClient\<close>

record gen_config =
  gc_system_instruction :: "string option"
  gc_response_schema :: "json option"
  gc_google_search :: bool

text \<open>\<open>generate_content\<close> under the time limit of the call: the \<open>text\<close> of the response, if it has one.\<close>

type_synonym gemini_service = "(string \<times> string) list \<Rightarrow> gen_config \<Rightarrow> py_exc + string option"

definition ROLE_TO_GEMINI :: "(string \<times> string) list" where
  "ROLE_TO_GEMINI = [(''user'', ''user''), (''assistant'', ''model'')]"

definition gemini_contents :: "chat_history \<Rightarrow> (string \<times> string) list" where
  "gemini_contents history =
     map (\<lambda>(r, t). (the (dget ROLE_TO_GEMINI r), t))
       (filter (\<lambda>(r, t). dmem r ROLE_TO_GEMINI \<and> py_strip t \<noteq> []) history)"

definition gemini_generate :: "gemini_service \<Rightarrow> (string \<times> string) list \<Rightarrow> gen_config \<Rightarrow> py_exc + string" where
  "gemini_generate svc contents config =
     map_sum id (\<lambda>t. py_strip (case t of Some s \<Rightarrow> s | None \<Rightarrow> [])) (svc contents config)"

definition plain_config :: gen_config where
  "plain_config = \<lparr>gc_system_instruction = None, gc_response_schema = None, gc_google_search = False\<rparr>"

definition gemini_complete :: "gemini_service \<Rightarrow> chat_history \<Rightarrow> py_exc + string" where
  "gemini_complete svc history =
     (let contents = gemini_contents history in
      if contents = [] then Inr ''(nothing to reply to)''
      else map_sum id (\<lambda>text. if text \<noteq> [] then text else ''(empty response)'')
             (sanitize gemini_sanitized_error (gemini_generate svc contents plain_config)))"

definition gemini_route_sync :: "gemini_service \<Rightarrow> (string \<times> string) list \<Rightarrow> string \<Rightarrow> py_exc + string" where
  "gemini_route_sync svc contents system_instruction =
     gemini_generate svc contents
       \<lparr>gc_system_instruction = Some system_instruction, gc_response_schema = Some ROUTE_DECISION_JSON_SCHEMA,
        gc_google_search = False\<rparr>"

definition gemini_route_intent :: "gemini_service \<Rightarrow> chat_history \<Rightarrow> string option \<Rightarrow> py_exc + json" where
  "gemini_route_intent svc history extra_system_instruction =
     (let contents = gemini_contents history in
      if contents = [] then Inl (runtime_error ''gemini_error:EmptyHistory'')
      else let system_instruction = text_or extra_system_instruction ROUTER_SYSTEM_INSTRUCTION in
        sanitize gemini_sanitized_error
          (case gemini_route_sync svc contents system_instruction of
             Inl e \<Rightarrow> Inl e
           | Inr raw_text \<Rightarrow> json_loads_exc raw_text))"

definition gemini_research_missing_fields ::
  "gemini_service \<Rightarrow> chat_history \<Rightarrow> string list \<Rightarrow> py_exc + string" where
  "gemini_research_missing_fields svc history missing_fields =
     sanitize gemini_sanitized_error
       (gemini_generate svc (gemini_contents history @ [(''user'', build_research_query history missing_fields)])
          \<lparr>gc_system_instruction = Some RESEARCH_SYSTEM_INSTRUCTION, gc_response_schema = None,
           gc_google_search = True\<rparr>)"

definition gemini_design_image_prompt ::
  "gemini_service \<Rightarrow> string \<Rightarrow> string list \<Rightarrow> string \<Rightarrow> py_exc + string" where
  "gemini_design_image_prompt svc prompt exact_text kd =
     sanitize gemini_sanitized_error
       (gemini_generate svc [(''user'', build_prompt_design_user_message prompt exact_text)]
          (plain_config\<lparr>gc_system_instruction := Some (build_prompt_design_instruction kd)\<rparr>))"

definition gemini_design_comfyui_prompt :: "gemini_service \<Rightarrow> string \<Rightarrow> string list \<Rightarrow> py_exc + string" where
  "gemini_design_comfyui_prompt svc prompt exact_text =
     sanitize gemini_sanitized_error
       (gemini_generate svc [(''user'', build_comfy_prompt_design_user_message prompt exact_text)]
          (plain_config\<lparr>gc_system_instruction := Some COMFY_PROMPT_DESIGN_SYSTEM_INSTRUCTION\<rparr>))"

definition gemini_text_client :: "gemini_service \<Rightarrow> text_client" where
  "gemini_text_client svc =
     \<lparr>tc_complete = gemini_complete svc, tc_route_intent = gemini_route_intent svc,
      tc_research_missing_fields = gemini_research_missing_fields svc,
      tc_design_image_prompt = gemini_design_image_prompt svc,
      tc_design_comfyui_prompt = gemini_design_comfyui_prompt svc\<rparr>"

subsection \<open>QwenTextClient\<close>

record qwen_client =
  qc_base_url :: string
  qc_model :: string
  qc_timeout_s :: rat

text \<open>A POST of a JSON body to a URL under a time limit: the JSON of the answer, or what the client
  library, \<open>raise_for_status\<close> or the decoding raises.\<close>

type_synonym qwen_service = "string \<Rightarrow> dict \<Rightarrow> rat \<Rightarrow> py_exc + json"

definition KNOWN_ROLES :: "string list" where
  "KNOWN_ROLES = [''user'', ''assistant'']"

definition history_to_messages :: "chat_history \<Rightarrow> string option \<Rightarrow> json list" where
  "history_to_messages history system =
     (let message = (\<lambda>r t. JObj [(''role'', JStr r), (''content'', JStr t)]) in
      (case system of Some s \<Rightarrow> if s \<noteq> [] then [message ''system'' s] else [] | None \<Rightarrow> []) @
      map (\<lambda>(r, t). message r t) (filter (\<lambda>(r, t). r \<in> set KNOWN_ROLES \<and> py_strip t \<noteq> []) history))"

text \<open>\<open>(data["choices"][0]["message"]["content"] or "").strip()\<close>.\<close>

definition completion_text :: "json \<Rightarrow> exc + string" where
  "completion_text data =
     bind_exc (index_key data ''choices'') (\<lambda>choices.
     bind_exc (index_nat choices 0) (\<lambda>choice.
     bind_exc (index_key choice ''message'') (\<lambda>message.
     bind_exc (index_key message ''content'') (\<lambda>content.
       case or_default content (JStr []) of JStr s \<Rightarrow> Inr (py_strip s) | _ \<Rightarrow> Inl ''AttributeError''))))"

definition qwen_chat :: "qwen_service \<Rightarrow> qwen_client \<Rightarrow> json list \<Rightarrow> rat \<Rightarrow> dict \<Rightarrow> py_exc + string" where
  "qwen_chat svc c messages timeout_s extra_body =
     (let payload = dmerge [(''model'', JStr (qc_model c)), (''messages'', JList messages), (''stream'', JBool False)]
                      extra_body in
      case svc (qc_base_url c @ ''/v1/chat/completions'') payload timeout_s of
        Inl e \<Rightarrow> Inl e
      | Inr data \<Rightarrow> raise_plain (completion_text data))"

definition qwen_complete :: "qwen_service \<Rightarrow> qwen_client \<Rightarrow> chat_history \<Rightarrow> py_exc + string" where
  "qwen_complete svc c history =
     (let messages = history_to_messages history None in
      if messages = [] then Inr ''(nothing to reply to)''
      else map_sum id (\<lambda>text. if text \<noteq> [] then text else ''(empty response)'')
             (sanitize qwen_sanitized_error (qwen_chat svc c messages (qc_timeout_s c) [])))"

definition qwen_route_intent ::
  "qwen_service \<Rightarrow> qwen_client \<Rightarrow> chat_history \<Rightarrow> string option \<Rightarrow> py_exc + json" where
  "qwen_route_intent svc c history extra_system_instruction =
     (let system_instruction = text_or extra_system_instruction ROUTER_SYSTEM_INSTRUCTION;
          messages = history_to_messages history (Some system_instruction) in
      if length messages \<le> 1 then Inl (runtime_error ''qwen_error:EmptyHistory'')
      else sanitize qwen_sanitized_error
        (case qwen_chat svc c messages (max (qc_timeout_s c) 90)
                [(''guided_json'', ROUTE_DECISION_JSON_SCHEMA_VLLM), (''temperature'', JFloat (Fin (1 / 10)))] of
           Inl e \<Rightarrow> Inl e
         | Inr raw_text \<Rightarrow> json_loads_exc raw_text))"

definition qwen_research_missing_fields :: "chat_history \<Rightarrow> string list \<Rightarrow> py_exc + string" where
  "qwen_research_missing_fields history missing_fields = Inl (runtime_error ''qwen_error:NotImplemented'')"

definition qwen_design_image_prompt ::
  "qwen_service \<Rightarrow> qwen_client \<Rightarrow> string \<Rightarrow> string list \<Rightarrow> string \<Rightarrow> py_exc + string" where
  "qwen_design_image_prompt svc c prompt exact_text kd =
     sanitize qwen_sanitized_error
       (qwen_chat svc c (history_to_messages [(''user'', build_prompt_design_user_message prompt exact_text)]
            (Some (build_prompt_design_instruction kd))) (qc_timeout_s c) [])"

definition qwen_design_comfyui_prompt ::
  "qwen_service \<Rightarrow> qwen_client \<Rightarrow> string \<Rightarrow> string list \<Rightarrow> py_exc + string" where
  "qwen_design_comfyui_prompt svc c prompt exact_text =
     sanitize qwen_sanitized_error
       (qwen_chat svc c (history_to_messages [(''user'', build_comfy_prompt_design_user_message prompt exact_text)]
            (Some COMFY_PROMPT_DESIGN_SYSTEM_INSTRUCTION)) (qc_timeout_s c) [])"

definition qwen_text_client :: "qwen_service \<Rightarrow> qwen_client \<Rightarrow> text_client" where
  "qwen_text_client svc c =
     \<lparr>tc_complete = qwen_complete svc c, tc_route_intent = qwen_route_intent svc c,
      tc_research_missing_fields = qwen_research_missing_fields,
      tc_design_image_prompt = qwen_design_image_prompt svc c,
      tc_design_comfyui_prompt = qwen_design_comfyui_prompt svc c\<rparr>"

subsection \<open>No raw exception text leaves a client\<close>

text \<open>
  The texts an exception of a client may carry: fixed codes, or a prefix with the name of a class
  of the exceptions that the service raises.
\<close>

locale brain =
  fixes client :: text_client
    and codes :: "string \<Rightarrow> bool"
  assumes complete_codes: "tc_complete client h = Inl e \<Longrightarrow> px_type e = ''RuntimeError'' \<and> codes (px_message e)"
    and route_codes: "tc_route_intent client h x = Inl e \<Longrightarrow> px_type e = ''RuntimeError'' \<and> codes (px_message e)"
    and research_codes: "tc_research_missing_fields client h fs = Inl e \<Longrightarrow> px_type e = ''RuntimeError'' \<and> codes (px_message e)"
    and design_codes: "tc_design_image_prompt client p xs k = Inl e \<Longrightarrow> px_type e = ''RuntimeError'' \<and> codes (px_message e)"
    and comfy_codes: "tc_design_comfyui_prompt client p xs = Inl e \<Longrightarrow> px_type e = ''RuntimeError'' \<and> codes (px_message e)"

definition gemini_code :: "string \<Rightarrow> bool" where
  "gemini_code s \<longleftrightarrow> s \<in> set GEMINI_OVERLOAD_ERROR_CODES \<or> starts_with ''gemini_error:'' s"

definition qwen_code :: "string \<Rightarrow> bool" where
  "qwen_code s \<longleftrightarrow> s \<in> set QWEN_OVERLOAD_ERROR_CODES \<or> starts_with ''qwen_error:'' s"

lemma gemini_sanitized_code [simp]: "gemini_code (gemini_sanitized_error e)"
  by (simp add: gemini_code_def gemini_sanitized_error_def GEMINI_OVERLOAD_ERROR_CODES_def)

lemma qwen_sanitized_code [simp]: "qwen_code (qwen_sanitized_error e)"
  by (simp add: qwen_code_def qwen_sanitized_error_def QWEN_OVERLOAD_ERROR_CODES_def)

lemma runtime_error_simps [simp]:
  "px_type (runtime_error m) = ''RuntimeError''" "px_message (runtime_error m) = m"
  by (simp_all add: runtime_error_def plain_exc_def)

lemma sanitize_Inl [simp]: "sanitize f r = Inl e \<longleftrightarrow> (\<exists>x. r = Inl x \<and> e = runtime_error (f x))"
  by (cases r) (auto simp: sanitize_def)

lemma map_sum_id_Inl [simp]: "map_sum id g r = Inl e \<longleftrightarrow> r = Inl e"
  by (cases r) auto

lemma empty_history_codes [simp]:
  "gemini_code ''gemini_error:EmptyHistory''" "qwen_code ''qwen_error:EmptyHistory''" "qwen_code ''qwen_error:NotImplemented''"
  by (simp_all add: gemini_code_def qwen_code_def)

interpretation gemini_brain: brain "gemini_text_client svc" gemini_code for svc
  by unfold_locales
    (auto simp: gemini_text_client_def gemini_complete_def gemini_route_intent_def Let_def
       gemini_research_missing_fields_def gemini_design_image_prompt_def gemini_design_comfyui_prompt_def
       split: if_splits)

interpretation qwen_brain: brain "qwen_text_client svc c" qwen_code for svc c
  by unfold_locales
    (auto simp: qwen_text_client_def qwen_complete_def qwen_route_intent_def Let_def
       qwen_research_missing_fields_def qwen_design_image_prompt_def qwen_design_comfyui_prompt_def
       split: if_splits)

end
