(* ===== verification/Image_Adapters.thy ===== *)
theory Image_Adapters
  imports Llm_Adapters Comfy_Client
begin

section \<open>The paid image providers (adapters/gemini.py, adapters/openrouter.py)\<close>

text \<open>
  Two implementations of the \<open>ComfyUIClient\<close> port that generate an image inside \<open>submit\<close> and keep
  the outcome for \<open>get_status\<close>. The provider's answer to a prompt, the prompt designer and the
  object storage's \<open>put_object\<close> are parameters; the storage may refuse a write.
\<close>

subsection \<open>The prompt\<close>

definition exact_text_block :: "string list \<Rightarrow> string" where
  "exact_text_block exact_text =
     (if exact_text = [] then []
      else newline @ newline @ ''The generated image MUST render the following text exactly as written, '' @
        ''verbatim -- do not translate, paraphrase, omit, or alter it in any way:'' @ newline @ bullets exact_text)"

text \<open>\<open>str(workflow_payload.get(k) or default)\<close>.\<close>

definition payload_text :: "(json \<Rightarrow> string) \<Rightarrow> dict \<Rightarrow> string \<Rightarrow> string \<Rightarrow> string" where
  "payload_text rp payload k default_text = py_str rp (or_default (get_json payload k) (JStr default_text))"

definition build_image_prompt :: "(json \<Rightarrow> string) \<Rightarrow> dict \<Rightarrow> exc + string" where
  "build_image_prompt rp payload =
     bind_exc (iterate_json (get_json payload ''exact_text'')) (\<lambda>items.
       Inr (py_strip (payload_text rp payload ''prompt'' []) @ exact_text_block (stripped_texts items)))"

type_synonym prompt_designer = "string \<Rightarrow> string list \<Rightarrow> string \<Rightarrow> py_exc + string"

text \<open>The designer is asked first; the verbatim block follows whatever it answers.\<close>

definition designed_prompt :: "prompt_designer option \<Rightarrow> string \<Rightarrow> string list \<Rightarrow> string \<Rightarrow> string" where
  "designed_prompt designer base_prompt exact_text design_kind =
     (case designer of
        None \<Rightarrow> base_prompt
      | Some ask \<Rightarrow>
          (case ask base_prompt exact_text design_kind of
             Inl e \<Rightarrow> base_prompt
           | Inr designed \<Rightarrow> if py_strip designed \<noteq> [] then py_strip designed else base_prompt))
     @ exact_text_block exact_text"

subsection \<open>State and port\<close>

record 's image_client =
  ic_results :: "(string \<times> comfy_status) list"
  ic_storage :: 's
  ic_fresh :: "nat \<Rightarrow> string"
  ic_used :: nat

type_synonym 's put_op = "string \<Rightarrow> string \<Rightarrow> string \<Rightarrow> 's \<Rightarrow> (py_exc + unit) \<times> 's"

definition succeeded_status :: "string \<Rightarrow> dict list \<Rightarrow> comfy_status" where
  "succeeded_status prompt_id outputs =
     \<lparr>cs_prompt_id = prompt_id, cs_state = CS_Succeeded, cs_outputs = Some outputs, cs_error = None\<rparr>"

definition output_entry :: "string \<Rightarrow> string \<Rightarrow> dict" where
  "output_entry object_key mime = [(''object_key'', JStr object_key), (''mime_type'', JStr mime)]"

definition extension_of :: "string \<Rightarrow> string" where
  "extension_of mime =
     (let e = last (py_split (CHR ''/'') mime) in
      hd (py_split (CHR ''+'') (if e \<noteq> [] then e else ''png'')))"

definition generated_key :: "string \<Rightarrow> string \<Rightarrow> string" where
  "generated_key prompt_id mime = ''generated/'' @ prompt_id @ ''.'' @ extension_of mime"

definition remember :: "string \<Rightarrow> comfy_status \<Rightarrow> 's image_client \<Rightarrow> 's image_client" where
  "remember prompt_id st c = c\<lparr>ic_results := dput prompt_id st (ic_results c)\<rparr>"

text \<open>The frame of both \<open>submit\<close>s: \<open>generate\<close> makes the image for a prompt text and stores it, or
  fails with the sanitized text of an exception.\<close>

definition image_submit ::
  "(json \<Rightarrow> string) \<Rightarrow> prompt_designer option \<Rightarrow> (string \<Rightarrow> string \<Rightarrow> 's \<Rightarrow> comfy_status \<times> 's)
     \<Rightarrow> dict \<Rightarrow> 's image_client \<Rightarrow> (exc + string) \<times> 's image_client" where
  "image_submit rp designer generate payload c =
     (let prompt_id = ic_fresh c (ic_used c); c = c\<lparr>ic_used := ic_used c + 1\<rparr>;
          base_prompt = py_strip (payload_text rp payload ''prompt'' []) in
      case iterate_json (get_json payload ''exact_text'') of
        Inl e \<Rightarrow> (Inl e, c)
      | Inr items \<Rightarrow>
          let exact_text = stripped_texts items in
          if base_prompt = [] \<and> exact_text = [] then
            (Inr prompt_id, remember prompt_id (failed_status prompt_id ''empty_prompt'') c)
          else
            (case generate prompt_id
                    (designed_prompt designer base_prompt exact_text (payload_text rp payload ''action_type'' ''poster''))
                    (ic_storage c) of
               (st, s) \<Rightarrow> (Inr prompt_id, remember prompt_id st (c\<lparr>ic_storage := s\<rparr>))))"

definition image_get_status :: "string \<Rightarrow> 's image_client \<Rightarrow> (exc + comfy_status) \<times> 's image_client" where
  "image_get_status prompt_id c =
     (case dget (ic_results c) prompt_id of
        Some cached \<Rightarrow> (Inr cached, c)
      | None \<Rightarrow> (Inr (failed_status prompt_id ''unknown_prompt_id''), c))"

definition image_cancel :: "string \<Rightarrow> 's image_client \<Rightarrow> (exc + unit) \<times> 's image_client" where
  "image_cancel prompt_id c = (Inr (), c\<lparr>ic_results := dpop prompt_id (ic_results c)\<rparr>)"

definition image_health :: "'s image_client \<Rightarrow> (exc + bool) \<times> 's image_client" where
  "image_health c = (Inr True, c)"

subsection \<open>GeminiImageComfyUIClient\<close>

text \<open>A response: for every candidate the inline data of its parts, a media type and the bytes.\<close>

type_synonym inline_data = "string option \<times> string option"
type_synonym gemini_image_service = "string \<Rightarrow> py_exc + inline_data option list list"

fun first_inline :: "inline_data option list \<Rightarrow> (string \<times> string) option" where
  "first_inline [] = None"
| "first_inline (Some (mime, Some data) # parts) =
     (if data \<noteq> [] then Some (text_or mime ''image/png'', data) else first_inline parts)"
| "first_inline (_ # parts) = first_inline parts"

definition gemini_generate_image :: "gemini_image_service \<Rightarrow> string \<Rightarrow> py_exc + (string \<times> string)" where
  "gemini_generate_image svc prompt_text =
     (case svc prompt_text of
        Inl e \<Rightarrow> Inl e
      | Inr candidates \<Rightarrow>
          (case first_inline (concat candidates) of
             Some r \<Rightarrow> Inr r
           | None \<Rightarrow> Inl (runtime_error ''gemini_no_image_in_response'')))"

definition gemini_make :: "gemini_image_service \<Rightarrow> 's put_op \<Rightarrow> string \<Rightarrow> string \<Rightarrow> 's \<Rightarrow> comfy_status \<times> 's" where
  "gemini_make svc put prompt_id prompt_text s =
     (case gemini_generate_image svc prompt_text of
        Inl e \<Rightarrow> (failed_status prompt_id (gemini_sanitized_error e), s)
      | Inr (mime, data) \<Rightarrow>
          let object_key = generated_key prompt_id mime in
          (case put object_key data mime s of
             (Inl e, s) \<Rightarrow> (failed_status prompt_id (gemini_sanitized_error e), s)
           | (Inr _, s) \<Rightarrow> (succeeded_status prompt_id [output_entry object_key mime], s)))"

definition gemini_submit ::
  "(json \<Rightarrow> string) \<Rightarrow> prompt_designer option \<Rightarrow> gemini_image_service \<Rightarrow> 's put_op \<Rightarrow> dict \<Rightarrow> string option
     \<Rightarrow> 's image_client \<Rightarrow> (exc + string) \<times> 's image_client" where
  "gemini_submit rp designer svc put payload kd c = image_submit rp designer (gemini_make svc put) payload c"

definition gemini_image_port ::
  "(json \<Rightarrow> string) \<Rightarrow> prompt_designer option \<Rightarrow> gemini_image_service \<Rightarrow> 's put_op \<Rightarrow> 's image_client comfy_client" where
  "gemini_image_port rp designer svc put =
     \<lparr>cc_submit = gemini_submit rp designer svc put, cc_get_status = image_get_status, cc_cancel = image_cancel,
      cc_health = image_health\<rparr>"

subsection \<open>OpenRouterImageComfyUIClient\<close>

definition openrouter_sanitized_error :: "py_exc \<Rightarrow> string" where
  "openrouter_sanitized_error e =
     (let status_code = px_http_status e in
      if status_code = Some 502 then ''openrouter_overloaded''
      else if status_code = Some 429 then ''openrouter_rate_limited''
      else if status_code = Some 402 then ''openrouter_insufficient_credits''
      else if status_code \<in> {Some 401, Some 403} then ''openrouter_auth_error''
      else if status_code = Some 500 then ''openrouter_upstream_error''
      else ''openrouter_error:'' @ px_type e)"

text \<open>The JSON of the answer, or what the HTTP library, \<open>raise_for_status\<close> or the decoding raises.\<close>

type_synonym openrouter_service = "string \<Rightarrow> py_exc + json"

text \<open>\<open>base64.b64decode\<close> skips what is outside its alphabet, the URL-safe letters included.\<close>

definition b64decode :: "json \<Rightarrow> exc + string" where
  "b64decode v =
     (case v of
        JStr s \<Rightarrow> (case urlsafe_b64decode (filter (\<lambda>c. c \<noteq> CHR ''-'' \<and> c \<noteq> CHR ''_'') s) of
           Some bytes \<Rightarrow> Inr bytes | None \<Rightarrow> Inl ''ValueError'')
      | _ \<Rightarrow> Inl ''TypeError'')"

text \<open>The loop over the images of the answer, with the outputs so far.\<close>

fun openrouter_store ::
  "'s put_op \<Rightarrow> string \<Rightarrow> json list \<Rightarrow> dict list \<Rightarrow> 's \<Rightarrow> (py_exc + dict list) \<times> 's" where
  "openrouter_store put prompt_id [] outputs s = (Inr outputs, s)"
| "openrouter_store put prompt_id (img # images) outputs s =
     (case method_get img ''b64_json'' of
        Inl e \<Rightarrow> (Inl (plain_exc e), s)
      | Inr b64_data \<Rightarrow>
          if \<not> truthy b64_data then openrouter_store put prompt_id images outputs s
          else
            (case (method_get img ''media_type'', method_get img ''mime_type'') of
               (Inr m1, Inr m2) \<Rightarrow>
                 (case or_default m1 (or_default m2 (JStr ''image/png'')) of
                    JStr mime \<Rightarrow>
                      (case b64decode b64_data of
                         Inl e \<Rightarrow> (Inl (plain_exc e), s)
                       | Inr raw_bytes \<Rightarrow>
                           let object_key = generated_key prompt_id mime in
                           (case put object_key raw_bytes mime s of
                              (Inl e, s) \<Rightarrow> (Inl e, s)
                            | (Inr _, s) \<Rightarrow>
                                openrouter_store put prompt_id images (outputs @ [output_entry object_key mime]) s))
                  | _ \<Rightarrow> (Inl (plain_exc ''AttributeError''), s))
             | _ \<Rightarrow> (Inl (plain_exc ''AttributeError''), s)))"

definition openrouter_make ::
  "openrouter_service \<Rightarrow> 's put_op \<Rightarrow> string \<Rightarrow> string \<Rightarrow> 's \<Rightarrow> comfy_status \<times> 's" where
  "openrouter_make svc put prompt_id prompt_text s =
     (case svc prompt_text of
        Inl e \<Rightarrow> (failed_status prompt_id (openrouter_sanitized_error e), s)
      | Inr payload \<Rightarrow>
          (case bind_exc (method_get payload ''data'') iterate_json of
             Inl e \<Rightarrow> (failed_status prompt_id (openrouter_sanitized_error (plain_exc e)), s)
           | Inr images \<Rightarrow>
               (case openrouter_store put prompt_id images [] s of
                  (Inl e, s) \<Rightarrow> (failed_status prompt_id (openrouter_sanitized_error e), s)
                | (Inr outputs, s) \<Rightarrow>
                    if outputs = [] then (failed_status prompt_id ''openrouter_no_image_in_response'', s)
                    else (succeeded_status prompt_id outputs, s))))"

definition openrouter_submit ::
  "(json \<Rightarrow> string) \<Rightarrow> prompt_designer option \<Rightarrow> openrouter_service \<Rightarrow> 's put_op \<Rightarrow> dict \<Rightarrow> string option
     \<Rightarrow> 's image_client \<Rightarrow> (exc + string) \<times> 's image_client" where
  "openrouter_submit rp designer svc put payload kd c = image_submit rp designer (openrouter_make svc put) payload c"

definition openrouter_get_status :: "string \<Rightarrow> 's image_client \<Rightarrow> (exc + comfy_status) \<times> 's image_client" where
  "openrouter_get_status prompt_id c =
     (case dget (ic_results c) prompt_id of
        Some cached \<Rightarrow> (Inr cached, c)
      | None \<Rightarrow> (Inr (failed_status prompt_id ''unknown_prompt_id''), c))"

definition openrouter_image_port ::
  "(json \<Rightarrow> string) \<Rightarrow> prompt_designer option \<Rightarrow> openrouter_service \<Rightarrow> 's put_op \<Rightarrow> 's image_client comfy_client" where
  "openrouter_image_port rp designer svc put =
     \<lparr>cc_submit = openrouter_submit rp designer svc put, cc_get_status = openrouter_get_status,
      cc_cancel = image_cancel, cc_health = image_health\<rparr>"

subsection \<open>What a storage promises\<close>

text \<open>
  The adapters rely on one thing: an object that was written is there, and a write takes nothing
  away.
\<close>

locale object_store =
  fixes put :: "'s put_op"
    and stored :: "string \<Rightarrow> 's \<Rightarrow> bool"
  assumes put_stored: "put k d ct s = (Inr u, s') \<Longrightarrow> stored k' s' \<longleftrightarrow> k' = k \<or> stored k' s"
begin

definition good_output :: "'s \<Rightarrow> dict \<Rightarrow> bool" where
  "good_output s out \<longleftrightarrow> (\<exists>k. dget out ''object_key'' = Some (JStr k) \<and> stored k s)"

lemma good_output_put: "put k d ct s = (Inr u, s') \<Longrightarrow> good_output s out \<Longrightarrow> good_output s' out"
  by (auto simp: good_output_def put_stored)

lemma good_output_new: "put k d ct s = (Inr u, s') \<Longrightarrow> good_output s' (output_entry k mime)"
  by (auto simp: good_output_def output_entry_def put_stored)

text \<open>An outcome that a client may keep: a failure with its reason, or outputs that can be fetched.\<close>

definition settled :: "string \<Rightarrow> comfy_status \<Rightarrow> 's \<Rightarrow> bool" where
  "settled prompt_id st s \<longleftrightarrow> cs_prompt_id st = prompt_id \<and>
     (cs_state st = CS_Failed \<and> cs_error st \<noteq> None \<or>
      cs_state st = CS_Succeeded \<and> (\<exists>outs. cs_outputs st = Some outs \<and> outs \<noteq> [] \<and> (\<forall>out \<in> set outs. good_output s out)))"

lemma settled_failed: "settled p (failed_status p e) s"
  by (simp add: settled_def failed_status_def)

lemma settled_succeeded: "outs \<noteq> [] \<Longrightarrow> \<forall>out \<in> set outs. good_output s out \<Longrightarrow> settled p (succeeded_status p outs) s"
  by (simp add: settled_def succeeded_status_def)

lemma gemini_make_settled: "gemini_make svc put p t s = (st, s') \<Longrightarrow> settled p st s'"
  by (auto simp: gemini_make_def Let_def settled_failed intro!: settled_succeeded
      dest: good_output_new split: sum.splits prod.splits)

lemma openrouter_store_good:
  "openrouter_store put p images outs s = (Inr outs', s') \<Longrightarrow> \<forall>out \<in> set outs. good_output s out \<Longrightarrow>
    \<forall>out \<in> set outs'. good_output s' out"
proof (induction images arbitrary: outs s)
  case (Cons img images)
  from Cons.prems(1) consider "openrouter_store put p images outs s = (Inr outs', s')"
    | k d m s1 u where "put k d m s = (Inr u, s1)" "openrouter_store put p images (outs @ [output_entry k m]) s1 = (Inr outs', s')"
    by (auto simp: Let_def split: sum.splits if_splits json.splits prod.splits)
  then show ?case
  proof cases
    case 1
    with Cons show ?thesis by blast
  next
    case 2
    then have "\<forall>out \<in> set (outs @ [output_entry k m]). good_output s1 out"
      using Cons.prems(2) good_output_put good_output_new by auto
    with 2 Cons.IH show ?thesis by blast
  qed
qed simp

lemma openrouter_make_settled: "openrouter_make svc put p t s = (st, s') \<Longrightarrow> settled p st s'"
  by (auto simp: openrouter_make_def settled_failed intro!: settled_succeeded
      dest: openrouter_store_good split: sum.splits prod.splits if_splits)

text \<open>So the first look at a submitted prompt finds a settled outcome.\<close>

lemma submit_settles:
  assumes make: "\<And>p t s st s'. generate p t s = (st, s') \<Longrightarrow> settled p st s'"
    and submit: "image_submit rp designer generate payload c = (Inr pid, c')"
  shows "\<exists>st. dget (ic_results c') pid = Some st \<and> settled pid st (ic_storage c') \<and> pid = ic_fresh c (ic_used c)"
proof -
  from submit obtain items where items: "iterate_json (get_json payload ''exact_text'') = Inr items"
    by (cases "iterate_json (get_json payload ''exact_text'')") (simp_all add: image_submit_def Let_def)
  let ?t = "designed_prompt designer (py_strip (payload_text rp payload ''prompt'' [])) (stripped_texts items)
    (payload_text rp payload ''action_type'' ''poster'')"
  obtain st s where g: "generate pid ?t (ic_storage c) = (st, s)" by (metis surj_pair)
  have pid: "pid = ic_fresh c (ic_used c)"
    using submit by (simp add: image_submit_def items Let_def split: if_splits prod.splits)
  with submit g have "c' = remember pid (failed_status pid ''empty_prompt'') (c\<lparr>ic_used := ic_used c + 1\<rparr>) \<or>
      c' = remember pid st (c\<lparr>ic_used := ic_used c + 1, ic_storage := s\<rparr>)"
    by (simp add: image_submit_def items Let_def split: if_splits)
  with make [OF g] pid show ?thesis by (auto simp: remember_def settled_failed)
qed

end

definition memory_put :: "storage put_op" where
  "memory_put k d ct st = (Inr (), put_object k d ct st)"

interpretation memory_store: object_store memory_put object_exists
  by unfold_locales (auto simp: memory_put_def put_object_def object_exists_def dmem_iff_dget)

subsection \<open>The texts that must appear\<close>

lemma sublist_within: "sublist x y \<Longrightarrow> sublist x (p @ y)" "sublist x y \<Longrightarrow> sublist x (y @ p)"
  by (auto simp: sublist_def) (metis append.assoc)+

lemma py_join_in: "x \<in> set xs \<Longrightarrow> sublist x (py_join sep xs)"
proof (induction sep xs rule: py_join.induct)
  case (3 sep x y ys)
  then show ?case by (auto intro: sublist_within)
qed simp_all

lemma exact_text_in_prompt: "t \<in> set exact_text \<Longrightarrow> sublist t (designed_prompt designer base_prompt exact_text kd)"
proof -
  assume t: "t \<in> set exact_text"
  then have "sublist (''- '' @ t) (bullets exact_text)" by (auto simp: bullets_def intro!: py_join_in)
  moreover have "sublist t (''- '' @ t)" by (rule sublist_append_leftI)
  ultimately have b: "sublist t (bullets exact_text)" by (meson sublist_order.order.trans)
  from t have "exact_text \<noteq> []" by auto
  then have "sublist t (exact_text_block exact_text)"
    by (simp only: exact_text_block_def if_False) (intro sublist_within(1) b)
  from sublist_within(1) [OF this] show ?thesis by (simp only: designed_prompt_def)
qed

text \<open>The texts of a payload that must appear in the image.\<close>

definition must_appear :: "dict \<Rightarrow> string list" where
  "must_appear payload =
     (case iterate_json (get_json payload ''exact_text'') of Inl e \<Rightarrow> [] | Inr items \<Rightarrow> stripped_texts items)"

lemma image_submit_cong:
  assumes "\<And>p t s. \<forall>x \<in> set (must_appear payload). sublist x t \<Longrightarrow> gen p t s = gen' p t s"
  shows "image_submit rp designer gen payload c = image_submit rp designer gen' payload c"
proof (cases "iterate_json (get_json payload ''exact_text'')")
  case (Inr items)
  then have "must_appear payload = stripped_texts items" by (simp add: must_appear_def)
  then have "gen p (designed_prompt designer b (stripped_texts items) k) s = gen' p (designed_prompt designer b (stripped_texts items) k) s"
    for p b k s by (intro assms) (simp add: exact_text_in_prompt)
  with Inr show ?thesis by (simp add: image_submit_def Let_def)
qed (simp add: image_submit_def Let_def)

subsection \<open>Properties\<close>

text \<open>Both image providers settle a job inside \<open>submit\<close>: whatever the provider answers or raises
  and whatever the payload holds, an accepted prompt has its final status at the first look, under
  its own id. It is a failure that carries a reason, or a success with at least one output, and
  every output's object is in the storage.\<close>

theorem submitted_image_is_settled:
  assumes "gemini_submit rp designer svc memory_put payload kd c = (Inr pid, c1)"
    and "openrouter_submit rp designer svc' memory_put payload kd c = (Inr pid', c2)"
  shows "(\<exists>st. image_get_status pid c1 = (Inr st, c1) \<and> memory_store.settled pid st (ic_storage c1)) \<and>
    (\<exists>st. openrouter_get_status pid' c2 = (Inr st, c2) \<and> memory_store.settled pid' st (ic_storage c2))"
proof (rule conjI)
  have "\<exists>st. dget (ic_results c1) pid = Some st \<and> memory_store.settled pid st (ic_storage c1) \<and> pid = ic_fresh c (ic_used c)"
    using memory_store.gemini_make_settled assms(1) unfolding gemini_submit_def by (rule memory_store.submit_settles)
  then show "\<exists>st. image_get_status pid c1 = (Inr st, c1) \<and> memory_store.settled pid st (ic_storage c1)"
    by (auto simp: image_get_status_def)
  have "\<exists>st. dget (ic_results c2) pid' = Some st \<and> memory_store.settled pid' st (ic_storage c2) \<and> pid' = ic_fresh c (ic_used c)"
    using memory_store.openrouter_make_settled assms(2) unfolding openrouter_submit_def by (rule memory_store.submit_settles)
  then show "\<exists>st. openrouter_get_status pid' c2 = (Inr st, c2) \<and> memory_store.settled pid' st (ic_storage c2)"
    by (auto simp: openrouter_get_status_def)
qed

definition new_image_client :: "storage image_client" where
  "new_image_client = \<lparr>ic_results = [], ic_storage = [], ic_fresh = (\<lambda>n. ''id'' @ nat_str n), ic_used = 0\<rparr>"

definition sale_payload :: dict where
  "sale_payload = [(''prompt'', JStr ''a sale''), (''exact_text'', JList [JStr '' 50% off '', JInt 3])]"

text \<open>A Gemini that draws, and an OpenRouter that is overloaded.\<close>

theorem submitted_image_is_settled_witness:
  "\<exists>pid c1 c2. gemini_submit (\<lambda>_. []) None (\<lambda>t. Inr [[None, Some (None, Some ''bytes'')]]) memory_put
       sale_payload None new_image_client = (Inr pid, c1) \<and>
     (\<exists>st. image_get_status pid c1 = (Inr st, c1) \<and> memory_store.settled pid st (ic_storage c1)) \<and>
     openrouter_submit (\<lambda>_. []) None (\<lambda>t. Inl ((plain_exc ''HTTPStatusError'')\<lparr>px_http_status := Some 502\<rparr>)) memory_put
       sale_payload None new_image_client = (Inr pid, c2) \<and>
     (\<exists>st. openrouter_get_status pid c2 = (Inr st, c2) \<and> memory_store.settled pid st (ic_storage c2))"
proof -
  have "fst (gemini_submit (\<lambda>_. []) None (\<lambda>t. Inr [[None, Some (None, Some ''bytes'')]]) memory_put
      sale_payload None new_image_client) = Inr ''id0''" by code_simp
  then obtain c1 where g: "gemini_submit (\<lambda>_. []) None (\<lambda>t. Inr [[None, Some (None, Some ''bytes'')]]) memory_put
      sale_payload None new_image_client = (Inr ''id0'', c1)" by (metis prod.collapse)
  have "fst (openrouter_submit (\<lambda>_. []) None (\<lambda>t. Inl ((plain_exc ''HTTPStatusError'')\<lparr>px_http_status := Some 502\<rparr>))
      memory_put sale_payload None new_image_client) = Inr ''id0''" by code_simp
  then obtain c2 where o: "openrouter_submit (\<lambda>_. []) None (\<lambda>t. Inl ((plain_exc ''HTTPStatusError'')\<lparr>px_http_status := Some 502\<rparr>))
      memory_put sale_payload None new_image_client = (Inr ''id0'', c2)" by (metis prod.collapse)
  from submitted_image_is_settled [OF g o] g o show ?thesis by blast
qed

text \<open>C25. The literal text of a poster always reaches the paid model: two providers that agree on
  the prompts containing every (stripped) \<open>exact_text\<close> of the payload cannot be told apart by a
  submission, whatever the prompt designer answers. Only such prompts are ever sent.\<close>

theorem exact_text_reaches_provider:
  assumes "\<And>t. \<forall>x \<in> set (must_appear payload). sublist x t \<Longrightarrow> svc t = svc2 t"
    and "\<And>t. \<forall>x \<in> set (must_appear payload). sublist x t \<Longrightarrow> svc' t = svc2' t"
  shows "gemini_submit rp designer svc put payload kd c = gemini_submit rp designer svc2 put payload kd c \<and>
    openrouter_submit rp designer svc' put payload kd c = openrouter_submit rp designer svc2' put payload kd c"
  unfolding gemini_submit_def openrouter_submit_def
  by (rule conjI; rule image_submit_cong, simp add: gemini_make_def gemini_generate_image_def openrouter_make_def assms)

theorem exact_text_reaches_provider_witness:
  "must_appear sale_payload = [''50% off''] \<and>
   gemini_submit (\<lambda>_. []) (Some (\<lambda>b xs k. Inr ''a nicer sale'')) (\<lambda>t. if sublist ''50% off'' t then Inl (plain_exc ''E'') else Inr [])
     memory_put sale_payload None new_image_client =
   gemini_submit (\<lambda>_. []) (Some (\<lambda>b xs k. Inr ''a nicer sale'')) (\<lambda>t. Inl (plain_exc ''E'')) memory_put
     sale_payload None new_image_client \<and>
   openrouter_submit (\<lambda>_. []) (Some (\<lambda>b xs k. Inr ''a nicer sale'')) (\<lambda>t. if sublist ''50% off'' t then Inl (plain_exc ''E'') else Inr JNull)
     memory_put sale_payload None new_image_client =
   openrouter_submit (\<lambda>_. []) (Some (\<lambda>b xs k. Inr ''a nicer sale'')) (\<lambda>t. Inl (plain_exc ''E'')) memory_put sale_payload None new_image_client"
proof -
  have m: "must_appear sale_payload = [''50% off'']" by code_simp
  note t = exact_text_reaches_provider [where payload = sale_payload]
  show ?thesis
    by (rule conjI [OF m t]) (simp_all add: m)
qed

end
