(* ===== verification/Conversations.thy ===== *)
theory Conversations
  imports Jobs_Api Llm_Adapters
begin

section \<open>Conversations and their messages (api/v1/conversations.py, domain/conversations/pagination.py)\<close>

text \<open>
  The two tables behind a chat and the endpoints over them. A handler runs against the database
  of the moment and returns it; \<open>append_message\<close> is the one that is not atomic: its lookup of the
  client's message id sees an earlier database (\<open>seen\<close>) than its locked insert (\<open>db\<close>), so that
  every interleaving of concurrent appends is a choice of \<open>seen\<close>. The id and the time of a new row
  are arguments. A user is known by the id that \<open>get_current_user\<close> established.
\<close>

subsection \<open>Tables\<close>

record conversation =
  cv_id :: uuid
  cv_user_id :: uuid
  cv_title :: string
  cv_status :: string
  cv_external_ref :: "string option"
  cv_created_at :: time
  cv_updated_at :: time
  cv_deleted_at :: "time option"

record chat_message =
  cm_id :: uuid
  cm_conversation_id :: uuid
  cm_role :: string
  cm_sequence_no :: int
  cm_client_message_id :: "string option"
  cm_content :: dict
  cm_status :: string
  cm_created_at :: time

record chat_db =
  cd_conversations :: "conversation list"
  cd_messages :: "chat_message list"

definition conversation_by_id :: "uuid \<Rightarrow> chat_db \<Rightarrow> conversation option" where
  "conversation_by_id i db = find (\<lambda>c. cv_id c = i) (cd_conversations db)"

definition messages_of :: "uuid \<Rightarrow> chat_db \<Rightarrow> chat_message list" where
  "messages_of conv db = sort_key cm_sequence_no (filter (\<lambda>m. cm_conversation_id m = conv) (cd_messages db))"

definition client_message :: "uuid \<Rightarrow> string \<Rightarrow> chat_db \<Rightarrow> chat_message option" where
  "client_message conv k db =
     find (\<lambda>m. cm_conversation_id m = conv \<and> cm_client_message_id m = Some k) (cd_messages db)"

subsection \<open>Cursors\<close>

record cursor =
  cu_sort_key :: json
  cu_id :: json

datatype cursor_error = InvalidCursorError

text \<open>\<open>fp\<close> is the interpreter's text of a float.\<close>

definition cursor_encode :: "(pyfloat \<Rightarrow> string) \<Rightarrow> cursor \<Rightarrow> string" where
  "cursor_encode fp c = urlsafe_b64encode (json_text fp (JObj [(''k'', cu_sort_key c), (''id'', cu_id c)]))"

definition cursor_decode :: "string \<Rightarrow> cursor_error + cursor" where
  "cursor_decode token =
     (case urlsafe_b64decode token of
        None \<Rightarrow> Inl InvalidCursorError
      | Some raw \<Rightarrow>
          (case json_loads raw of
             None \<Rightarrow> Inl InvalidCursorError
           | Some data \<Rightarrow>
               (case (index_key data ''k'', index_key data ''id'') of
                  (Inr k, Inr i) \<Rightarrow> Inr \<lparr>cu_sort_key = k, cu_id = i\<rparr>
                | _ \<Rightarrow> Inl InvalidCursorError)))"

subsection \<open>Conversations\<close>

record conversation_out =
  vo_id :: string
  vo_title :: string
  vo_status :: string
  vo_created_at :: time
  vo_updated_at :: time

definition conversation_out_of :: "conversation \<Rightarrow> conversation_out" where
  "conversation_out_of c = \<lparr>vo_id = uuid_text (cv_id c), vo_title = cv_title c, vo_status = cv_status c,
     vo_created_at = cv_created_at c, vo_updated_at = cv_updated_at c\<rparr>"

definition create_conversation ::
  "uuid \<Rightarrow> time \<Rightarrow> string option \<Rightarrow> uuid \<Rightarrow> chat_db \<Rightarrow> conversation_out \<times> chat_db" where
  "create_conversation new_id now title user db =
     (let conv = \<lparr>cv_id = new_id, cv_user_id = user, cv_title = text_or title ''New conversation'',
            cv_status = ''active'', cv_external_ref = None, cv_created_at = now, cv_updated_at = now,
            cv_deleted_at = None\<rparr>
      in (conversation_out_of conv, db\<lparr>cd_conversations := cd_conversations db @ [conv]\<rparr>))"

definition list_conversations :: "uuid \<Rightarrow> chat_db \<Rightarrow> conversation_out list" where
  "list_conversations user db =
     map conversation_out_of
       (sort_key (\<lambda>c. - cv_updated_at c)
          (filter (\<lambda>c. cv_user_id c = user \<and> cv_deleted_at c = None) (cd_conversations db)))"

definition get_owned_conversation :: "chat_db \<Rightarrow> string \<Rightarrow> uuid \<Rightarrow> http_error + conversation" where
  "get_owned_conversation db conversation_id user =
     (case parse_uuid conversation_id of
        None \<Rightarrow> Inl not_found
      | Some conv_uuid \<Rightarrow>
          (case conversation_by_id conv_uuid db of
             None \<Rightarrow> Inl not_found
           | Some conv \<Rightarrow>
               if cv_deleted_at conv \<noteq> None then Inl not_found
               else (case assert_owner (uuid_text (cv_user_id conv)) (uuid_text user) of
                  Inl NotOwnerError \<Rightarrow> Inl not_found
                | Inr _ \<Rightarrow> Inr conv)))"

definition get_conversation :: "string \<Rightarrow> uuid \<Rightarrow> chat_db \<Rightarrow> http_error + conversation_out" where
  "get_conversation conversation_id user db = map_sum id conversation_out_of (get_owned_conversation db conversation_id user)"

definition set_conversation :: "uuid \<Rightarrow> (conversation \<Rightarrow> conversation) \<Rightarrow> chat_db \<Rightarrow> chat_db" where
  "set_conversation i f db =
     db\<lparr>cd_conversations := map (\<lambda>c. if cv_id c = i then f c else c) (cd_conversations db)\<rparr>"

definition delete_conversation :: "time \<Rightarrow> string \<Rightarrow> uuid \<Rightarrow> chat_db \<Rightarrow> (http_error + unit) \<times> chat_db" where
  "delete_conversation now conversation_id user db =
     (case get_owned_conversation db conversation_id user of
        Inl e \<Rightarrow> (Inl e, db)
      | Inr conv \<Rightarrow>
          (Inr (), set_conversation (cv_id conv)
             (\<lambda>c. c\<lparr>cv_deleted_at := Some now, cv_status := ''deleted'', cv_updated_at := now\<rparr>) db))"

subsection \<open>Appending a message\<close>

record message_out =
  mo_id :: string
  mo_role :: string
  mo_sequence_no :: int
  mo_content :: dict
  mo_status :: string
  mo_created_at :: time

definition message_out_of :: "chat_message \<Rightarrow> message_out" where
  "message_out_of m = \<lparr>mo_id = uuid_text (cm_id m), mo_role = cm_role m, mo_sequence_no = cm_sequence_no m,
     mo_content = cm_content m, mo_status = cm_status m, mo_created_at = cm_created_at m\<rparr>"

definition ALLOWED_ROLES :: "string list" where
  "ALLOWED_ROLES = [''user'', ''assistant'', ''system'', ''tool'']"

text \<open>\<open>coalesce(max(sequence_no), 0) + 1\<close>.\<close>

definition next_sequence_no :: "uuid \<Rightarrow> chat_db \<Rightarrow> int" where
  "next_sequence_no conv db =
     (let ns = map cm_sequence_no (filter (\<lambda>m. cm_conversation_id m = conv) (cd_messages db))
      in (case ns of [] \<Rightarrow> 0 | n # ns \<Rightarrow> fold max ns n) + 1)"

text \<open>The two unique indexes of \<open>chat_messages\<close>: the sequence number, and the client id if it is set
  (an empty text is a value like any other).\<close>

definition violates_unique :: "chat_message \<Rightarrow> chat_db \<Rightarrow> bool" where
  "violates_unique m db \<longleftrightarrow>
     (\<exists>x \<in> set (cd_messages db). cm_conversation_id x = cm_conversation_id m \<and>
        (cm_sequence_no x = cm_sequence_no m \<or>
         cm_client_message_id m \<noteq> None \<and> cm_client_message_id x = cm_client_message_id m))"

definition find_replay :: "uuid \<Rightarrow> string option \<Rightarrow> chat_db \<Rightarrow> chat_message option" where
  "find_replay conv client_message_id db =
     (case client_message_id of
        Some k \<Rightarrow> if k \<noteq> [] then client_message conv k db else None
      | None \<Rightarrow> None)"

definition append_message ::
  "chat_db \<Rightarrow> uuid \<Rightarrow> time \<Rightarrow> uuid \<Rightarrow> string \<Rightarrow> dict \<Rightarrow> string option \<Rightarrow> chat_db \<Rightarrow> (http_error + chat_message) \<times> chat_db"
where
  "append_message seen new_id now conv role content client_message_id db =
     (case find_replay conv client_message_id seen of
        Some existing \<Rightarrow> (Inr existing, db)
      | None \<Rightarrow>
          let message = \<lparr>cm_id = new_id, cm_conversation_id = conv, cm_role = role,
                cm_sequence_no = next_sequence_no conv db, cm_client_message_id = client_message_id,
                cm_content = content, cm_status = ''complete'', cm_created_at = now\<rparr>
          in if violates_unique message db then
               (case find_replay conv client_message_id db of
                  Some existing \<Rightarrow> (Inr existing, db)
                | None \<Rightarrow> (Inl (http 409 ''message conflict''), db))
             else (Inr message,
                   set_conversation conv (\<lambda>c. c\<lparr>cv_updated_at := now\<rparr>)
                     (db\<lparr>cd_messages := cd_messages db @ [message]\<rparr>)))"

definition create_message ::
  "chat_db \<Rightarrow> uuid \<Rightarrow> time \<Rightarrow> string \<Rightarrow> uuid \<Rightarrow> string \<Rightarrow> dict \<Rightarrow> string option \<Rightarrow> chat_db
     \<Rightarrow> (http_error + message_out) \<times> chat_db"
where
  "create_message seen new_id now conversation_id user role content client_message_id db =
     (if role \<notin> set ALLOWED_ROLES then (Inl (http 400 ''invalid role''), db)
      else case get_owned_conversation seen conversation_id user of
        Inl e \<Rightarrow> (Inl e, db)
      | Inr conv \<Rightarrow>
          (case append_message seen new_id now (cv_id conv) role content client_message_id db of
             (r, db) \<Rightarrow> (map_sum id message_out_of r, db)))"

subsection \<open>Listing messages\<close>

record message_page =
  mp_items :: "message_out list"
  mp_next_cursor :: "string option"

definition DEFAULT_PAGE_SIZE :: int where
  "DEFAULT_PAGE_SIZE = 20"

definition MAX_PAGE_SIZE :: int where
  "MAX_PAGE_SIZE = 100"

text \<open>\<open>int(x)\<close> of the sort key of a cursor: nothing catches what it raises. That a number beyond
  \<open>bigint\<close> is no parameter of the statement is the database's and not modelled.\<close>

definition cursor_position :: "cursor \<Rightarrow> exc + int" where
  "cursor_position c =
     (case py_int (cu_sort_key c) of Conv i \<Rightarrow> Inr i | Overflows \<Rightarrow> Inl ''OverflowError''
      | BadValue \<Rightarrow> (case cu_sort_key c of
           JNull \<Rightarrow> Inl ''TypeError'' | JList xs \<Rightarrow> Inl ''TypeError'' | JObj d \<Rightarrow> Inl ''TypeError''
         | _ \<Rightarrow> Inl ''ValueError''))"

text \<open>The statement with its condition \<open>sequence_no > after\<close>, if there is a cursor.\<close>

definition page_of :: "(pyfloat \<Rightarrow> string) \<Rightarrow> uuid \<Rightarrow> int option \<Rightarrow> int \<Rightarrow> chat_db \<Rightarrow> message_page" where
  "page_of fp conv after limit db =
     (let rows = take (nat (limit + 1))
            (filter (\<lambda>m. case after of Some n \<Rightarrow> n < cm_sequence_no m | None \<Rightarrow> True) (messages_of conv db));
          has_more = limit < int (length rows);
          rows = take (nat limit) rows
      in \<lparr>mp_items = map message_out_of rows,
          mp_next_cursor = (if has_more \<and> rows \<noteq> []
            then Some (cursor_encode fp \<lparr>cu_sort_key = JInt (cm_sequence_no (last rows)),
                         cu_id = JStr (uuid_text (cm_id (last rows)))\<rparr>) else None)\<rparr>)"

definition list_messages ::
  "(pyfloat \<Rightarrow> string) \<Rightarrow> string \<Rightarrow> string option \<Rightarrow> int \<Rightarrow> uuid \<Rightarrow> chat_db \<Rightarrow> http_error + message_page" where
  "list_messages fp conversation_id cursor limit user db =
     (if \<not> (0 < limit \<and> limit \<le> MAX_PAGE_SIZE) then Inl (http 422 ''limit'')
      else case get_owned_conversation db conversation_id user of
        Inl e \<Rightarrow> Inl e
      | Inr conv \<Rightarrow>
          (case cursor of
             None \<Rightarrow> Inr (page_of fp (cv_id conv) None limit db)
           | Some token \<Rightarrow>
               if token = [] then Inr (page_of fp (cv_id conv) None limit db)
               else (case cursor_decode token of
                  Inl InvalidCursorError \<Rightarrow> Inl (http 400 ''invalid cursor'')
                | Inr decoded \<Rightarrow>
                    (case cursor_position decoded of
                       Inl e \<Rightarrow> Inl (unhandled e)
                     | Inr n \<Rightarrow> Inr (page_of fp (cv_id conv) (Some n) limit db)))))"

subsection \<open>A reply of the assistant\<close>

text \<open>\<open>str(m.content.get("text", ""))\<close>; \<open>rp\<close> is the interpreter's \<open>str\<close> of other objects.\<close>

definition message_text :: "(json \<Rightarrow> string) \<Rightarrow> chat_message \<Rightarrow> string" where
  "message_text rp m = py_str rp (case dget (cm_content m) ''text'' of Some v \<Rightarrow> v | None \<Rightarrow> JStr [])"

definition load_history :: "(json \<Rightarrow> string) \<Rightarrow> uuid \<Rightarrow> chat_db \<Rightarrow> chat_history" where
  "load_history rp conv db =
     map (\<lambda>m. (cm_role m, message_text rp m))
       (filter (\<lambda>m. cm_role m \<in> {''user'', ''assistant''}) (messages_of conv db))"

definition OVERLOAD_REASONS :: "string list" where
  "OVERLOAD_REASONS = GEMINI_OVERLOAD_ERROR_CODES @ QWEN_OVERLOAD_ERROR_CODES"

text \<open>\<open>str(exc) if isinstance(exc, RuntimeError) else ""\<close>.\<close>

definition sanitized_code :: "py_exc \<Rightarrow> string" where
  "sanitized_code e = (if px_type e = ''RuntimeError'' then px_message e else [])"

definition create_assistant_reply ::
  "(json \<Rightarrow> string) \<Rightarrow> text_client option \<Rightarrow> chat_db \<Rightarrow> uuid \<Rightarrow> time \<Rightarrow> string \<Rightarrow> uuid \<Rightarrow> chat_db
     \<Rightarrow> (http_error + message_out) \<times> chat_db"
where
  "create_assistant_reply rp gemini seen new_id now conversation_id user db =
     (case gemini of
        None \<Rightarrow> (Inl (http 503 ''chat completion is not configured (APP_GEMINI_API_KEY unset)''), db)
      | Some client \<Rightarrow>
          (case get_owned_conversation seen conversation_id user of
             Inl e \<Rightarrow> (Inl e, db)
           | Inr conv \<Rightarrow>
               let history = load_history rp (cv_id conv) seen in
               if history = [] then (Inl (http 400 ''conversation has no messages to reply to''), db)
               else (case tc_complete client history of
                  Inl e \<Rightarrow>
                    (if sanitized_code e \<in> set OVERLOAD_REASONS then (Inl (http 503 (sanitized_code e)), db)
                     else (Inl (http 502 ''chat_completion_failed''), db))
                | Inr reply_text \<Rightarrow>
                    (case append_message seen new_id now (cv_id conv) ''assistant'' [(''text'', JStr reply_text)] None db of
                       (r, db) \<Rightarrow> (map_sum id message_out_of r, db)))))"

subsection \<open>The log of a conversation\<close>

text \<open>
  Any sequence of the operations that write, in any interleaving: a \<open>seen\<close> is arbitrary, that of
  an append that decided long ago included.
\<close>

inductive log_step :: "chat_db \<Rightarrow> chat_db \<Rightarrow> bool" where
  Append: "append_message seen i now conv role content k db = (r, db') \<Longrightarrow> log_step db db'"
| Create: "create_conversation i now title user db = (out, db') \<Longrightarrow> log_step db db'"
| Delete: "delete_conversation now conversation_id user db = (r, db') \<Longrightarrow> log_step db db'"

abbreviation log_run :: "chat_db \<Rightarrow> chat_db \<Rightarrow> bool" where
  "log_run \<equiv> log_step\<^sup>*\<^sup>*"

definition in_conv :: "uuid \<Rightarrow> chat_message list \<Rightarrow> chat_message list" where
  "in_conv conv ms = filter (\<lambda>m. cm_conversation_id m = conv) ms"

lemma in_conv_simps [simp]:
  "in_conv conv [] = []"
  "in_conv conv (m # ms) = (if cm_conversation_id m = conv then m # in_conv conv ms else in_conv conv ms)"
  "in_conv conv (ms @ ns) = in_conv conv ms @ in_conv conv ns"
  by (simp_all add: in_conv_def)

text \<open>Every conversation numbers its messages 1, 2, 3, ... and knows a client id only once.\<close>

definition log_ok :: "chat_db \<Rightarrow> bool" where
  "log_ok db \<longleftrightarrow> (\<forall>conv. map cm_sequence_no (in_conv conv (cd_messages db)) =
        map int [1..<Suc (length (in_conv conv (cd_messages db)))]) \<and>
     (\<forall>conv. distinct (map cm_client_message_id (filter (\<lambda>m. cm_client_message_id m \<noteq> None) (in_conv conv (cd_messages db)))))"

lemma messages_of_log: "log_ok db \<Longrightarrow> messages_of conv db = in_conv conv (cd_messages db)"
proof -
  assume "log_ok db"
  then have "map cm_sequence_no (in_conv conv (cd_messages db)) = map int [1..<Suc (length (in_conv conv (cd_messages db)))]"
    by (simp add: log_ok_def)
  then have "sorted (map cm_sequence_no (in_conv conv (cd_messages db)))"
    by (simp only: sorted_map sorted_wrt_map) (rule sorted_wrt_mono_rel [OF _ sorted_wrt_upt], simp)
  then show ?thesis by (simp add: messages_of_def in_conv_def sort_key_id_if_sorted)
qed

lemma fold_max_upt: "a \<le> b \<Longrightarrow> fold max (map int [Suc a..<Suc b]) (int a) = int b"
  by (induction b) (auto simp: le_Suc_eq)

lemma next_sequence_log: "log_ok db \<Longrightarrow> next_sequence_no conv db = int (length (in_conv conv (cd_messages db))) + 1"
proof -
  assume "log_ok db"
  then have m: "map cm_sequence_no (in_conv conv (cd_messages db)) = map int [1..<Suc (length (in_conv conv (cd_messages db)))]"
    by (simp add: log_ok_def)
  show ?thesis
  proof (cases "length (in_conv conv (cd_messages db))")
    case (Suc n)
    then have "map cm_sequence_no (in_conv conv (cd_messages db)) = int 1 # map int [Suc 1..<Suc (Suc n)]"
      using upt_conv_Cons [of 1 "Suc (Suc n)"] by (simp add: m Suc del: upt_Suc)
    then show ?thesis
      using fold_max_upt [of 1 "Suc n"] Suc by (simp add: next_sequence_no_def Let_def flip: in_conv_def del: upt_Suc)
  qed (simp add: next_sequence_no_def flip: in_conv_def)
qed

text \<open>What an append does to the log: nothing, or one more message.\<close>

lemma append_cases:
  assumes "append_message seen i now conv role content k db = (r, db')"
  obtains "db' = db"
  | m where "r = Inr m" "cd_messages db' = cd_messages db @ [m]" "\<not> violates_unique m db"
      "cm_conversation_id m = conv" "cm_client_message_id m = k" "cm_sequence_no m = next_sequence_no conv db"
  using assms by (auto simp: append_message_def Let_def set_conversation_def split: option.splits if_splits)

lemma log_step_messages:
  "log_step db db' \<Longrightarrow> cd_messages db' = cd_messages db \<or>
    (\<exists>m. cd_messages db' = cd_messages db @ [m] \<and> \<not> violates_unique m db \<and>
       cm_sequence_no m = next_sequence_no (cm_conversation_id m) db)"
proof (induction rule: log_step.induct)
  case (Append seen i now conv role content k db r db')
  then show ?case by (rule append_cases) auto
qed (auto simp: create_conversation_def delete_conversation_def set_conversation_def Let_def split: sum.splits)

lemma log_ok_init: "cd_messages db = [] \<Longrightarrow> log_ok db"
  by (simp add: log_ok_def)

lemma log_step_ok: "log_step db db' \<Longrightarrow> log_ok db \<Longrightarrow> log_ok db'"
proof (drule log_step_messages, elim disjE exE conjE)
  fix m
  assume ok: "log_ok db" and app: "cd_messages db' = cd_messages db @ [m]" and new: "\<not> violates_unique m db"
    and seq: "cm_sequence_no m = next_sequence_no (cm_conversation_id m) db"
  have "cm_client_message_id m \<noteq> None \<Longrightarrow> cm_client_message_id m \<notin> cm_client_message_id ` set (in_conv (cm_conversation_id m) (cd_messages db))"
    using new by (auto simp: violates_unique_def in_conv_def)
  with ok app next_sequence_log [OF ok] seq show "log_ok db'"
    unfolding log_ok_def by auto (metis imageI)
qed (simp add: log_ok_def)

lemma log_run_ok: "log_run db db' \<Longrightarrow> log_ok db \<Longrightarrow> log_ok db'"
  by (induction rule: rtranclp_induct) (auto intro: log_step_ok)

lemma log_run_messages: "log_run db db' \<Longrightarrow> \<exists>ms. cd_messages db' = cd_messages db @ ms"
proof (induction rule: rtranclp_induct)
  case (step y z)
  with log_step_messages [OF step(2)] show ?case by auto
qed simp

text \<open>The message of a client id, if there is one, stays the same one.\<close>

lemma client_message_found:
  assumes "log_ok db" "m \<in> set (cd_messages db)" "cm_client_message_id m = Some k"
  shows "client_message (cm_conversation_id m) k db = Some m"
proof -
  let ?l = "filter (\<lambda>m. cm_client_message_id m \<noteq> None) (in_conv (cm_conversation_id m) (cd_messages db))"
  obtain m' where m': "client_message (cm_conversation_id m) k db = Some m'"
    using assms by (cases "client_message (cm_conversation_id m) k db") (auto simp: client_message_def find_None_iff)
  then have "m' \<in> set ?l" "cm_client_message_id m' = Some k"
    unfolding client_message_def using find_in by (fastforce simp: in_conv_def)+
  moreover have "m \<in> set ?l" using assms by (simp add: in_conv_def)
  moreover have "distinct (map cm_client_message_id ?l)" using assms(1) by (simp add: log_ok_def)
  ultimately have "m' = m" using assms(3) by (metis distinct_map inj_on_def)
  with m' show ?thesis by simp
qed

lemma find_replay_in:
  "find_replay conv k db = Some m \<Longrightarrow> m \<in> set (cd_messages db) \<and> cm_conversation_id m = conv \<and> cm_client_message_id m = k \<and> k \<noteq> Some []"
  by (auto simp: find_replay_def client_message_def split: option.splits if_splits dest!: find_in)

lemma append_result:
  assumes "append_message seen i now conv role content (Some k) db = (Inr m, db')" and "k \<noteq> []" and "log_run seen db"
  shows "m \<in> set (cd_messages db') \<and> cm_conversation_id m = conv \<and> cm_client_message_id m = Some k"
proof -
  from log_run_messages [OF assms(3)] have sub: "set (cd_messages seen) \<subseteq> set (cd_messages db)" by auto
  show ?thesis
    using assms(1) sub
    by (auto simp: append_message_def Let_def set_conversation_def split: option.splits if_splits dest!: find_replay_in)
qed

subsection \<open>Following the cursors\<close>

lemma cursor_round_trip [simp]:
  "cursor_decode (cursor_encode fp \<lparr>cu_sort_key = JInt n, cu_id = JStr i\<rparr>) = Inr \<lparr>cu_sort_key = JInt n, cu_id = JStr i\<rparr>"
proof -
  have "json_loads (json_text fp (JObj [(''k'', JInt n), (''id'', JStr i)])) = Some (JObj [(''k'', JInt n), (''id'', JStr i)])"
    by (rule json_loads_text) simp
  then show ?thesis by (simp add: cursor_decode_def cursor_encode_def index_key_def del: json_text.simps)
qed

lemma cursor_encode_nonempty [simp]: "cursor_encode fp c \<noteq> []"
proof -
  have "urlsafe_b64encode s = [] \<Longrightarrow> s = []" for s
    by (metis list.map_disc_iff b64encode.elims list.distinct(1) append_is_Nil_conv urlsafe_b64encode_def)
  then show ?thesis by (auto simp: cursor_encode_def)
qed

text \<open>A client that reads on: one request per database, each with the cursor of the page before.\<close>

fun follow ::
  "(pyfloat \<Rightarrow> string) \<Rightarrow> string \<Rightarrow> int \<Rightarrow> uuid \<Rightarrow> string option \<Rightarrow> chat_db list \<Rightarrow> (http_error + message_page) list"
where
  "follow fp cid limit user token [] = []"
| "follow fp cid limit user token (db # dbs) =
     (case list_messages fp cid token limit user db of
        Inl e \<Rightarrow> [Inl e]
      | Inr p \<Rightarrow> Inr p # (case mp_next_cursor p of None \<Rightarrow> [] | Some t \<Rightarrow> follow fp cid limit user (Some t) dbs))"

fun growing :: "chat_db list \<Rightarrow> bool" where
  "growing (db # db' # dbs) \<longleftrightarrow> log_run db db' \<and> growing (db' # dbs)"
| "growing dbs \<longleftrightarrow> True"

lemma after_log:
  assumes "log_ok db"
  shows "filter (\<lambda>m. int k < cm_sequence_no m) (in_conv conv (cd_messages db)) = drop k (in_conv conv (cd_messages db))"
proof -
  let ?M = "in_conv conv (cd_messages db)"
  have n: "cm_sequence_no (?M ! i) = int (Suc i)" if "i < length ?M" for i
  proof -
    have "map cm_sequence_no ?M ! i = map int [1..<Suc (length ?M)] ! i" using assms by (simp add: log_ok_def)
    with that show ?thesis by (simp del: upt_Suc)
  qed
  have "\<forall>m \<in> set (take k ?M). \<not> int k < cm_sequence_no m" "\<forall>m \<in> set (drop k ?M). int k < cm_sequence_no m"
    by (auto simp: in_set_conv_nth n)
  then have "filter (\<lambda>m. int k < cm_sequence_no m) (take k ?M @ drop k ?M) = drop k ?M"
    by (simp only: filter_append filter_True filter_False append_Nil)
  then show ?thesis by simp
qed

text \<open>The page after the first \<open>k\<close> messages.\<close>

lemma page_after:
  assumes "log_ok db" "0 < limit" "after = Some (int k) \<or> after = None \<and> k = 0"
  shows "mp_items (page_of fp conv after limit db) = map message_out_of (take (nat limit) (drop k (messages_of conv db)))"
    and "mp_next_cursor (page_of fp conv after limit db) =
      (if k + nat limit < length (messages_of conv db)
       then Some (cursor_encode fp \<lparr>cu_sort_key = JInt (int (k + nat limit)),
              cu_id = JStr (uuid_text (cm_id (messages_of conv db ! (k + nat limit - 1))))\<rparr>) else None)"
proof -
  let ?M = "in_conv conv (cd_messages db)" and ?l = "nat limit"
  have f: "filter (\<lambda>m. case after of None \<Rightarrow> True | Some n \<Rightarrow> n < cm_sequence_no m) ?M = drop k ?M"
    using assms(3) after_log [OF assms(1)] by auto
  have l: "nat (limit + 1) = Suc ?l" "0 < ?l" using assms(2) by auto
  have t: "take ?l (take (Suc ?l) (drop k ?M)) = take ?l (drop k ?M)" by (simp add: min_def)
  show "mp_items (page_of fp conv after limit db) = map message_out_of (take ?l (drop k (messages_of conv db)))"
    by (simp only: page_of_def Let_def messages_of_log [OF assms(1)] f l t message_page.simps)
  have more: "limit < int (length (take (Suc ?l) (drop k ?M))) \<longleftrightarrow> k + ?l < length ?M" using assms(2) by auto
  have last: "last (take ?l (drop k ?M)) = ?M ! (k + ?l - 1)" "take ?l (drop k ?M) \<noteq> []" if "k + ?l < length ?M"
    using that l(2) by (auto simp: last_conv_nth min_def)
  have "cm_sequence_no (?M ! (k + ?l - 1)) = int (k + ?l)" if "k + ?l < length ?M"
  proof -
    have "map cm_sequence_no ?M ! (k + ?l - 1) = map int [1..<Suc (length ?M)] ! (k + ?l - 1)"
      using assms(1) by (simp add: log_ok_def)
    with that l(2) show ?thesis by (simp del: upt_Suc)
  qed
  with last show "mp_next_cursor (page_of fp conv after limit db) =
      (if k + ?l < length (messages_of conv db)
       then Some (cursor_encode fp \<lparr>cu_sort_key = JInt (int (k + ?l)),
              cu_id = JStr (uuid_text (cm_id (messages_of conv db ! (k + ?l - 1))))\<rparr>) else None)"
    by (simp only: page_of_def Let_def messages_of_log [OF assms(1)] f l t more message_page.simps) auto
qed

lemma messages_grow: "log_ok db \<Longrightarrow> log_run db db' \<Longrightarrow> \<exists>ms. messages_of conv db' = messages_of conv db @ ms"
  using log_run_messages [of db db'] log_run_ok [of db db'] by (auto simp: messages_of_log)

lemma growing_nth: "growing (db # dbs) \<Longrightarrow> j < length (db # dbs) \<Longrightarrow> log_run db ((db # dbs) ! j)"
proof (induction dbs arbitrary: db j)
  case (Cons db' dbs)
  then show ?case by (cases j) (auto intro: rtranclp_trans)
qed simp

lemma get_owned_conversation_iff: "get_owned_conversation db conversation_id user = Inr c \<longleftrightarrow>
    (\<exists>i. parse_uuid conversation_id = Some i \<and> conversation_by_id i db = Some c \<and> cv_deleted_at c = None \<and>
       uuid_text (cv_user_id c) = uuid_text user)"
  by (auto simp: get_owned_conversation_def assert_owner_def split: option.splits)

lemma get_owned_conversation_id:
  "get_owned_conversation db conversation_id user = Inr c \<Longrightarrow> parse_uuid conversation_id = Some conv \<Longrightarrow> cv_id c = conv"
  by (auto simp: get_owned_conversation_iff conversation_by_id_def dest: find_in)

text \<open>A token that stands after the first \<open>k\<close> messages.\<close>

definition token_at :: "(pyfloat \<Rightarrow> string) \<Rightarrow> string option \<Rightarrow> nat \<Rightarrow> bool" where
  "token_at fp token k \<longleftrightarrow> token = None \<and> k = 0 \<or>
     (\<exists>i. token = Some (cursor_encode fp \<lparr>cu_sort_key = JInt (int k), cu_id = JStr i\<rparr>))"

lemma list_messages_at:
  assumes "token_at fp token k" "0 < limit" "limit \<le> 100" "parse_uuid cid = Some conv" "get_owned_conversation db cid user = Inr c"
  shows "\<exists>after. (after = Some (int k) \<or> after = None \<and> k = 0) \<and>
    list_messages fp cid token limit user db = Inr (page_of fp conv after limit db)"
  using assms get_owned_conversation_id [OF assms(5,4)]
  by (auto simp: list_messages_def MAX_PAGE_SIZE_def token_at_def cursor_position_def)

lemma follow_from:
  assumes "growing (db # dbs)" "log_ok db" "0 < limit" "limit \<le> 100" "parse_uuid cid = Some conv"
    "\<forall>d \<in> set (db # dbs). \<exists>c. get_owned_conversation d cid user = Inr c" "token_at fp token k"
  shows "\<exists>pages. follow fp cid limit user token (db # dbs) = map Inr pages \<and> pages \<noteq> [] \<and>
    length pages \<le> length (db # dbs) \<and>
    concat (map mp_items pages) =
      map message_out_of (take (length (db # dbs) * nat limit) (drop k (messages_of conv ((db # dbs) ! (length pages - 1)))))"
  using assms
proof (induction dbs arbitrary: db token k)
  case Nil
  from Nil.prems obtain c where "get_owned_conversation db cid user = Inr c" by auto
  from list_messages_at [OF Nil.prems(7,3,4,5) this] obtain after where a: "after = Some (int k) \<or> after = None \<and> k = 0"
    "list_messages fp cid token limit user db = Inr (page_of fp conv after limit db)" by blast
  then show ?case
    by (intro exI [of _ "[page_of fp conv after limit db]"])
      (simp add: page_after [OF Nil.prems(2,3)] split: option.split)
next
  case (Cons db' dbs)
  let ?l = "nat limit" and ?M = "messages_of conv"
  from Cons.prems obtain c where "get_owned_conversation db cid user = Inr c" by auto
  from list_messages_at [OF Cons.prems(7,3,4,5) this] obtain after where a: "after = Some (int k) \<or> after = None \<and> k = 0"
    and p: "list_messages fp cid token limit user db = Inr (page_of fp conv after limit db)" by blast
  note page = page_after [OF Cons.prems(2,3) a, of fp conv]
  show ?case
  proof (cases "k + ?l < length (?M db)")
    case False
    then have "take (length (db # db' # dbs) * ?l) (drop k (?M db)) = take ?l (drop k (?M db))" by simp
    with False p page show ?thesis by (intro exI [of _ "[page_of fp conv after limit db]"]) simp
  next
    case True
    let ?t = "cursor_encode fp \<lparr>cu_sort_key = JInt (int (k + ?l)), cu_id = JStr (uuid_text (cm_id (?M db ! (k + ?l - 1))))\<rparr>"
    have "token_at fp (Some ?t) (k + ?l)" by (auto simp: token_at_def)
    moreover have "log_ok db'" "growing (db' # dbs)" using Cons.prems(1,2) log_run_ok by auto
    moreover have "\<forall>d \<in> set (db' # dbs). \<exists>c. get_owned_conversation d cid user = Inr c" using Cons.prems(6) by simp
    ultimately obtain pages where ps: "follow fp cid limit user (Some ?t) (db' # dbs) = map Inr pages" "pages \<noteq> []"
      "length pages \<le> length (db' # dbs)"
      "concat (map mp_items pages) =
        map message_out_of (take (length (db' # dbs) * ?l) (drop (k + ?l) (?M ((db' # dbs) ! (length pages - 1)))))"
      using Cons.IH [OF _ _ Cons.prems(3-5)] by blast
    let ?d = "(db' # dbs) ! (length pages - 1)"
    have d: "(db # db' # dbs) ! (length (page_of fp conv after limit db # pages) - 1) = ?d" using ps(2) by (cases pages) auto
    have "log_run db ?d"
      using growing_nth [OF Cons.prems(1), of "length pages"] ps(2,3) by (cases pages) auto
    with Cons.prems(2) messages_grow obtain ms where "?M ?d = ?M db @ ms" by blast
    with True have "take ?l (drop k (?M db)) = take ?l (drop k (?M ?d))" by simp
    moreover have "take (length (db # db' # dbs) * ?l) (drop k (?M ?d)) =
        take ?l (drop k (?M ?d)) @ take (length (db' # dbs) * ?l) (drop (k + ?l) (?M ?d))"
      by (simp add: take_add add.commute)
    ultimately have "concat (map mp_items (page_of fp conv after limit db # pages)) =
        map message_out_of (take (length (db # db' # dbs) * ?l) (drop k (?M ?d)))"
      by (simp only: list.map concat.simps page(1) ps(4) map_append [symmetric])
    with True p page(2) ps d show ?thesis
      by (intro exI [of _ "page_of fp conv after limit db # pages"]) simp
  qed
qed

subsection \<open>What the lookup and the index do not share\<close>

text \<open>An empty client id is not looked up but is unique: its second message is refused for ever.\<close>

lemma empty_client_id_conflicts:
  assumes "m \<in> set (cd_messages db)" "cm_conversation_id m = conv" "cm_client_message_id m = Some []"
  shows "append_message seen i now conv role content (Some []) db = (Inl (http 409 ''message conflict''), db)"
  using assms by (auto simp: append_message_def find_replay_def violates_unique_def Let_def)

text \<open>A cursor that decodes but does not hold a number is not a bad request but an error of the server.\<close>

lemma textual_cursor_unhandled:
  assumes "get_owned_conversation db cid user = Inr c"
  shows "list_messages fp cid (Some (cursor_encode fp \<lparr>cu_sort_key = JStr ''last'', cu_id = JStr i\<rparr>)) 20 user db =
    Inl (unhandled ''ValueError'')"
proof -
  have "json_loads (json_text fp (JObj [(''k'', JStr ''last''), (''id'', JStr i)])) = Some (JObj [(''k'', JStr ''last''), (''id'', JStr i)])"
    by (rule json_loads_text) simp
  then have d: "cursor_decode (cursor_encode fp \<lparr>cu_sort_key = JStr ''last'', cu_id = JStr i\<rparr>) =
      Inr \<lparr>cu_sort_key = JStr ''last'', cu_id = JStr i\<rparr>"
    by (simp add: cursor_decode_def cursor_encode_def index_key_def del: json_text.simps)
  have p: "py_int (JStr ''last'') = BadValue" by code_simp
  then have "cursor_position \<lparr>cu_sort_key = JStr ''last'', cu_id = JStr i\<rparr> = Inl ''ValueError''"
    by (simp only: cursor_position_def cursor.simps) simp
  with d assms show ?thesis
    by (simp add: list_messages_def MAX_PAGE_SIZE_def)
qed

subsection \<open>Properties\<close>

text \<open>C26. Concurrent writers cannot damage a conversation: starting without messages, after any
  interleaving of appends (each with a lookup of the client id as old as one likes), creations and
  deletions, the messages of every conversation are numbered 1, 2, 3, ... without a gap, in the order
  they are listed, and no client id occurs twice.\<close>

theorem message_log_invariant:
  assumes "cd_messages db0 = []" and "log_run db0 db"
  shows "map cm_sequence_no (messages_of conv db) = map int [1..<Suc (length (messages_of conv db))] \<and>
    distinct (map cm_client_message_id (filter (\<lambda>m. cm_client_message_id m \<noteq> None) (messages_of conv db)))"
proof -
  have ok: "log_ok db" using log_run_ok [OF assms(2)] log_ok_init [OF assms(1)] by simp
  show ?thesis using ok unfolding messages_of_log [OF ok] by (simp add: log_ok_def del: upt_Suc)
qed

definition empty_chat :: chat_db where
  "empty_chat = snd (create_conversation 5 0 None 7 \<lparr>cd_conversations = [], cd_messages = []\<rparr>)"

definition first_append :: chat_db where
  "first_append = snd (append_message empty_chat 11 1 5 ''user'' [] (Some ''a'') empty_chat)"

definition second_append :: chat_db where
  "second_append = snd (append_message empty_chat 12 2 5 ''user'' [] (Some ''b'') first_append)"

lemma small_chat_runs: "log_run empty_chat first_append" "log_run first_append second_append" "cd_messages empty_chat = []"
  unfolding first_append_def second_append_def
  by (auto intro!: r_into_rtranclp log_step.Append surjective_pairing simp: empty_chat_def create_conversation_def Let_def)

lemma small_chat_messages: "map cm_sequence_no (messages_of 5 second_append) = [1, 2]"
  by code_simp

theorem message_log_invariant_witness:
  "map cm_sequence_no (messages_of 5 second_append) = map int [1..<3] \<and>
   distinct (map cm_client_message_id (filter (\<lambda>m. cm_client_message_id m \<noteq> None) (messages_of 5 second_append)))"
proof -
  have "length (messages_of 5 second_append) = 2" using arg_cong [OF small_chat_messages, of length] by simp
  with message_log_invariant [OF small_chat_runs(3) rtranclp_trans [OF small_chat_runs(1,2)], of 5]
  show ?thesis by simp
qed

text \<open>A message is stored once, however often its client sends it: once an append under a
  non-empty client id has answered with a message, every later append under that id, with any role
  and content, and even one that looked the id up before the message existed, answers with the same
  message and leaves the database as it is.\<close>

theorem append_is_idempotent:
  assumes "cd_messages db0 = []" and "log_run db0 db" and "log_run seen db"
    and "append_message seen i now conv role content (Some k) db = (Inr m, db1)" and "k \<noteq> []"
    and "log_run db1 db2" and "log_run seen2 db2"
  shows "append_message seen2 i2 now2 conv role2 content2 (Some k) db2 = (Inr m, db2)"
proof -
  have ok: "log_ok db2"
    using log_run_ok [OF assms(6)] log_step_ok [OF log_step.Append [OF assms(4)]] log_run_ok [OF assms(2)]
      log_ok_init [OF assms(1)] by simp
  have m: "m \<in> set (cd_messages db2)" "cm_conversation_id m = conv" "cm_client_message_id m = Some k"
    using append_result [OF assms(4,5,3)] log_run_messages [OF assms(6)] by auto
  then have found: "find_replay conv (Some k) db2 = Some m"
    using client_message_found [OF ok m(1,3)] assms(5) by (simp add: find_replay_def)
  show ?thesis
  proof (cases "find_replay conv (Some k) seen2")
    case (Some m')
    then have "m' \<in> set (cd_messages db2)" "cm_conversation_id m' = conv" "cm_client_message_id m' = Some k"
      using log_run_messages [OF assms(7)] by (auto dest: find_replay_in)
    with client_message_found [OF ok this(1,3)] client_message_found [OF ok m(1,3)] m(2) have "m' = m" by simp
    with Some show ?thesis by (simp add: append_message_def)
  next
    case None
    have "violates_unique x db2" if "cm_conversation_id x = conv" "cm_client_message_id x = Some k" for x
      using that m by (auto simp: violates_unique_def)
    with None found show ?thesis by (simp add: append_message_def Let_def)
  qed
qed

theorem append_is_idempotent_witness:
  "\<exists>m. append_message empty_chat 11 1 5 ''user'' [] (Some ''a'') empty_chat = (Inr m, first_append) \<and>
     append_message empty_chat 13 3 5 ''user'' [(''text'', JStr ''again'')] (Some ''a'') second_append = (Inr m, second_append)"
proof -
  have "isl (fst (append_message empty_chat 11 1 5 ''user'' [] (Some ''a'') empty_chat)) = False" by code_simp
  then obtain m where m: "append_message empty_chat 11 1 5 ''user'' [] (Some ''a'') empty_chat = (Inr m, first_append)"
    unfolding first_append_def by (metis prod.collapse sum.collapse(2))
  from append_is_idempotent [OF small_chat_runs(3) rtranclp.rtrancl_refl rtranclp.rtrancl_refl m _ small_chat_runs(2)
      rtranclp_trans [OF small_chat_runs(1,2)]] m
  show ?thesis by blast
qed

text \<open>C27. Reading a conversation page by page is exact although others keep writing: a client that
  asks as often as there are databases in \<open>dbs\<close>, each time with the cursor of the page before, gets no
  error and, over all its pages together, the first \<open>n * limit\<close> messages of the conversation as it is
  at the last request made, in order, none missing and none twice; it stops early only when that is
  all of them.\<close>

theorem pagination_is_exact:
  assumes "cd_messages db0 = []" and "log_run db0 db" and "growing (db # dbs)"
    and "0 < limit" "limit \<le> 100" and "parse_uuid cid = Some conv"
    and "\<forall>d \<in> set (db # dbs). \<exists>c. get_owned_conversation d cid user = Inr c"
  shows "\<exists>pages. follow fp cid limit user None (db # dbs) = map Inr pages \<and> pages \<noteq> [] \<and>
    length pages \<le> length (db # dbs) \<and>
    concat (map mp_items pages) = map message_out_of
      (take (length (db # dbs) * nat limit) (messages_of conv ((db # dbs) ! (length pages - 1))))"
proof -
  have "log_ok db" using log_run_ok [OF assms(2)] log_ok_init [OF assms(1)] by simp
  moreover have "token_at fp None 0" by (simp add: token_at_def)
  ultimately show ?thesis using follow_from [OF assms(3) _ assms(4-7)] by (metis drop0)
qed

theorem pagination_is_exact_witness:
  "\<exists>pages. follow (\<lambda>_. []) (uuid_text 5) 1 7 None [first_append, second_append] = map Inr pages \<and> pages \<noteq> [] \<and>
    length pages \<le> 2 \<and> concat (map mp_items pages) = map message_out_of
      (take 2 (messages_of 5 ([first_append, second_append] ! (length pages - 1))))"
proof -
  have "\<forall>d \<in> set [first_append, second_append]. \<exists>c. get_owned_conversation d (uuid_text 5) 7 = Inr c"
  proof -
    have "\<not> isl (get_owned_conversation first_append (uuid_text 5) 7)" "\<not> isl (get_owned_conversation second_append (uuid_text 5) 7)"
      by code_simp+
    then show ?thesis by (auto simp: isl_def) (metis sum.exhaust)+
  qed
  moreover have "parse_uuid (uuid_text 5) = Some 5" by simp
  moreover have "growing [first_append, second_append]" using small_chat_runs(2) by simp
  ultimately have "\<exists>pages. follow (\<lambda>_. []) (uuid_text 5) 1 7 None [first_append, second_append] = map Inr pages \<and> pages \<noteq> [] \<and>
    length pages \<le> length [first_append, second_append] \<and> concat (map mp_items pages) = map message_out_of
      (take (length [first_append, second_append] * nat 1) (messages_of 5 ([first_append, second_append] ! (length pages - 1))))"
    by (intro pagination_is_exact [OF small_chat_runs(3,1)]) simp_all
  moreover have "length [first_append, second_append] = 2" "(2 :: nat) * nat 1 = 2" by simp_all
  ultimately show ?thesis by (simp only:)
qed

end
