(* ===== verification/Pending_Actions.thy ===== *)
theory Pending_Actions
  imports Conversations Generations_Api Chat_Routing
begin

section \<open>Paid actions that wait for a confirmation (domain/chat/pending_actions.py, api/v1/chat_router.py)\<close>

text \<open>
  The table of pending actions, the pure rules of confirmation and cancellation, and the two
  endpoints. \<open>confirm_pending_action\<close> is not atomic: it decides on a row it has read earlier
  (\<open>seen\<close>), claims the row with a conditional update that is committed by itself, admits the job,
  and writes the job's id in a second transaction. \<open>claim_action\<close> and \<open>record_job\<close> are the two
  transactions.
\<close>

subsection \<open>The table\<close>

record pending_action =
  pa_id :: uuid
  pa_user_id :: uuid
  pa_conversation_id :: uuid
  pa_action_type :: string
  pa_billing_category :: string
  pa_normalized_params :: dict
  pa_params_fingerprint :: string
  pa_status :: string
  pa_expires_at :: time
  pa_created_at :: time
  pa_consumed_at :: "time option"
  pa_resulting_job_id :: "string option"

type_synonym pending_db = "pending_action list"

definition action_by_id :: "uuid \<Rightarrow> pending_db \<Rightarrow> pending_action option" where
  "action_by_id i db = find (\<lambda>a. pa_id a = i) db"

subsection \<open>The rules\<close>

datatype confirm_outcome =
    Outcome_OK
  | Outcome_NOT_FOUND
  | Outcome_WRONG_OWNER
  | Outcome_ALREADY_CONFIRMED
  | Outcome_CANCELLED
  | Outcome_EXPIRED
  | Outcome_PARAMS_CHANGED

record pending_snapshot =
  ps_id :: string
  ps_user_id :: string
  ps_conversation_id :: string
  ps_status :: string
  ps_expires_at :: time
  ps_params_fingerprint :: string
  ps_resulting_job_id :: "string option"

definition evaluate_confirmation ::
  "pending_snapshot option \<Rightarrow> string \<Rightarrow> time \<Rightarrow> string option \<Rightarrow> confirm_outcome" where
  "evaluate_confirmation snapshot requesting_user_id now expected_params_fingerprint =
     (case snapshot of
        None \<Rightarrow> Outcome_NOT_FOUND
      | Some s \<Rightarrow>
          if ps_user_id s \<noteq> requesting_user_id then Outcome_WRONG_OWNER
          else if ps_status s = ''cancelled'' then Outcome_CANCELLED
          else if ps_status s = ''confirmed'' then Outcome_ALREADY_CONFIRMED
          else if ps_status s = ''expired'' \<or> ps_expires_at s \<le> now then Outcome_EXPIRED
          else if expected_params_fingerprint \<noteq> None \<and> expected_params_fingerprint \<noteq> Some (ps_params_fingerprint s)
            then Outcome_PARAMS_CHANGED
          else Outcome_OK)"

definition evaluate_cancellation :: "pending_snapshot option \<Rightarrow> string \<Rightarrow> confirm_outcome" where
  "evaluate_cancellation snapshot requesting_user_id =
     (case snapshot of
        None \<Rightarrow> Outcome_NOT_FOUND
      | Some s \<Rightarrow>
          if ps_user_id s \<noteq> requesting_user_id then Outcome_WRONG_OWNER
          else if ps_status s = ''confirmed'' then Outcome_ALREADY_CONFIRMED
          else Outcome_OK)"

definition snapshot_of :: "pending_action \<Rightarrow> pending_snapshot" where
  "snapshot_of row =
     \<lparr>ps_id = uuid_text (pa_id row), ps_user_id = uuid_text (pa_user_id row),
      ps_conversation_id = uuid_text (pa_conversation_id row), ps_status = pa_status row,
      ps_expires_at = pa_expires_at row, ps_params_fingerprint = pa_params_fingerprint row,
      ps_resulting_job_id = pa_resulting_job_id row\<rparr>"

definition get_pending_action :: "string \<Rightarrow> pending_db \<Rightarrow> pending_action option" where
  "get_pending_action pending_action_id db =
     (case parse_uuid pending_action_id of None \<Rightarrow> None | Some i \<Rightarrow> action_by_id i db)"

subsection \<open>Answers\<close>

record pending_action_out =
  po_id :: string
  po_action_type :: string
  po_billing_category :: string
  po_normalized_prompt :: string
  po_exact_text :: json
  po_status :: string
  po_expires_at :: time

record smart_message_out =
  so_type :: string
  so_user_message :: message_out
  so_assistant_message :: "message_out option"
  so_job :: "generation_out option"
  so_pending_action :: "pending_action_out option"

definition pending_action_out_of :: "(json \<Rightarrow> string) \<Rightarrow> pending_action \<Rightarrow> pending_action_out" where
  "pending_action_out_of rp pa =
     \<lparr>po_id = uuid_text (pa_id pa), po_action_type = pa_action_type pa, po_billing_category = pa_billing_category pa,
      po_normalized_prompt = py_str rp (case dget (pa_normalized_params pa) ''prompt'' of Some v \<Rightarrow> v | None \<Rightarrow> JStr []),
      po_exact_text = (case dget (pa_normalized_params pa) ''exact_text'' of Some v \<Rightarrow> v | None \<Rightarrow> JList []),
      po_status = pa_status pa, po_expires_at = pa_expires_at pa\<rparr>"

definition WORKFLOW_FOR_ACTION_TYPE :: "(string \<times> string) list" where
  "WORKFLOW_FOR_ACTION_TYPE = [(''poster'', ''poster_infographic''), (''infographic'', ''poster_infographic'')]"

text \<open>The table's check constraint leaves no other action type.\<close>

definition workflow_for :: "string \<Rightarrow> string" where
  "workflow_for action_type = the (dget WORKFLOW_FOR_ACTION_TYPE action_type)"

definition CONFIRM_ERROR_STATUS :: "confirm_outcome \<Rightarrow> int" where
  "CONFIRM_ERROR_STATUS x =
     (case x of Outcome_NOT_FOUND \<Rightarrow> 404 | Outcome_WRONG_OWNER \<Rightarrow> 404 | Outcome_CANCELLED \<Rightarrow> 409
      | Outcome_EXPIRED \<Rightarrow> 410 | Outcome_ALREADY_CONFIRMED \<Rightarrow> 409 | Outcome_PARAMS_CHANGED \<Rightarrow> 409 | Outcome_OK \<Rightarrow> 500)"

definition CONFIRM_ERROR_DETAIL :: "confirm_outcome \<Rightarrow> string" where
  "CONFIRM_ERROR_DETAIL x =
     (case x of Outcome_NOT_FOUND \<Rightarrow> ''pending action not found'' | Outcome_WRONG_OWNER \<Rightarrow> ''pending action not found''
      | Outcome_CANCELLED \<Rightarrow> ''pending action was cancelled''
      | Outcome_EXPIRED \<Rightarrow> ''pending action expired -- ask again to create a new one''
      | Outcome_ALREADY_CONFIRMED \<Rightarrow> ''pending action already confirmed''
      | Outcome_PARAMS_CHANGED \<Rightarrow> ''pending action parameters changed -- ask again''
      | Outcome_OK \<Rightarrow> [])"

text \<open>The answer's message: a confirmation has none of its own.\<close>

definition confirm_message :: "pending_action \<Rightarrow> message_out" where
  "confirm_message row = \<lparr>mo_id = uuid_text (pa_id row), mo_role = ''system'', mo_sequence_no = 0, mo_content = [],
     mo_status = ''complete'', mo_created_at = pa_created_at row\<rparr>"

definition job_answer :: "(json \<Rightarrow> string) \<Rightarrow> pending_action \<Rightarrow> generation_out \<Rightarrow> smart_message_out" where
  "job_answer rp row job = \<lparr>so_type = ''image_job'', so_user_message = confirm_message row, so_assistant_message = None,
     so_job = Some job, so_pending_action = Some (pending_action_out_of rp row)\<rparr>"

definition replayed_job :: "string \<Rightarrow> string \<Rightarrow> generation_out" where
  "replayed_job job_id kd = \<lparr>go_id = job_id, go_state = Queued, go_kind = kd, go_error_code = None,
     go_error_detail = None, go_queue_position = None, go_estimated_wait_seconds = None, go_is_preview = False\<rparr>"

definition replay_answer :: "(json \<Rightarrow> string) \<Rightarrow> pending_action \<Rightarrow> string \<Rightarrow> smart_message_out" where
  "replay_answer rp row job_id = job_answer rp row (replayed_job job_id (workflow_for (pa_action_type row)))"

text \<open>\<open>GenerationOut\<close> of an admission, as the chat endpoints build it.\<close>

definition chat_job :: "admission_result \<Rightarrow> generation_out" where
  "chat_job r = (generation_out_of r)\<lparr>go_is_preview := False\<rparr>"

text \<open>The \<open>except\<close> clauses of the chat endpoints around an admission.\<close>

definition chat_admission_http :: "string \<Rightarrow> admission_error \<Rightarrow> http_error" where
  "chat_admission_http detail e =
     (case e of
        Adm_CapacityExceeded reason retry_after_s \<Rightarrow> \<lparr>he_status = 429, he_detail = reason, he_retry_after = Some retry_after_s\<rparr>
      | Adm_Unhandled x \<Rightarrow> admission_http e
      | Adm_Queue x \<Rightarrow> admission_http e
      | _ \<Rightarrow> http 500 detail)"

subsection \<open>The endpoints\<close>

definition set_action :: "uuid \<Rightarrow> (pending_action \<Rightarrow> pending_action) \<Rightarrow> pending_db \<Rightarrow> pending_db" where
  "set_action i f db = map (\<lambda>a. if pa_id a = i then f a else a) db"

text \<open>\<open>UPDATE ... WHERE id = .. AND status = 'pending' AND expires_at > now\<close>: whether a row matched.\<close>

definition claim_action :: "time \<Rightarrow> uuid \<Rightarrow> pending_db \<Rightarrow> bool \<times> pending_db" where
  "claim_action now i db =
     (let hit = (\<lambda>a. pa_id a = i \<and> pa_status a = ''pending'' \<and> now < pa_expires_at a)
      in (length (filter hit db) = 1,
          map (\<lambda>a. if hit a then a\<lparr>pa_status := ''confirmed'', pa_consumed_at := Some now\<rparr> else a) db))"

definition record_job :: "uuid \<Rightarrow> string \<Rightarrow> pending_db \<Rightarrow> pending_db" where
  "record_job i job_id db = set_action i (\<lambda>a. a\<lparr>pa_resulting_job_id := Some job_id\<rparr>) db"

definition confirm_inputs :: "pending_action \<Rightarrow> dict" where
  "confirm_inputs row =
     [(''prompt'', (case dget (pa_normalized_params row) ''prompt'' of Some v \<Rightarrow> v | None \<Rightarrow> JStr [])),
      (''exact_text'', (case dget (pa_normalized_params row) ''exact_text'' of Some v \<Rightarrow> v | None \<Rightarrow> JList [])),
      (''action_type'', JStr (pa_action_type row))]"

definition confirm_key :: "uuid \<Rightarrow> string" where
  "confirm_key i = ''pending-action-'' @ uuid_text i"

definition stored_job :: "pending_action \<Rightarrow> string option" where
  "stored_job row = (case pa_resulting_job_id row of Some j \<Rightarrow> if j \<noteq> [] then Some j else None | None \<Rightarrow> None)"

definition confirm_pending_action ::
  "py_env \<Rightarrow> 'q job_queue_port \<Rightarrow> settings \<Rightarrow> time \<Rightarrow> uuid \<Rightarrow> string \<Rightarrow> uuid \<Rightarrow> pending_db \<Rightarrow> pending_db \<Rightarrow> 'q
     \<Rightarrow> (http_error + smart_message_out) \<times> pending_db \<times> 'q"
where
  "confirm_pending_action E P s now new_id pending_action_id user seen db q =
     (let row = get_pending_action pending_action_id seen;
          result = evaluate_confirmation (map_option snapshot_of row) (uuid_text user) now None;
          refuse = (Inl (http (CONFIRM_ERROR_STATUS result) (CONFIRM_ERROR_DETAIL result)), db, q)
      in case row of
           None \<Rightarrow> refuse
         | Some row \<Rightarrow>
             if result = Outcome_ALREADY_CONFIRMED \<and> stored_job row \<noteq> None then
               (Inr (replay_answer (py_repr E) row (the (stored_job row))), db, q)
             else if result \<noteq> Outcome_OK then refuse
             else case claim_action now (pa_id row) db of
                 (False, db) \<Rightarrow>
                   (case action_by_id (pa_id row) db of
                      None \<Rightarrow> (Inl (unhandled ''InvalidRequestError''), db, q)
                    | Some fresh \<Rightarrow>
                        if pa_status fresh = ''confirmed'' \<and> stored_job fresh \<noteq> None then
                          (Inr (replay_answer (py_repr E) fresh (the (stored_job fresh))), db, q)
                        else (Inl (http 409 ''pending action already being processed''), db, q))
               | (True, db) \<Rightarrow>
                   (case admit_generation_job E P s now new_id user (workflow_for (pa_action_type row)) ''v1''
                           (confirm_inputs row) (confirm_key (pa_id row)) (Some (pa_conversation_id row)) q of
                      Inl e \<Rightarrow> (Inl (chat_admission_http ''failed to start generation'' e), db, q)
                    | Inr (admission, q) \<Rightarrow>
                        let job_id = uuid_text (ar_id admission);
                            row = row\<lparr>pa_status := ''confirmed'', pa_consumed_at := Some now,
                                      pa_resulting_job_id := Some job_id\<rparr>
                        in (Inr (job_answer (py_repr E) row (chat_job admission)), record_job (pa_id row) job_id db, q)))"

definition cancel_pending_action ::
  "(json \<Rightarrow> string) \<Rightarrow> string \<Rightarrow> uuid \<Rightarrow> pending_db \<Rightarrow> pending_db \<Rightarrow> (http_error + pending_action_out) \<times> pending_db"
where
  "cancel_pending_action rp pending_action_id user seen db =
     (let row = get_pending_action pending_action_id seen;
          result = evaluate_cancellation (map_option snapshot_of row) (uuid_text user)
      in case row of
           None \<Rightarrow> (Inl (http 404 ''pending action not found''), db)
         | Some row \<Rightarrow>
             if result = Outcome_NOT_FOUND \<or> result = Outcome_WRONG_OWNER then
               (Inl (http 404 ''pending action not found''), db)
             else if result = Outcome_ALREADY_CONFIRMED then
               (Inl (http 409 ''pending action already confirmed, cannot cancel''), db)
             else if pa_status row = ''pending'' then
               (let db = map (\<lambda>a. if pa_id a = pa_id row \<and> pa_status a = ''pending'' then a\<lparr>pa_status := ''cancelled''\<rparr> else a) db
                in case action_by_id (pa_id row) db of
                     None \<Rightarrow> (Inl (unhandled ''InvalidRequestError''), db)
                   | Some fresh \<Rightarrow> (Inr (pending_action_out_of rp fresh), db))
             else (Inr (pending_action_out_of rp row), db))"

subsection \<open>How a row can change\<close>

text \<open>
  What may happen to the table: whole requests, with rows read at any time before, and claims whose
  request has not got further (its admission failed, its process died, or it still runs).
\<close>

inductive action_step :: "'q job_queue_port \<Rightarrow> pending_db \<Rightarrow> pending_db \<Rightarrow> bool" for P where
  Confirm: "confirm_pending_action E P s now new_id pid user seen db q = (r, db', q') \<Longrightarrow> action_step P db db'"
| Claim: "claim_action now i db = (b, db') \<Longrightarrow> action_step P db db'"
| Cancel: "cancel_pending_action rp pid user seen db = (out, db') \<Longrightarrow> action_step P db db'"

abbreviation action_run :: "'q job_queue_port \<Rightarrow> pending_db \<Rightarrow> pending_db \<Rightarrow> bool" where
  "action_run P \<equiv> (action_step P)\<^sup>*\<^sup>*"

definition evolves :: "pending_action \<Rightarrow> pending_action \<Rightarrow> bool" where
  "evolves a b \<longleftrightarrow> pa_id b = pa_id a \<and> pa_user_id b = pa_user_id a \<and> pa_action_type b = pa_action_type a \<and>
     (pa_status a \<noteq> ''pending'' \<longrightarrow> b = a)"

definition evolve_db :: "pending_db \<Rightarrow> pending_db \<Rightarrow> bool" where
  "evolve_db db db' \<longleftrightarrow> (\<exists>f. db' = map f db \<and> (\<forall>a \<in> set db. evolves a (f a)))"

lemma evolves_refl [simp]: "evolves a a"
  by (simp add: evolves_def)

lemma evolve_db_map: "(\<And>a. a \<in> set db \<Longrightarrow> evolves a (f a)) \<Longrightarrow> evolve_db db (map f db)"
  by (auto simp: evolve_db_def)

lemma evolve_db_refl [simp]: "evolve_db db db"
  using evolve_db_map [of db id] by simp

lemma evolve_db_trans: "evolve_db a b \<Longrightarrow> evolve_db b c \<Longrightarrow> evolve_db a c"
  unfolding evolve_db_def
proof (elim exE conjE)
  fix f g
  assume "b = map f a" "\<forall>x \<in> set a. evolves x (f x)" "c = map g b" "\<forall>x \<in> set b. evolves x (g x)"
  then show "\<exists>h. c = map h a \<and> (\<forall>x \<in> set a. evolves x (h x))"
    by (intro exI [of _ "g \<circ> f"]) (auto simp: evolves_def)
qed

lemma evolve_db_ids: "evolve_db db db' \<Longrightarrow> map pa_id db' = map pa_id db"
  by (auto simp: evolve_db_def evolves_def)

lemma evolve_db_row:
  assumes "evolve_db db db'" "action_by_id i db = Some a"
  shows "\<exists>b. action_by_id i db' = Some b \<and> evolves a b"
proof -
  from assms(1) obtain f where f: "db' = map f db" "\<forall>a \<in> set db. evolves a (f a)" by (auto simp: evolve_db_def)
  have "find (\<lambda>a. pa_id a = i) (map f xs) = map_option f (find (\<lambda>a. pa_id a = i) xs)" if "set xs \<subseteq> set db" for xs
    using that f(2) by (induction xs) (auto simp: evolves_def)
  with f assms(2) show ?thesis by (auto simp: action_by_id_def dest: find_in)
qed

lemma claim_evolves: "claim_action now i db = (b, db') \<Longrightarrow> evolve_db db db'"
  by (auto simp: claim_action_def Let_def evolves_def intro!: evolve_db_map)

text \<open>What a claim that finds the row does with it.\<close>

definition claimed_row :: "time \<Rightarrow> pending_action \<Rightarrow> pending_action" where
  "claimed_row now a = a\<lparr>pa_status := ''confirmed'', pa_consumed_at := Some now\<rparr>"

lemma distinct_map_eq: "distinct (map f xs) \<Longrightarrow> x \<in> set xs \<Longrightarrow> y \<in> set xs \<Longrightarrow> f x = f y \<Longrightarrow> x = y"
  by (auto simp: distinct_map dest: inj_onD)

lemma filter_only: "distinct xs \<Longrightarrow> x \<in> set xs \<Longrightarrow> p x \<Longrightarrow> (\<And>y. y \<in> set xs \<Longrightarrow> p y \<Longrightarrow> y = x) \<Longrightarrow> filter p xs = [x]"
proof -
  assume a: "distinct xs" "x \<in> set xs" "p x" "\<And>y. y \<in> set xs \<Longrightarrow> p y \<Longrightarrow> y = x"
  have s: "set (filter p xs) = {x}" unfolding set_filter using a(2-4) by blast
  then have "length (filter p xs) = 1" using distinct_card [of "filter p xs"] a(1) by simp
  then obtain y where "filter p xs = [y]" by (metis One_nat_def length_0_conv length_Suc_conv)
  with s show ?thesis by simp
qed

lemma claim_found:
  assumes "distinct (map pa_id db)" "action_by_id i db = Some a"
  shows "claim_action now i db =
    (if pa_status a = ''pending'' \<and> now < pa_expires_at a then (True, set_action i (claimed_row now) db) else (False, db))"
proof -
  have a: "a \<in> set db" "pa_id a = i" using find_in [OF assms(2) [unfolded action_by_id_def]] by auto
  have only: "b = a" if "b \<in> set db" "pa_id b = i" for b
    using distinct_map_eq [OF assms(1) that(1) a(1)] that(2) a(2) by simp
  have "filter (\<lambda>b. pa_id b = i) db = [a]"
  proof (rule filter_only)
    show "distinct db" using assms(1) by (simp only: distinct_map)
  qed (fact a(1), fact a(2), rule only)
  moreover have "filter (\<lambda>b. pa_id b = i \<and> pa_status b = ''pending'' \<and> now < pa_expires_at b) db =
      filter (\<lambda>b. pa_status b = ''pending'' \<and> now < pa_expires_at b) (filter (\<lambda>b. pa_id b = i) db)"
    by (simp only: filter_filter)
  ultimately have len: "length (filter (\<lambda>b. pa_id b = i \<and> pa_status b = ''pending'' \<and> now < pa_expires_at b) db) = 1 \<longleftrightarrow>
      pa_status a = ''pending'' \<and> now < pa_expires_at a" by simp
  have "map (\<lambda>b. if pa_id b = i \<and> pa_status b = ''pending'' \<and> now < pa_expires_at b
        then b\<lparr>pa_status := ''confirmed'', pa_consumed_at := Some now\<rparr> else b) db =
      (if pa_status a = ''pending'' \<and> now < pa_expires_at a then set_action i (claimed_row now) db else db)"
  proof -
    have pt: "(if pa_id b = i \<and> pa_status b = ''pending'' \<and> now < pa_expires_at b
          then b\<lparr>pa_status := ''confirmed'', pa_consumed_at := Some now\<rparr> else b) =
        (if pa_status a = ''pending'' \<and> now < pa_expires_at a then if pa_id b = i then claimed_row now b else b else b)"
      if "b \<in> set db" for b
      using only [OF that] a(2) by (cases "pa_id b = i") (simp_all add: claimed_row_def)
    show ?thesis
    proof (cases "pa_status a = ''pending'' \<and> now < pa_expires_at a")
      case False
      then show ?thesis by (simp only: if_False) (intro map_idI, simp only: pt if_False)
    qed (simp add: set_action_def pt cong: map_cong)
  qed
  with len show ?thesis by (simp add: claim_action_def Let_def)
qed

lemma claim_cases:
  assumes "distinct (map pa_id db)" "claim_action now i db = (b, db')"
  shows "\<not> b \<and> db' = db \<or> b \<and> db' = set_action i (claimed_row now) db \<and>
    (\<exists>a. action_by_id i db = Some a \<and> pa_status a = ''pending'' \<and> now < pa_expires_at a)"
proof (cases "action_by_id i db")
  case None
  then have "\<forall>a \<in> set db. pa_id a \<noteq> i" by (simp add: action_by_id_def find_None_iff)
  then have "filter (\<lambda>a. pa_id a = i \<and> pa_status a = ''pending'' \<and> now < pa_expires_at a) db = []"
    by (simp add: filter_empty_conv)
  moreover from \<open>\<forall>a \<in> set db. pa_id a \<noteq> i\<close> have "map (\<lambda>a. if pa_id a = i \<and> pa_status a = ''pending'' \<and> now < pa_expires_at a
      then a\<lparr>pa_status := ''confirmed'', pa_consumed_at := Some now\<rparr> else a) db = db"
    by (intro map_idI) simp
  ultimately show ?thesis using assms(2) by (simp add: claim_action_def Let_def)
next
  case (Some a)
  with claim_found [OF assms(1) Some, of now] assms(2) show ?thesis by (simp split: if_splits)
qed

lemma set_action_row: "(\<And>a. pa_id (f a) = pa_id a) \<Longrightarrow> action_by_id i (set_action i f db) = map_option f (action_by_id i db)"
  by (induction db) (auto simp: action_by_id_def set_action_def)

lemma get_pending_action_id: "get_pending_action pid db = Some row \<Longrightarrow> parse_uuid pid = Some (pa_id row) \<and> action_by_id (pa_id row) db = Some row"
  by (auto simp: get_pending_action_def action_by_id_def split: option.splits dest: find_in)

text \<open>Which branch a confirmation takes, once its row is known.\<close>

lemma confirm_row:
  assumes "get_pending_action pid seen = Some row"
  shows "confirm_pending_action E P s now nid pid user seen db q =
    (let result = evaluate_confirmation (Some (snapshot_of row)) (uuid_text user) now None in
     if result = Outcome_ALREADY_CONFIRMED \<and> stored_job row \<noteq> None then
       (Inr (replay_answer (py_repr E) row (the (stored_job row))), db, q)
     else if result \<noteq> Outcome_OK then (Inl (http (CONFIRM_ERROR_STATUS result) (CONFIRM_ERROR_DETAIL result)), db, q)
     else case claim_action now (pa_id row) db of
         (False, db) \<Rightarrow>
           (case action_by_id (pa_id row) db of
              None \<Rightarrow> (Inl (unhandled ''InvalidRequestError''), db, q)
            | Some fresh \<Rightarrow>
                if pa_status fresh = ''confirmed'' \<and> stored_job fresh \<noteq> None then
                  (Inr (replay_answer (py_repr E) fresh (the (stored_job fresh))), db, q)
                else (Inl (http 409 ''pending action already being processed''), db, q))
       | (True, db) \<Rightarrow>
           (case admit_generation_job E P s now nid user (workflow_for (pa_action_type row)) ''v1''
                   (confirm_inputs row) (confirm_key (pa_id row)) (Some (pa_conversation_id row)) q of
              Inl e \<Rightarrow> (Inl (chat_admission_http ''failed to start generation'' e), db, q)
            | Inr (admission, q) \<Rightarrow>
                let job_id = uuid_text (ar_id admission);
                    row = row\<lparr>pa_status := ''confirmed'', pa_consumed_at := Some now, pa_resulting_job_id := Some job_id\<rparr>
                in (Inr (job_answer (py_repr E) row (chat_job admission)), record_job (pa_id row) job_id db, q)))"
  using assms by (simp add: confirm_pending_action_def Let_def)

lemma set_action_evolves:
  assumes "distinct (map pa_id db)" "action_by_id i db = Some a" "evolves a (f a)"
  shows "evolve_db db (set_action i f db)"
proof -
  have a: "a \<in> set db" "pa_id a = i" using find_in [OF assms(2) [unfolded action_by_id_def]] by auto
  have "evolves b (if pa_id b = i then f b else b)" if "b \<in> set db" for b
    using distinct_map_eq [OF assms(1) that a(1)] a(2) assms(3) by auto
  then show ?thesis unfolding set_action_def by (rule evolve_db_map)
qed

lemma set_action_twice: "(\<And>a. pa_id (f a) = pa_id a) \<Longrightarrow> set_action i g (set_action i f db) = set_action i (\<lambda>a. g (f a)) db"
  by (simp add: set_action_def)

text \<open>A confirmation changes the table only by a claim that succeeds.\<close>

lemma confirm_effect:
  assumes "distinct (map pa_id db)" "confirm_pending_action E P s now nid pid user seen db q = (r, db', q')"
  shows "db' = db \<and> q' = q \<or>
    (\<exists>a. parse_uuid pid = Some (pa_id a) \<and> action_by_id (pa_id a) db = Some a \<and> pa_status a = ''pending'' \<and>
       (db' = set_action (pa_id a) (claimed_row now) db \<and> q' = q \<and> isl r \<or>
        (\<exists>k out j. db' = set_action (pa_id a) (\<lambda>a. (claimed_row now a)\<lparr>pa_resulting_job_id := Some (uuid_text k)\<rparr>) db \<and>
           r = Inr out \<and> so_job out = Some j \<and> go_id j = uuid_text k)))"
proof (cases "get_pending_action pid seen")
  case None
  with assms(2) show ?thesis by (simp add: confirm_pending_action_def Let_def)
next
  case (Some row)
  note id = get_pending_action_id [OF Some]
  obtain b db1 where claim: "claim_action now (pa_id row) db = (b, db1)" by (metis surj_pair)
  show ?thesis
  proof (cases b)
    case False
    with claim_cases [OF assms(1) claim] have "db1 = db" by simp
    with assms(2) claim False show ?thesis
      unfolding confirm_row [OF Some] by (auto simp: Let_def split: if_splits option.splits)
  next
    case True
    with claim_cases [OF assms(1) claim] obtain a where a: "db1 = set_action (pa_id row) (claimed_row now) db"
      "action_by_id (pa_id row) db = Some a" "pa_status a = ''pending''" by auto
    then have ida: "pa_id a = pa_id row" by (auto simp: action_by_id_def dest: find_in)
    have rec: "record_job (pa_id row) k db1 = set_action (pa_id row) (\<lambda>a. (claimed_row now a)\<lparr>pa_resulting_job_id := Some k\<rparr>) db" for k
      unfolding record_job_def a(1) by (rule set_action_twice) (simp add: claimed_row_def)
    have job: "\<exists>j. so_job (job_answer rp row (chat_job admission)) = Some j \<and> go_id j = uuid_text (ar_id admission)" for rp row admission
      by (simp add: job_answer_def chat_job_def generation_out_of_def)
    consider "db' = db" "q' = q" | "db' = db1" "q' = q" "isl r"
      | admission row' where "db' = record_job (pa_id row) (uuid_text (ar_id admission)) db1"
          "r = Inr (job_answer (py_repr E) row' (chat_job admission))"
      using assms(2) claim True unfolding confirm_row [OF Some]
      by (auto simp: Let_def split: if_splits sum.splits)
    then show ?thesis
    proof cases
      case 3
      with job [of "py_repr E" row' admission] rec a id ida show ?thesis by metis
    next
      case 2
      with a id ida show ?thesis by metis
    qed simp
  qed
qed

lemma claimed_evolves: "pa_status a = ''pending'' \<Longrightarrow> evolves a (claimed_row now a)"
  "pa_status a = ''pending'' \<Longrightarrow> evolves a ((claimed_row now a)\<lparr>pa_resulting_job_id := k\<rparr>)"
  by (simp_all add: evolves_def claimed_row_def)

lemma action_step_evolves: "action_step P db db' \<Longrightarrow> distinct (map pa_id db) \<Longrightarrow> evolve_db db db'"
proof (induction rule: action_step.induct)
  case (Confirm E s now new_id pid user seen db q r db' q')
  from confirm_effect [OF Confirm(2,1)] show ?case
    by (auto intro: set_action_evolves [OF Confirm(2)] claimed_evolves)
next
  case (Claim now i db b db')
  then show ?case by (simp add: claim_evolves)
next
  case (Cancel rp pid user seen db out db')
  have "evolve_db db (map (\<lambda>a. if pa_id a = i \<and> pa_status a = ''pending'' then a\<lparr>pa_status := ''cancelled''\<rparr> else a) db)" for i
    by (rule evolve_db_map) (simp add: evolves_def)
  with Cancel show ?case
    by (auto simp: cancel_pending_action_def Let_def split: option.splits if_splits)
qed

lemma action_run_evolves: "action_run P db db' \<Longrightarrow> distinct (map pa_id db) \<Longrightarrow> evolve_db db db' \<and> distinct (map pa_id db')"
proof (induction rule: rtranclp_induct)
  case (step y z)
  then have "evolve_db y z" by (simp add: action_step_evolves)
  with step show ?case using evolve_db_trans evolve_db_ids by metis
qed simp

text \<open>A row that is not pending any more is what it is.\<close>

lemma action_run_settled:
  "action_run P db db' \<Longrightarrow> distinct (map pa_id db) \<Longrightarrow> action_by_id i db = Some a \<Longrightarrow> pa_status a \<noteq> ''pending'' \<Longrightarrow>
    action_by_id i db' = Some a"
  using action_run_evolves [of P db db'] evolve_db_row [of db db' i a] by (auto simp: evolves_def)

lemma uuid_text_nonempty [simp]: "uuid_text u \<noteq> []"
  by (simp add: uuid_text_def Let_def)

lemma confirm_settled:
  assumes "parse_uuid pid = Some i" "distinct (map pa_id db)" "action_by_id i db = Some a" "pa_status a \<noteq> ''pending''"
    and "confirm_pending_action E P s now nid pid user seen db q = (r, db', q')"
  shows "db' = db \<and> q' = q"
  using confirm_effect [OF assms(2,5)] assms(1,3,4) by auto

lemma confirmed_again:
  assumes "get_pending_action pid db = Some b" "pa_user_id b = user" "pa_status b = ''confirmed''"
  shows "fst (confirm_pending_action E P s now nid pid user db db q) =
    (case stored_job b of Some j \<Rightarrow> Inr (replay_answer (py_repr E) b j)
     | None \<Rightarrow> Inl (http 409 ''pending action already confirmed''))"
proof -
  have "evaluate_confirmation (Some (snapshot_of b)) (uuid_text user) now None = Outcome_ALREADY_CONFIRMED"
    using assms(2,3) by (simp add: evaluate_confirmation_def snapshot_of_def)
  then show ?thesis
    unfolding confirm_row [OF assms(1)]
    by (auto simp: CONFIRM_ERROR_STATUS_def CONFIRM_ERROR_DETAIL_def split: option.split)
qed

text \<open>The row after a confirmation that won its claim.\<close>

lemma confirm_claims:
  assumes "distinct (map pa_id db)" "get_pending_action pid seen = Some row"
    and "evaluate_confirmation (Some (snapshot_of row)) (uuid_text user) now None = Outcome_OK"
    and "action_by_id (pa_id row) db = Some a" "fst (claim_action now (pa_id row) db)"
    and "confirm_pending_action E P s now nid pid user seen db q = (r, db1, q1)"
  shows "isl r \<and> action_by_id (pa_id row) db1 = Some (claimed_row now a) \<or>
    (\<exists>k out j. action_by_id (pa_id row) db1 = Some ((claimed_row now a)\<lparr>pa_resulting_job_id := Some (uuid_text k)\<rparr>) \<and>
       r = Inr out \<and> so_job out = Some j \<and> go_id j = uuid_text k)"
proof -
  obtain b db' where claim: "claim_action now (pa_id row) db = (b, db')" by (metis surj_pair)
  with assms(5) have b: "b" by simp
  with claim_cases [OF assms(1) claim] have db': "db' = set_action (pa_id row) (claimed_row now) db" by simp
  have row: "action_by_id (pa_id row) db' = Some (claimed_row now a)"
    unfolding db' using assms(4) by (subst set_action_row) (simp_all add: claimed_row_def)
  have rec: "action_by_id (pa_id row) (record_job (pa_id row) k db') = Some ((claimed_row now a)\<lparr>pa_resulting_job_id := Some k\<rparr>)" for k
    unfolding record_job_def using row by (subst set_action_row) simp_all
  have job: "\<exists>j. so_job (job_answer rp row (chat_job admission)) = Some j \<and> go_id j = uuid_text (ar_id admission)" for rp row admission
    by (simp add: job_answer_def chat_job_def generation_out_of_def)
  from assms(6) consider "isl r" "db1 = db'"
    | admission row' where "db1 = record_job (pa_id row) (uuid_text (ar_id admission)) db'"
        "r = Inr (job_answer (py_repr E) row' (chat_job admission))"
    unfolding confirm_row [OF assms(2)] using claim b assms(3) by (auto simp: Let_def split: sum.splits)
  then show ?thesis
  proof cases
    case 1
    with row show ?thesis by simp
  next
    case 2
    with rec job [of "py_repr E" row' admission] show ?thesis by blast
  qed
qed

subsection \<open>Properties\<close>

text \<open>C29. A paid action is executed at most once: after a confirmation has claimed its action (and
  admitted a job or failed to), and after any further confirmations, claims and cancellations of any
  users, each deciding on a row as old as one likes, no confirmation of that action reaches the queue
  or the table again. If the first answered with a job, the owner's next confirmation answers with the
  same job. If its admission failed, for instance for lack of capacity, the action is spent all the
  same: the owner is told for ever that it was already confirmed.\<close>
theorem confirmation_executes_once:
  assumes "distinct (map pa_id db)" and "get_pending_action pid seen = Some row"
    and "evaluate_confirmation (Some (snapshot_of row)) (uuid_text user) now None = Outcome_OK"
    and "action_by_id (pa_id row) db = Some a" "pa_user_id a = user" "pa_resulting_job_id a = None"
    and "fst (claim_action now (pa_id row) db)"
    and "confirm_pending_action E P s now nid pid user seen db q = (r, db1, q1)"
    and "action_run P db1 db2"
  shows "(\<forall>s2 now2 nid2 user2 seen2. snd (confirm_pending_action E P s2 now2 nid2 pid user2 seen2 db2 q2) = (db2, q2)) \<and>
    (\<forall>out. r = Inr out \<longrightarrow> (\<exists>j out2 j2. so_job out = Some j \<and>
       fst (confirm_pending_action E P s now2 nid2 pid user db2 db2 q2) = Inr out2 \<and>
       so_job out2 = Some j2 \<and> go_id j2 = go_id j)) \<and>
    (isl r \<longrightarrow> fst (confirm_pending_action E P s now2 nid2 pid user db2 db2 q2) =
       Inl (http 409 ''pending action already confirmed''))"
proof -
  have pid: "parse_uuid pid = Some (pa_id row)" using get_pending_action_id [OF assms(2)] by simp
  have d: "distinct (map pa_id db1)"
    using action_run_evolves [OF r_into_rtranclp [of "action_step P", OF action_step.Confirm [OF assms(8)]] assms(1)] by simp
  have "\<exists>b. action_by_id (pa_id row) db1 = Some b \<and> pa_status b = ''confirmed'' \<and> pa_user_id b = user \<and>
      (isl r \<and> stored_job b = None \<or>
       (\<exists>k out j. stored_job b = Some (uuid_text k) \<and> r = Inr out \<and> so_job out = Some j \<and> go_id j = uuid_text k))"
    using confirm_claims [OF assms(1-4,7,8)]
  proof (elim disjE exE conjE)
    assume "isl r" "action_by_id (pa_id row) db1 = Some (claimed_row now a)"
    then show ?thesis using assms(5,6) by (intro exI [of _ "claimed_row now a"]) (simp add: claimed_row_def stored_job_def)
  next
    fix k out j
    assume "action_by_id (pa_id row) db1 = Some ((claimed_row now a)\<lparr>pa_resulting_job_id := Some (uuid_text k)\<rparr>)"
      "r = Inr out" "so_job out = Some j" "go_id j = uuid_text k"
    moreover have "stored_job ((claimed_row now a)\<lparr>pa_resulting_job_id := Some (uuid_text k)\<rparr>) = Some (uuid_text k)"
      by (simp add: stored_job_def)
    ultimately show ?thesis using assms(5)
      by (intro exI [of _ "(claimed_row now a)\<lparr>pa_resulting_job_id := Some (uuid_text k)\<rparr>"]) (simp add: claimed_row_def, blast)
  qed
  then obtain b where b: "action_by_id (pa_id row) db1 = Some b" "pa_status b = ''confirmed''" "pa_user_id b = user"
    and job: "isl r \<and> stored_job b = None \<or>
      (\<exists>k out j. stored_job b = Some (uuid_text k) \<and> r = Inr out \<and> so_job out = Some j \<and> go_id j = uuid_text k)"
    by blast
  have b2: "action_by_id (pa_id row) db2 = Some b" using action_run_settled [OF assms(9) d b(1)] b(2) by simp
  have d2: "distinct (map pa_id db2)" using action_run_evolves [OF assms(9) d] by simp
  have "get_pending_action pid db2 = Some b" using pid b2 by (simp add: get_pending_action_def)
  note again = confirmed_again [OF this b(3,2), of E P s now2 nid2 q2]
  have "snd (confirm_pending_action E P s2 now2' nid2' pid user2 seen2 db2 q2) = (db2, q2)" for s2 now2' nid2' user2 seen2
  proof -
    obtain r' db' q' where c: "confirm_pending_action E P s2 now2' nid2' pid user2 seen2 db2 q2 = (r', db', q')" by (metis surj_pair)
    have "pa_status b \<noteq> ''pending''" using b(2) by simp
    from confirm_settled [OF pid d2 b2 this c] c show ?thesis by simp
  qed
  moreover have "so_job (replay_answer (py_repr E) b k) = Some (replayed_job k (workflow_for (pa_action_type b)))" for k
    by (simp add: replay_answer_def job_answer_def)
  ultimately show ?thesis using job again by (auto simp: replayed_job_def)
qed

text \<open>A poster that its owner confirms while the queue has room for one job only.\<close>

definition waiting_action :: pending_action where
  "waiting_action = \<lparr>pa_id = 4, pa_user_id = 7, pa_conversation_id = 5, pa_action_type = ''poster'',
     pa_billing_category = ''paid'', pa_normalized_params = [(''prompt'', JStr ''open day'')],
     pa_params_fingerprint = [], pa_status = ''pending'', pa_expires_at = 100, pa_created_at = 0,
     pa_consumed_at = None, pa_resulting_job_id = None\<rparr>"

theorem confirmation_executes_once_witness:
  "\<exists>r db1 q1. confirm_pending_action plain_env mem_port small_settings 5 1 (uuid_text 4) 7 [waiting_action] [waiting_action] mem_init =
      (r, db1, q1) \<and>
    (\<forall>out. r = Inr out \<longrightarrow> (\<exists>j out2 j2. so_job out = Some j \<and>
       fst (confirm_pending_action plain_env mem_port small_settings 9 2 (uuid_text 4) 7 db1 db1 q1) = Inr out2 \<and>
       so_job out2 = Some j2 \<and> go_id j2 = go_id j)) \<and>
    snd (confirm_pending_action plain_env mem_port small_settings 9 2 (uuid_text 4) 7 [waiting_action] db1 q1) = (db1, q1)"
proof -
  obtain r db1 q1 where c: "confirm_pending_action plain_env mem_port small_settings 5 1 (uuid_text 4) 7 [waiting_action]
      [waiting_action] mem_init = (r, db1, q1)" by (metis surj_pair)
  have row: "get_pending_action (uuid_text 4) [waiting_action] = Some waiting_action"
    "action_by_id (pa_id waiting_action) [waiting_action] = Some waiting_action"
    by (simp_all add: get_pending_action_def action_by_id_def waiting_action_def)
  have ok: "evaluate_confirmation (Some (snapshot_of waiting_action)) (uuid_text 7) 5 None = Outcome_OK"
    "fst (claim_action 5 (pa_id waiting_action) [waiting_action])"
    by (simp_all add: evaluate_confirmation_def snapshot_of_def waiting_action_def claim_action_def)
  have "pa_user_id waiting_action = 7" "pa_resulting_job_id waiting_action = None" "distinct (map pa_id [waiting_action])"
    by (simp_all add: waiting_action_def)
  with confirmation_executes_once [where ?now2.0 = 9 and ?nid2.0 = 2 and ?q2.0 = q1,
    OF _ row(1) ok(1) row(2) _ _ ok(2) c rtranclp.rtrancl_refl]
  show ?thesis using c by blast
qed

end
