(* ===== verification/Chat_Router.thy ===== *)
theory Chat_Router
  imports Pending_Actions
begin

section \<open>Routing a chat message (api/v1/chat_router.py)\<close>

text \<open>
  From a user's message to its answer: the model classifies, research may fill in missing facts,
  \<open>decide_next_step\<close> chooses, and the server chats, asks, or admits a job. The handler is not
  atomic: the history is read from one database (\<open>seen\<close>), the reply is appended to a later one
  (\<open>db\<close>). What the model answers is the record of the client's operations, so a retry whose
  classification differs is a run with another client.
\<close>

subsection \<open>Classification\<close>

definition OVERLOAD_CLARIFICATION_QUESTION :: string where
  "OVERLOAD_CLARIFICATION_QUESTION = map char_of
    [224, 184, 130, 224, 184, 173, 224, 185, 130, 224, 184, 151, 224, 184, 169, 224, 184, 132, 224, 185, 136, 224,
     184, 176, 32, 224, 184, 149, 224, 184, 173, 224, 184, 153, 224, 184, 153, 224, 184, 181, 224, 185, 137, 224,
     184, 163, 224, 184, 176, 224, 184, 154, 224, 184, 154, 32, 65, 73, 32, 224, 184, 161, 224, 184, 181, 224,
     184, 156, 224, 184, 185, 224, 185, 137, 224, 185, 131, 224, 184, 138, 224, 185, 137, 224, 184, 135, 224, 184,
     178, 224, 184, 153, 224, 184, 171, 224, 184, 153, 224, 184, 178, 224, 185, 129, 224, 184, 153, 224, 185, 136,
     224, 184, 153, 224, 184, 138, 224, 184, 177, 224, 185, 136, 224, 184, 167, 224, 184, 132, 224, 184, 163, 224,
     184, 178, 224, 184, 167, 32, 224, 184, 129, 224, 184, 163, 224, 184, 184, 224, 184, 147, 224, 184, 178, 224,
     184, 165, 224, 184, 173, 224, 184, 135, 224, 184, 170, 224, 185, 136, 224, 184, 135, 224, 184, 130, 224, 185,
     137, 224, 184, 173, 224, 184, 132, 224, 184, 167, 224, 184, 178, 224, 184, 161, 224, 185, 128, 224, 184, 148,
     224, 184, 180, 224, 184, 161, 224, 184, 173, 224, 184, 181, 224, 184, 129, 224, 184, 132, 224, 184, 163, 224,
     184, 177, 224, 185, 137, 224, 184, 135, 224, 185, 131, 224, 184, 153, 224, 184, 173, 224, 184, 181, 224, 184,
     129, 224, 184, 170, 224, 184, 177, 224, 184, 129, 224, 184, 132, 224, 184, 163, 224, 184, 185, 224, 185, 136,
     224, 184, 153, 224, 184, 176, 224, 184, 132, 224, 184, 176, 32, 240, 159, 153, 143 :: nat]"

definition GENERIC_CLARIFICATION_QUESTION :: string where
  "GENERIC_CLARIFICATION_QUESTION = map char_of
    [224, 184, 130, 224, 184, 173, 224, 185, 130, 224, 184, 151, 224, 184, 169, 224, 184, 132, 224, 185, 136, 224,
     184, 176, 32, 224, 184, 149, 224, 184, 173, 224, 184, 153, 224, 184, 153, 224, 184, 181, 224, 185, 137, 224,
     184, 163, 224, 184, 176, 224, 184, 154, 224, 184, 154, 224, 185, 129, 224, 184, 162, 224, 184, 129, 224, 185,
     129, 224, 184, 162, 224, 184, 176, 224, 184, 132, 224, 184, 179, 224, 184, 130, 224, 184, 173, 224, 185, 132,
     224, 184, 161, 224, 185, 136, 224, 185, 132, 224, 184, 148, 224, 185, 137, 32, 224, 184, 138, 224, 185, 136,
     224, 184, 167, 224, 184, 162, 224, 184, 154, 224, 184, 173, 224, 184, 129, 224, 184, 173, 224, 184, 181, 224,
     184, 129, 224, 184, 132, 224, 184, 163, 224, 184, 177, 224, 185, 137, 224, 184, 135, 224, 185, 132, 224, 184,
     148, 224, 185, 137, 224, 185, 132, 224, 184, 171, 224, 184, 161, 224, 184, 132, 224, 184, 176, 224, 184, 167,
     224, 185, 136, 224, 184, 178, 224, 184, 149, 224, 185, 137, 224, 184, 173, 224, 184, 135, 224, 184, 129, 224,
     184, 178, 224, 184, 163, 224, 185, 129, 224, 184, 138, 224, 184, 151, 224, 184, 132, 224, 184, 184, 224, 184,
     162, 224, 185, 128, 224, 184, 137, 224, 184, 162, 224, 185, 134, 44, 32, 224, 184, 170, 224, 184, 163, 224,
     185, 137, 224, 184, 178, 224, 184, 135, 224, 184, 160, 224, 184, 178, 224, 184, 158, 224, 184, 151, 224, 184,
     177, 224, 185, 136, 224, 184, 167, 224, 185, 132, 224, 184, 155, 44, 32, 224, 184, 151, 224, 184, 179, 224,
     185, 130, 224, 184, 155, 224, 184, 170, 224, 185, 128, 224, 184, 149, 224, 184, 173, 224, 184, 163, 224, 185,
     140, 32, 224, 184, 171, 224, 184, 163, 224, 184, 183, 224, 184, 173, 224, 184, 151, 224, 184, 179, 224, 184,
     173, 224, 184, 180, 224, 184, 153, 224, 185, 130, 224, 184, 159, 224, 184, 129, 224, 184, 163, 224, 184, 178,
     224, 184, 159, 224, 184, 180, 224, 184, 129, 224, 184, 132, 224, 184, 176, 63 :: nat]"

definition fallback_clarification :: "string \<Rightarrow> route_decision" where
  "fallback_clarification reason =
     \<lparr>rd_intent = CLARIFICATION, rd_normalized_prompt = [], rd_exact_text = [], rd_missing_fields = [],
      rd_clarification_question = Some (if reason \<in> set OVERLOAD_REASONS then OVERLOAD_CLARIFICATION_QUESTION
        else GENERIC_CLARIFICATION_QUESTION),
      rd_reason_code = AMBIGUOUS_VISUAL_DELIVERABLE\<rparr>"

text \<open>The proposal of the model, and the decision of the \<open>try\<close> statement around it.\<close>

definition proposal :: "text_client \<Rightarrow> chat_history \<Rightarrow> string option \<Rightarrow> py_exc + route_decision" where
  "proposal client turns extra =
     (case tc_route_intent client turns extra of
        Inl e \<Rightarrow> Inl e
      | Inr raw \<Rightarrow> raise_plain (parse_route_decision raw))"

definition validation_outcome :: "py_exc \<Rightarrow> string" where
  "validation_outcome e =
     (if px_type e = ''RouteDecisionError'' then ''invalid_schema''
      else if sanitized_code e \<in> set OVERLOAD_REASONS then sanitized_code e else ''llm_call_failed'')"

definition classify :: "text_client \<Rightarrow> chat_history \<Rightarrow> route_decision" where
  "classify client turns =
     (case proposal client turns None of
        Inl e \<Rightarrow> fallback_clarification (validation_outcome e)
      | Inr decision \<Rightarrow> decision)"

definition research_augment :: "text_client \<Rightarrow> chat_history \<Rightarrow> route_decision \<Rightarrow> route_decision" where
  "research_augment client turns decision =
     (if rd_intent decision \<notin> {POSTER, INFOGRAPHIC} \<or> rd_missing_fields decision = [] then decision
      else case tc_research_missing_fields client turns (rd_missing_fields decision) of
        Inl e \<Rightarrow> decision
      | Inr findings \<Rightarrow>
          (case proposal client turns (Some (build_router_system_instruction_with_research findings)) of
             Inl e \<Rightarrow> decision
           | Inr refined \<Rightarrow> if rd_intent refined \<noteq> rd_intent decision then decision else refined))"

definition routed_decision :: "text_client \<Rightarrow> chat_history \<Rightarrow> route_decision" where
  "routed_decision client turns = research_augment client turns (classify client turns)"

subsection \<open>Acting on the decision\<close>

record route_options =
  ro_model_profile :: "string option"
  ro_model_overrides :: "dict option"
  ro_skip_prompt_design :: bool
  ro_assume_image :: bool
  ro_exact_text :: "string list option"
  ro_aspect_ratio :: "string option"
  ro_resolution :: "string option"

definition default_options :: route_options where
  "default_options = \<lparr>ro_model_profile = None, ro_model_overrides = None, ro_skip_prompt_design = False,
     ro_assume_image = False, ro_exact_text = None, ro_aspect_ratio = None, ro_resolution = None\<rparr>"

definition opt_json :: "('a \<Rightarrow> json) \<Rightarrow> 'a option \<Rightarrow> json" where
  "opt_json f x = (case x of None \<Rightarrow> JNull | Some v \<Rightarrow> f v)"

definition image_inputs :: "route_options \<Rightarrow> string \<Rightarrow> string list \<Rightarrow> dict" where
  "image_inputs opts prompt exact_text =
     [(''prompt'', JStr prompt),
      (''exact_text'', JList (map JStr exact_text)),
      (''model_profile'', opt_json JStr (ro_model_profile opts)),
      (''model_overrides'', opt_json JObj (ro_model_overrides opts)),
      (''skip_prompt_design'', JBool (ro_skip_prompt_design opts)),
      (''aspect_ratio'', opt_json JStr (ro_aspect_ratio opts)),
      (''resolution'', opt_json JStr (ro_resolution opts))]"

definition paid_inputs :: "string \<Rightarrow> string \<Rightarrow> string list \<Rightarrow> dict" where
  "paid_inputs action_type prompt exact_text =
     [(''prompt'', JStr prompt), (''exact_text'', JList (map JStr exact_text)), (''action_type'', JStr action_type)]"

definition general_image_key :: "uuid \<Rightarrow> string" where
  "general_image_key i = ''router-general-image-'' @ uuid_text i"

definition paid_image_key :: "uuid \<Rightarrow> string" where
  "paid_image_key i = ''router-paid-image-'' @ uuid_text i"

definition chat_answer :: "chat_message \<Rightarrow> chat_message \<Rightarrow> smart_message_out" where
  "chat_answer user_msg assistant_msg = \<lparr>so_type = ''chat'', so_user_message = message_out_of user_msg,
     so_assistant_message = Some (message_out_of assistant_msg), so_job = None, so_pending_action = None\<rparr>"

definition image_answer :: "chat_message \<Rightarrow> generation_out \<Rightarrow> smart_message_out" where
  "image_answer user_msg job = \<lparr>so_type = ''image_job'', so_user_message = message_out_of user_msg,
     so_assistant_message = None, so_job = Some job, so_pending_action = None\<rparr>"

text \<open>The three admissions of the handler have the same shape: workflow, inputs and key.\<close>

definition start_image ::
  "py_env \<Rightarrow> 'q job_queue_port \<Rightarrow> settings \<Rightarrow> time \<Rightarrow> uuid \<Rightarrow> uuid \<Rightarrow> uuid \<Rightarrow> chat_message \<Rightarrow> string \<Rightarrow> dict \<Rightarrow> string
     \<Rightarrow> 'q \<Rightarrow> (http_error + smart_message_out) \<times> 'q" where
  "start_image E P s now job_id conv user user_msg workflow_name inputs key q =
     (case admit_generation_job E P s now job_id user workflow_name ''v1'' inputs key (Some conv) q of
        Inl e \<Rightarrow> (Inl (chat_admission_http ''failed to start image generation'' e), q)
      | Inr (r, q) \<Rightarrow> (Inr (image_answer user_msg (chat_job r)), q))"

definition reply_with ::
  "uuid \<Rightarrow> time \<Rightarrow> uuid \<Rightarrow> chat_message \<Rightarrow> string \<Rightarrow> chat_db \<Rightarrow> (http_error + smart_message_out) \<times> chat_db" where
  "reply_with msg_id now conv user_msg reply_text db =
     (case append_message db msg_id now conv ''assistant'' [(''text'', JStr reply_text)] None db of
        (Inl e, db) \<Rightarrow> (Inl e, db)
      | (Inr assistant_msg, db) \<Rightarrow> (Inr (chat_answer user_msg assistant_msg), db))"

definition assume_image_answer ::
  "py_env \<Rightarrow> 'q job_queue_port \<Rightarrow> settings \<Rightarrow> time \<Rightarrow> uuid \<Rightarrow> uuid \<Rightarrow> uuid \<Rightarrow> chat_message \<Rightarrow> route_options \<Rightarrow> 'q
     \<Rightarrow> (http_error + smart_message_out) \<times> 'q"
where
  "assume_image_answer E P s now job_id conv user user_msg opts =
     start_image E P s now job_id conv user user_msg ''image_basic''
       (image_inputs opts (message_text (py_repr E) user_msg) (case ro_exact_text opts of Some ts \<Rightarrow> ts | None \<Rightarrow> []))
       (general_image_key (cm_id user_msg))"

text \<open>What the server does for each of the four steps.\<close>

definition answer_step ::
  "py_env \<Rightarrow> 'q job_queue_port \<Rightarrow> settings \<Rightarrow> text_client \<Rightarrow> time \<Rightarrow> uuid \<Rightarrow> uuid \<Rightarrow> uuid \<Rightarrow> uuid \<Rightarrow> chat_message \<Rightarrow> route_options
     \<Rightarrow> chat_history \<Rightarrow> next_step \<Rightarrow> chat_db \<Rightarrow> 'q \<Rightarrow> (http_error + smart_message_out) \<times> chat_db \<times> 'q"
where
  "answer_step E P s client now job_id msg_id conv user user_msg opts turns step db q =
     (case step of
        RespondChat \<Rightarrow>
          (case tc_complete client turns of
             Inl e \<Rightarrow> (Inl (http 502 ''chat completion failed''), db, q)
           | Inr reply_text \<Rightarrow>
               (case reply_with msg_id now conv user_msg reply_text db of (r, db) \<Rightarrow> (r, db, q)))
      | RespondClarification question \<Rightarrow>
          (case reply_with msg_id now conv user_msg question db of (r, db) \<Rightarrow> (r, db, q))
      | EnqueueGeneralImage prompt exact_text \<Rightarrow>
          (case start_image E P s now job_id conv user user_msg ''image_basic''
                  (image_inputs opts prompt exact_text) (general_image_key (cm_id user_msg)) q of
             (r, q) \<Rightarrow> (r, db, q))
      | EnqueuePaidImage action_type prompt exact_text billing_category \<Rightarrow>
          (case start_image E P s now job_id conv user user_msg (workflow_for action_type)
                  (paid_inputs action_type prompt exact_text) (paid_image_key (cm_id user_msg)) q of
             (r, q) \<Rightarrow> (r, db, q)))"

definition process_routed_message ::
  "py_env \<Rightarrow> 'q job_queue_port \<Rightarrow> settings \<Rightarrow> text_client \<Rightarrow> time \<Rightarrow> uuid \<Rightarrow> uuid \<Rightarrow> uuid \<Rightarrow> uuid \<Rightarrow> chat_message \<Rightarrow> route_options
     \<Rightarrow> chat_db \<Rightarrow> chat_db \<Rightarrow> 'q \<Rightarrow> (http_error + smart_message_out) \<times> chat_db \<times> 'q"
where
  "process_routed_message E P s client now job_id msg_id conv user user_msg opts seen db q =
     (if ro_assume_image opts then
        (case assume_image_answer E P s now job_id conv user user_msg opts q of (r, q) \<Rightarrow> (r, db, q))
      else
        let turns = load_history (py_repr E) conv seen
        in answer_step E P s client now job_id msg_id conv user user_msg opts turns
             (decide_next_step (routed_decision client turns)) db q)"

lemma process_routed_message_unfold:
  "process_routed_message E P s client now job_id msg_id conv user user_msg opts seen db q =
     (if ro_assume_image opts then
        (case start_image E P s now job_id conv user user_msg ''image_basic''
                (image_inputs opts (message_text (py_repr E) user_msg) (case ro_exact_text opts of Some ts \<Rightarrow> ts | None \<Rightarrow> []))
                (general_image_key (cm_id user_msg)) q of
           (r, q) \<Rightarrow> (r, db, q))
      else
        let turns = load_history (py_repr E) conv seen
        in case decide_next_step (routed_decision client turns) of
             RespondChat \<Rightarrow>
               (case tc_complete client turns of
                  Inl e \<Rightarrow> (Inl (http 502 ''chat completion failed''), db, q)
                | Inr reply_text \<Rightarrow>
                    (case reply_with msg_id now conv user_msg reply_text db of (r, db) \<Rightarrow> (r, db, q)))
           | RespondClarification question \<Rightarrow>
               (case reply_with msg_id now conv user_msg question db of (r, db) \<Rightarrow> (r, db, q))
           | EnqueueGeneralImage prompt exact_text \<Rightarrow>
               (case start_image E P s now job_id conv user user_msg ''image_basic''
                       (image_inputs opts prompt exact_text) (general_image_key (cm_id user_msg)) q of
                  (r, q) \<Rightarrow> (r, db, q))
           | EnqueuePaidImage action_type prompt exact_text billing_category \<Rightarrow>
               (case start_image E P s now job_id conv user user_msg (workflow_for action_type)
                       (paid_inputs action_type prompt exact_text) (paid_image_key (cm_id user_msg)) q of
                  (r, q) \<Rightarrow> (r, db, q)))"
  by (simp add: process_routed_message_def assume_image_answer_def answer_step_def Let_def)

text \<open>
  The endpoint. \<open>seen\<close> and \<open>db\<close> are the databases of the user message's append; \<open>early\<close> and \<open>late\<close> are
  what other requests do before the history is read and before the reply is appended.
\<close>

definition smart_message ::
  "py_env \<Rightarrow> 'q job_queue_port \<Rightarrow> settings \<Rightarrow> text_client option \<Rightarrow> time \<Rightarrow> uuid \<Rightarrow> uuid \<Rightarrow> uuid \<Rightarrow> string \<Rightarrow> uuid \<Rightarrow> string \<Rightarrow> string option
     \<Rightarrow> (chat_db \<Rightarrow> chat_db) \<Rightarrow> (chat_db \<Rightarrow> chat_db) \<Rightarrow> chat_db \<Rightarrow> chat_db \<Rightarrow> 'q
     \<Rightarrow> (http_error + smart_message_out) \<times> chat_db \<times> 'q"
where
  "smart_message E P s gemini now user_msg_id reply_id job_id conversation_id user txt client_message_id early late seen db q =
     (case gemini of
        None \<Rightarrow> (Inl (http 503 ''chat routing is not configured (APP_GEMINI_API_KEY unset)''), db, q)
      | Some client \<Rightarrow>
          (case get_owned_conversation seen conversation_id user of
             Inl e \<Rightarrow> (Inl e, db, q)
           | Inr conv \<Rightarrow>
               (case append_message seen user_msg_id now (cv_id conv) ''user'' [(''text'', JStr txt)] client_message_id db of
                  (Inl e, db) \<Rightarrow> (Inl e, db, q)
                | (Inr user_msg, db) \<Rightarrow>
                    let db = early db
                    in process_routed_message E P s client now job_id reply_id (cv_id conv) user user_msg default_options
                         db (late db) q)))"

subsection \<open>What an answer costs\<close>

definition workflow_of_intent :: "intent \<Rightarrow> string" where
  "workflow_of_intent i = (if i = GENERAL_IMAGE then ''image_basic'' else ''poster_infographic'')"

definition action_of_intent :: "intent \<Rightarrow> string" where
  "action_of_intent i = (if i = POSTER then ''poster'' else ''infographic'')"

lemma research_keeps_intent [simp]: "rd_intent (research_augment client turns d) = rd_intent d"
  by (simp add: research_augment_def split: sum.split)

lemma research_of_other [simp]: "rd_intent d \<notin> {POSTER, INFOGRAPHIC} \<Longrightarrow> research_augment client turns d = d"
  by (simp add: research_augment_def)

lemma fallback_intent [simp]: "rd_intent (fallback_clarification reason) = CLARIFICATION"
  by (simp add: fallback_clarification_def)

lemma workflow_for_action [simp]:
  "workflow_for ''poster'' = ''poster_infographic''" "workflow_for ''infographic'' = ''poster_infographic''"
  by (simp_all add: workflow_for_def WORKFLOW_FOR_ACTION_TYPE_def)

lemma start_image_queue:
  assumes "start_image E P s now nid conv user m wn inputs key q = (r, q')" "q' \<noteq> q"
  obtains w inputs' where "resolve_workflow wn ''v1'' = Inr w" "normalise_inputs E s w inputs = Inr inputs'"
    and "jq_enqueue P now (new_queued_job nid user wn Queued 0 0 inputs' key now (Some conv)) q = Inr q'"
proof -
  from assms obtain a where a: "admit_generation_job E P s now nid user wn ''v1'' inputs key (Some conv) q = Inr (a, q')"
    by (auto simp: start_image_def split: sum.splits)
  from admit_cases [OF a] assms(2) that show thesis by metis
qed

lemma start_image_inputs:
  assumes "start_image E P s now nid conv user m wn inputs key q = (r, q')" "q' \<noteq> q"
    and "dget inputs ''prompt'' = Some p" "dget inputs ''exact_text'' = Some x"
  shows "\<exists>inputs' key. jq_enqueue P now (new_queued_job nid user wn Queued 0 0 inputs' key now (Some conv)) q = Inr q' \<and>
    dget inputs' ''prompt'' = Some p \<and> dget inputs' ''exact_text'' = Some x"
proof -
  from start_image_queue [OF assms(1,2)] obtain w inputs' where
    i: "normalise_inputs E s w inputs = Inr inputs'"
      "jq_enqueue P now (new_queued_job nid user wn Queued 0 0 inputs' key now (Some conv)) q = Inr q'" by blast
  have "dget inputs' ''prompt'' = Some p" "dget inputs' ''exact_text'' = Some x"
    using normalise_entry [OF i(1), of "''prompt''"] normalise_entry [OF i(1), of "''exact_text''"] assms(3,4) by simp_all
  with i(2) show ?thesis by blast
qed

lemma start_image_answer:
  assumes "start_image E P s now nid conv user m wn inputs key q = (Inr out, q')"
  obtains a where "admit_generation_job E P s now nid user wn ''v1'' inputs key (Some conv) q = Inr (a, q')"
    and "out = image_answer m (chat_job a)"
  using assms by (auto simp: start_image_def split: sum.splits)

lemma image_answer_simps [simp]:
  "so_job (image_answer m j) = Some j" "so_user_message (image_answer m j) = message_out_of m"
  "so_job (chat_answer m m') = None" "go_id (chat_job a) = uuid_text (ar_id a)"
  by (simp_all add: image_answer_def chat_answer_def chat_job_def generation_out_of_def)

lemma reply_has_no_job: "reply_with i now conv m t db = (Inr out, db') \<Longrightarrow> so_job out = None"
  by (auto simp: reply_with_def split: prod.splits sum.splits)

context job_queue
begin

lemma start_image_twice:
  assumes "ok q" "jq_get P nid q = None" and "start_image E P s now nid conv user m wn inputs key q = (Inr out, q')"
  shows "\<exists>out2 j j2. start_image E P s now2 nid2 conv user m wn inputs key q' = (Inr out2, q') \<and>
    so_user_message out2 = so_user_message out \<and> so_job out = Some j \<and> so_job out2 = Some j2 \<and> go_id j2 = go_id j"
proof -
  from start_image_answer [OF assms(3)] obtain a where
    a: "admit_generation_job E P s now nid user wn ''v1'' inputs key (Some conv) q = Inr (a, q')" "out = image_answer m (chat_job a)"
    by blast
  from admit_twice [OF assms(1,2) a(1)] obtain a2 where
    "admit_generation_job E P s now2 nid2 user wn ''v1'' inputs key (Some conv) q' = Inr (a2, q')" "ar_id a2 = ar_id a"
    by blast
  with a(2) show ?thesis by (simp add: start_image_def)
qed

text \<open>The same decision about the same message leads to the same job.\<close>

lemma process_twice:
  assumes "ok q" "jq_get P nid q = None" "\<not> ro_assume_image opts"
    and "process_routed_message E P s client now nid mid conv user m opts seen db q = (Inr out, db1, q1)" "so_job out = Some j"
    and "routed_decision client2 (load_history (py_repr E) conv seen2) = routed_decision client (load_history (py_repr E) conv seen)"
  shows "\<exists>out2 j2. process_routed_message E P s client2 now2 nid2 mid2 conv user m opts seen2 db2 q1 = (Inr out2, db2, q1) \<and>
    so_user_message out2 = so_user_message out \<and> so_job out2 = Some j2 \<and> go_id j2 = go_id j"
proof -
  let ?go = "\<lambda>now nid wn inputs key q. start_image E P s now nid conv user m wn inputs key q"
  have twice: "?thesis" if "?go now nid wn inputs key q = (Inr out, q1)"
    and "process_routed_message E P s client2 now2 nid2 mid2 conv user m opts seen2 db2 q1 =
      (case ?go now2 nid2 wn inputs key q1 of (r, q) \<Rightarrow> (r, db2, q))" for wn inputs key
    using start_image_twice [OF assms(1,2) that(1), of now2 nid2] that(2) assms(5) by auto
  show ?thesis
  proof (cases "decide_next_step (routed_decision client (load_history (py_repr E) conv seen))")
    case RespondChat
    with assms(3,4,5) show ?thesis
      by (auto simp: process_routed_message_unfold Let_def dest: reply_has_no_job split: sum.splits prod.splits)
  next
    case (RespondClarification question)
    with assms(3,4,5) show ?thesis
      by (auto simp: process_routed_message_unfold Let_def dest: reply_has_no_job split: prod.splits)
  next
    case (EnqueueGeneralImage p xs)
    show ?thesis
    proof (rule twice)
      show "?go now nid ''image_basic'' (image_inputs opts p xs) (general_image_key (cm_id m)) q = (Inr out, q1)"
        using EnqueueGeneralImage assms(3,4) by (simp add: process_routed_message_unfold Let_def split: prod.splits)
    qed (use EnqueueGeneralImage assms(3,6) in \<open>simp add: process_routed_message_unfold Let_def\<close>)
  next
    case (EnqueuePaidImage act p xs b)
    show ?thesis
    proof (rule twice)
      show "?go now nid (workflow_for act) (paid_inputs act p xs) (paid_image_key (cm_id m)) q = (Inr out, q1)"
        using EnqueuePaidImage assms(3,4) by (simp add: process_routed_message_unfold Let_def split: prod.splits)
    qed (use EnqueuePaidImage assms(3,6) in \<open>simp add: process_routed_message_unfold Let_def\<close>)
  qed
qed

end

subsection \<open>Properties\<close>



text \<open>A model that gives every message the same decision, and a chat with one conversation.\<close>

definition decided :: "intent \<Rightarrow> json" where
  "decided i = JObj [(''intent'', JStr (intent_value i)), (''normalized_prompt'', JStr ''a red panda''),
     (''exact_text'', JNull), (''reason_code'', JStr ''other'')]"

definition fixed_client :: "intent \<Rightarrow> text_client" where
  "fixed_client i = \<lparr>tc_complete = (\<lambda>_. Inr ''hello''), tc_route_intent = (\<lambda>_ _. Inr (decided i)),
     tc_research_missing_fields = (\<lambda>_ _. Inr []), tc_design_image_prompt = (\<lambda>p _ _. Inr p),
     tc_design_comfyui_prompt = (\<lambda>p _. Inr p)\<rparr>"

definition one_chat :: chat_db where
  "one_chat = snd (create_conversation 5 1 None 7 \<lparr>cd_conversations = [], cd_messages = []\<rparr>)"

definition panda_decision :: "intent \<Rightarrow> route_decision" where
  "panda_decision i = \<lparr>rd_intent = i, rd_normalized_prompt = ''a red panda'', rd_exact_text = [], rd_missing_fields = [],
     rd_clarification_question = None, rd_reason_code = AMBIGUOUS_VISUAL_DELIVERABLE\<rparr>"

lemma fixed_proposal: "proposal (fixed_client i) turns x = Inr (panda_decision i)"
proof -
  have "\<forall>i \<in> set ALL_INTENTS. parse_route_decision (decided i) = Inr (panda_decision i)" by code_simp
  moreover have "i \<in> set ALL_INTENTS" by (cases i) (simp_all add: ALL_INTENTS_def)
  ultimately have "parse_route_decision (decided i) = Inr (panda_decision i)" by blast
  then show ?thesis by (simp add: proposal_def fixed_client_def raise_plain_def)
qed

lemma fixed_decision [simp]: "routed_decision (fixed_client i) turns = panda_decision i"
  by (simp add: routed_decision_def classify_def fixed_proposal research_augment_def panda_decision_def)

definition panda_request :: "text_client \<Rightarrow> chat_db \<Rightarrow> mem_queue \<Rightarrow> (http_error + smart_message_out) \<times> chat_db \<times> mem_queue" where
  "panda_request client db q = smart_message plain_env mem_port default_settings (Some client) 9 11 12
     (1 + length (mq_jobs q)) (uuid_text 5) 7 ''draw a red panda'' (Some ''m1'') id id db db q"


definition panda_first :: "intent \<Rightarrow> (http_error + smart_message_out) \<times> chat_db \<times> mem_queue" where
  "panda_first i = panda_request (fixed_client i) one_chat mem_init"

definition panda_again :: "intent \<Rightarrow> intent \<Rightarrow> (http_error + smart_message_out) \<times> chat_db \<times> mem_queue" where
  "panda_again i i2 = (case panda_first i of (r, db, q) \<Rightarrow> panda_request (fixed_client i2) db q)"

text \<open>The message of the user, as \<open>panda_request\<close> stores it.\<close>

definition panda_message :: chat_message where
  "panda_message = \<lparr>cm_id = 11, cm_conversation_id = 5, cm_role = ''user'', cm_sequence_no = 1, cm_client_message_id = Some ''m1'',
     cm_content = [(''text'', JStr ''draw a red panda'')], cm_status = ''complete'', cm_created_at = 9\<rparr>"

lemma panda_owned: "\<exists>c. get_owned_conversation one_chat (uuid_text 5) 7 = Inr c \<and> cv_id c = 5"
  by (simp add: get_owned_conversation_iff one_chat_def create_conversation_def conversation_by_id_def Let_def)

definition panda_chat :: chat_db where
  "panda_chat = snd (append_message one_chat 11 9 5 ''user'' [(''text'', JStr ''draw a red panda'')] (Some ''m1'') one_chat)"

lemma panda_appended: "append_message one_chat 11 9 5 ''user'' [(''text'', JStr ''draw a red panda'')] (Some ''m1'') one_chat =
    (Inr panda_message, panda_chat)"
  by (simp add: panda_chat_def append_message_def find_replay_def client_message_def one_chat_def create_conversation_def
      next_sequence_no_def violates_unique_def panda_message_def Let_def)

lemma panda_process: "panda_request client one_chat mem_init =
    process_routed_message plain_env mem_port default_settings client 9 1 12 5 7 panda_message default_options panda_chat panda_chat mem_init"
proof -
  from panda_owned obtain c where "get_owned_conversation one_chat (uuid_text 5) 7 = Inr c" "cv_id c = 5" by blast
  then show ?thesis by (simp add: panda_request_def smart_message_def panda_appended mem_init_def)
qed

lemma panda_still_owned: "\<exists>c. get_owned_conversation panda_chat (uuid_text 5) 7 = Inr c \<and> cv_id c = 5"
  by (simp add: get_owned_conversation_iff panda_chat_def append_message_def find_replay_def client_message_def one_chat_def
      create_conversation_def next_sequence_no_def violates_unique_def conversation_by_id_def set_conversation_def Let_def)

lemma panda_process_again: "smart_message plain_env mem_port default_settings (Some client) 9 11 12 i (uuid_text 5) 7
      ''draw a red panda'' (Some ''m1'') id id panda_chat panda_chat q =
    process_routed_message plain_env mem_port default_settings client 9 i 12 5 7 panda_message default_options panda_chat panda_chat q"
proof -
  have "append_message panda_chat 11 9 5 ''user'' [(''text'', JStr ''draw a red panda'')] (Some ''m1'') panda_chat = (Inr panda_message, panda_chat)"
    by (simp add: panda_chat_def append_message_def find_replay_def client_message_def one_chat_def create_conversation_def
        next_sequence_no_def violates_unique_def panda_message_def set_conversation_def Let_def)
  moreover obtain c where "get_owned_conversation panda_chat (uuid_text 5) 7 = Inr c" "cv_id c = 5"
    using panda_still_owned by blast
  ultimately show ?thesis by (simp add: smart_message_def)
qed

lemma panda_step:
  "process_routed_message plain_env mem_port default_settings (fixed_client POSTER) 9 i 12 5 7 panda_message default_options db db q =
    (case start_image plain_env mem_port default_settings 9 i 5 7 panda_message ''poster_infographic''
        (paid_inputs ''poster'' ''a red panda'' []) (paid_image_key 11) q of (r, q) \<Rightarrow> (r, db, q))"
  "process_routed_message plain_env mem_port default_settings (fixed_client INFOGRAPHIC) 9 i 12 5 7 panda_message default_options db db q =
    (case start_image plain_env mem_port default_settings 9 i 5 7 panda_message ''poster_infographic''
        (paid_inputs ''infographic'' ''a red panda'' []) (paid_image_key 11) q of (r, q) \<Rightarrow> (r, db, q))"
  "process_routed_message plain_env mem_port default_settings (fixed_client GENERAL_IMAGE) 9 i 12 5 7 panda_message default_options db db q =
    (case start_image plain_env mem_port default_settings 9 i 5 7 panda_message ''image_basic''
        (image_inputs default_options ''a red panda'' []) (general_image_key 11) q of (r, q) \<Rightarrow> (r, db, q))"
  by (simp_all add: process_routed_message_unfold default_options_def decide_next_step_def panda_decision_def panda_message_def Let_def)

definition panda_job :: "uuid \<Rightarrow> string \<Rightarrow> dict \<Rightarrow> string \<Rightarrow> queued_job" where
  "panda_job i kd inputs key = new_queued_job i 7 kd Queued 0 0 inputs key 9 (Some 5)"

lemma default_caps [simp]: "global_queue_cap default_settings = 5000" "max_queued_jobs_per_user default_settings = 3"
  "default_gemini_active_slots default_settings = 3" "estimated_job_duration_s default_settings = 60"
  by (simp_all add: default_settings_def)

definition panda_queue :: mem_queue where
  "panda_queue = mem_enqueue (panda_job 1 ''poster_infographic'' (paid_inputs ''poster'' ''a red panda'' []) (paid_image_key 11)) mem_init"

lemma panda_key_neq [simp]: "general_image_key i \<noteq> paid_image_key j"
  by (simp add: general_image_key_def paid_image_key_def)

lemma panda_poster: "\<exists>r. start_image plain_env mem_port default_settings 9 1 5 7 panda_message ''poster_infographic''
    (paid_inputs ''poster'' ''a red panda'' []) (paid_image_key 11) mem_init = (Inr r, panda_queue)"
  by (simp add: start_image_def admit_generation_job_def resolve_workflow_known normalise_inputs_def paid_inputs_def
      get_json_def mem_find_by_idempotency_key_def mem_init_def check_idempotency_def panda_queue_def panda_job_def
      check_caps_def mem_count_global_backlog_def mem_count_conversation_backlog_def enqueue_new_def Let_def)

lemma panda_find: "mem_find_by_idempotency_key 7 key kd panda_queue =
    (if key = paid_image_key 11 \<and> kd = ''poster_infographic''
     then Some (panda_job 1 ''poster_infographic'' (paid_inputs ''poster'' ''a red panda'' []) (paid_image_key 11)) else None)"
  by (auto simp: panda_queue_def mem_enqueue_def mem_find_by_idempotency_key_def mem_init_def panda_job_def new_queued_job_def)

lemma panda_hashes: "payload_hash plain_env (paid_inputs ''poster'' ''a red panda'' []) \<noteq>
    payload_hash plain_env (paid_inputs ''infographic'' ''a red panda'' [])"
  by code_simp

lemma panda_conflict: "start_image plain_env mem_port default_settings 9 2 5 7 panda_message ''poster_infographic''
    (paid_inputs ''infographic'' ''a red panda'' []) (paid_image_key 11) panda_queue =
  (Inl (http 500 ''failed to start image generation''), panda_queue)"
  using panda_hashes
  by (simp add: start_image_def admit_generation_job_def resolve_workflow_known normalise_inputs_def
      get_json_def panda_find check_idempotency_def payload_hash_def panda_job_def chat_admission_http_def Let_def)

lemma panda_second: "\<exists>r inputs. start_image plain_env mem_port default_settings 9 2 5 7 panda_message ''image_basic''
    (image_inputs default_options ''a red panda'' []) (general_image_key 11) panda_queue =
  (Inr r, mem_enqueue (panda_job 2 ''image_basic'' inputs (general_image_key 11)) panda_queue)"
proof -
  have "dmem ''student'' (build_profiles default_settings)"
    by (simp add: build_profiles_def default_settings_def dmem_def DEFAULT_PROFILE_KEY_def Let_def)
  then have "resolve_profile_key rp JNull (build_profiles default_settings) = Inr ''student''" for rp
    by (simp add: resolve_profile_key_def py_strip_def DEFAULT_PROFILE_KEY_def)
  then have "\<exists>i. normalise_inputs plain_env default_settings \<lparr>wf_name = ''image_basic'', wf_version = ''v1'',
     wf_model_family = ''sdxl'', wf_graph_template = [], wf_backend = ''comfyui''\<rparr> (image_inputs default_options ''a red panda'' []) = Inr i"
    by (simp add: normalise_inputs_def image_inputs_def default_options_def opt_json_def get_json_def validate_overrides_def)
  moreover have "check_caps mem_port default_settings 7 (Some 5) panda_queue = None"
    by (simp add: check_caps_def panda_queue_def mem_enqueue_def mem_init_def mem_count_global_backlog_def
        mem_count_conversation_backlog_def panda_job_def new_queued_job_def Let_def)
  ultimately show ?thesis
    by (auto simp: start_image_def admit_generation_job_def resolve_workflow_known panda_find
        check_idempotency_def enqueue_new_def panda_job_def Let_def)
qed

lemma panda_again_results:
  "fst (panda_again POSTER INFOGRAPHIC) = Inl (http 500 ''failed to start image generation'')"
  "\<exists>inputs. snd (snd (panda_again POSTER GENERAL_IMAGE)) = mem_enqueue (panda_job 2 ''image_basic'' inputs (general_image_key 11)) panda_queue"
proof -
  obtain r where "panda_first POSTER = (Inr r, panda_chat, panda_queue)"
    using panda_poster by (auto simp: panda_first_def panda_process panda_step)
  moreover have "length (mq_jobs panda_queue) = 1" by (simp add: panda_queue_def mem_enqueue_def mem_init_def)
  ultimately have again: "panda_again POSTER i = process_routed_message plain_env mem_port default_settings (fixed_client i) 9 2 12 5 7
      panda_message default_options panda_chat panda_chat panda_queue" for i
    by (simp add: panda_again_def panda_request_def panda_process_again numeral_2_eq_2)
  show "fst (panda_again POSTER INFOGRAPHIC) = Inl (http 500 ''failed to start image generation'')"
    by (simp add: again panda_step panda_conflict)
  show "\<exists>inputs. snd (snd (panda_again POSTER GENERAL_IMAGE)) = mem_enqueue (panda_job 2 ''image_basic'' inputs (general_image_key 11)) panda_queue"
    using panda_second by (auto simp: again panda_step)
qed

lemma panda_starts: "snd (snd (panda_first POSTER)) \<noteq> mem_init"
proof -
  have "panda_queue \<noteq> mem_init" by (simp add: panda_queue_def mem_enqueue_def mem_init_def)
  with panda_poster show ?thesis by (auto simp: panda_first_def panda_process panda_step)
qed



definition panda_on_pg :: "text_client \<Rightarrow> string \<Rightarrow> uuid \<Rightarrow> chat_db \<Rightarrow> pg_db \<Rightarrow> (http_error + smart_message_out) \<times> chat_db \<times> pg_db" where
  "panda_on_pg client txt job_id db q = smart_message plain_env (pg_port (\<lambda>_. False)) default_settings (Some client) 9 11 12
     job_id (uuid_text 5) 7 txt (Some ''m1'') id id db db q"

definition panda_pg :: pg_db where
  "panda_pg = example_db\<lparr>known_conversations := [5]\<rparr>"

lemma panda_answered: "\<exists>out j. fst (panda_on_pg (fixed_client POSTER) ''draw a red panda'' 1 one_chat panda_pg) = Inr out \<and> so_job out = Some j"
proof -
  obtain c where c: "get_owned_conversation one_chat (uuid_text 5) 7 = Inr c" "cv_id c = 5" using panda_owned by blast
  have "\<exists>a q. admit_generation_job plain_env (pg_port (\<lambda>_. False)) default_settings 9 1 7 ''poster_infographic'' ''v1''
      (paid_inputs ''poster'' ''a red panda'' []) (paid_image_key 11) (Some 5) panda_pg = Inr (a, q)"
    by (simp add: admit_generation_job_def resolve_workflow_known normalise_inputs_def paid_inputs_def
      get_json_def pg_port_def pg_find_by_idempotency_key_def first_job_def select_jobs_def example_db_def panda_pg_def
      check_idempotency_def check_caps_def pg_count_global_backlog_def pg_count_conversation_backlog_def
      count_rows_def enqueue_new_def Let_def pg_enqueue_def resolve_workflow_defaults_def
      list_workflows_def REGISTRY_def violates_def new_queued_job_def)
  then have "\<exists>out j q. start_image plain_env (pg_port (\<lambda>_. False)) default_settings 9 1 5 7 panda_message ''poster_infographic''
      (paid_inputs ''poster'' ''a red panda'' []) (paid_image_key 11) panda_pg = (Inr out, q) \<and> so_job out = Some j"
    by (auto simp: start_image_def)
  then show ?thesis
    using c by (auto simp: panda_on_pg_def smart_message_def panda_appended process_routed_message_unfold default_options_def
        decide_next_step_def panda_decision_def panda_message_def Let_def)
qed


text \<open>If the model decides differently about the same message, the retry is not harmless: first a poster,
  then an image, and one message has two jobs, a paid one and a local one; first a poster, then an
  infographic, and the retry fails with an internal error.\<close>
theorem reclassified_retry_misbehaves:
  "map (j_kind \<circ> snd) (mq_jobs (snd (snd (panda_again POSTER GENERAL_IMAGE)))) = [''poster_infographic'', ''image_basic''] \<and>
   fst (panda_again POSTER INFOGRAPHIC) = Inl (http 500 ''failed to start image generation'')"
  using panda_again_results by (auto simp: panda_queue_def mem_enqueue_def mem_init_def panda_job_def)

end
