(* ===== verification/Agent_Router.thy ===== *)
theory Agent_Router
  imports Chat_Router Rate_Limit
begin

section \<open>The machine-to-machine chat endpoint (api/v1/agent_router.py)\<close>

text \<open>
  One request of another system on behalf of one of its users: the conversation is found or created
  by the caller's own reference, the message takes the route of \<open>Chat_Router\<close>, and the answer may be
  held back until the job has ended. The conversation is created in the transaction of its first
  message. The waiting loop has no bound of its own but the clock: it is a partial function.
\<close>

subsection \<open>The request\<close>

record agent_message_in =
  ai_external_conversation_id :: string
  ai_text :: string
  ai_client_message_id :: "string option"
  ai_wait :: bool
  ai_wait_timeout_s :: "pyfloat option"
  ai_options :: route_options

text \<open>The constraints of the fields; a request that breaks one is answered 422 by the framework.\<close>

definition float_less :: "pyfloat \<Rightarrow> pyfloat \<Rightarrow> bool" where
  "float_less a b \<longleftrightarrow> float_le a b \<and> \<not> float_le b a"

definition valid_agent_message_in :: "agent_message_in \<Rightarrow> bool" where
  "valid_agent_message_in m \<longleftrightarrow>
     1 \<le> length (ai_external_conversation_id m) \<and> length (ai_external_conversation_id m) \<le> 200 \<and>
     1 \<le> length (ai_text m) \<and>
     (case ai_wait_timeout_s m of None \<Rightarrow> True | Some t \<Rightarrow> float_less (Fin 0) t) \<and>
     (case ro_model_profile (ai_options m) of None \<Rightarrow> True | Some p \<Rightarrow> length p \<le> 64)"

subsection \<open>Waiting for the job\<close>

definition WAIT_DEFAULT_TIMEOUT_S :: pyfloat where
  "WAIT_DEFAULT_TIMEOUT_S = Fin 100"

definition WAIT_MAX_TIMEOUT_S :: pyfloat where
  "WAIT_MAX_TIMEOUT_S = Fin 170"

definition WAIT_MIN_TIMEOUT_S :: pyfloat where
  "WAIT_MIN_TIMEOUT_S = Fin 5"

definition WAIT_POLL_INTERVAL_S :: rat where
  "WAIT_POLL_INTERVAL_S = 2"

definition TERMINAL_JOB_STATES :: "string list" where
  "TERMINAL_JOB_STATES = [''succeeded'', ''failed'', ''cancelled'']"

definition py_max :: "pyfloat \<Rightarrow> pyfloat \<Rightarrow> pyfloat" where
  "py_max a b = (if float_less a b then b else a)"

definition py_min :: "pyfloat \<Rightarrow> pyfloat \<Rightarrow> pyfloat" where
  "py_min a b = (if float_less b a then b else a)"

definition wait_timeout :: "pyfloat option \<Rightarrow> pyfloat" where
  "wait_timeout t =
     py_min (py_max (case t of Some f \<Rightarrow> if f \<noteq> Fin 0 then f else WAIT_DEFAULT_TIMEOUT_S | None \<Rightarrow> WAIT_DEFAULT_TIMEOUT_S)
       WAIT_MIN_TIMEOUT_S) WAIT_MAX_TIMEOUT_S"

text \<open>Poll \<open>i\<close> sees \<open>poll i\<close>, and the loop reads the clock as \<open>clock i\<close> after it; between two polls it
  sleeps \<open>pause deadline (clock i)\<close> seconds. The result: the job last seen, and how many polls
  came before that one.\<close>

definition pause :: "rat \<Rightarrow> rat \<Rightarrow> rat" where
  "pause deadline now = min WAIT_POLL_INTERVAL_S (deadline - now)"

partial_function (option) wait_for_terminal_state ::
  "(nat \<Rightarrow> queued_job option) \<Rightarrow> (nat \<Rightarrow> rat) \<Rightarrow> rat \<Rightarrow> nat \<Rightarrow> (queued_job option \<times> nat) option" where
  "wait_for_terminal_state poll clock deadline i =
     (case poll i of
        None \<Rightarrow> Some (None, i)
      | Some job \<Rightarrow>
          if state_str (j_state job) \<in> set TERMINAL_JOB_STATES then Some (Some job, i)
          else if deadline - clock i \<le> 0 then Some (Some job, i)
          else wait_for_terminal_state poll clock deadline (Suc i))"

subsection \<open>The conversation of a reference\<close>

definition conversation_by_ref :: "uuid \<Rightarrow> string \<Rightarrow> chat_db \<Rightarrow> conversation option" where
  "conversation_by_ref user external_ref db =
     find (\<lambda>c. cv_user_id c = user \<and> cv_external_ref c = Some external_ref) (cd_conversations db)"

definition agent_conversation :: "uuid \<Rightarrow> time \<Rightarrow> uuid \<Rightarrow> string \<Rightarrow> conversation" where
  "agent_conversation new_id now user external_ref =
     \<lparr>cv_id = new_id, cv_user_id = user, cv_title = take 200 (''agent:'' @ external_ref), cv_status = ''active'',
      cv_external_ref = Some external_ref, cv_created_at = now, cv_updated_at = now, cv_deleted_at = None\<rparr>"

text \<open>The unique index of \<open>conversations\<close> is on the user and the reference; a request that loses the
  race takes the row that won, as it is.\<close>

definition get_or_create_conversation_by_external_ref ::
  "chat_db \<Rightarrow> uuid \<Rightarrow> time \<Rightarrow> uuid \<Rightarrow> string \<Rightarrow> chat_db \<Rightarrow> (http_error + conversation) \<times> chat_db"
where
  "get_or_create_conversation_by_external_ref seen new_id now user external_ref db =
     (case conversation_by_ref user external_ref seen of
        Some existing \<Rightarrow>
          (if cv_deleted_at existing \<noteq> None then (Inl (http 410 ''conversation was deleted''), db) else (Inr existing, db))
      | None \<Rightarrow>
          (case conversation_by_ref user external_ref db of
             Some existing \<Rightarrow> (Inr existing, db)
           | None \<Rightarrow>
               let conv = agent_conversation new_id now user external_ref
               in (Inr conv, db\<lparr>cd_conversations := cd_conversations db @ [conv]\<rparr>)))"

subsection \<open>The endpoint\<close>

text \<open>The times, ids and other requests a run meets.\<close>

record 'q agent_context =
  ac_now :: time
  ac_conversation_id :: uuid
  ac_message_id :: uuid
  ac_reply_id :: uuid
  ac_job_id :: uuid
  ac_seen :: chat_db
  ac_early :: "chat_db \<Rightarrow> chat_db"
  ac_late :: "chat_db \<Rightarrow> chat_db"
  ac_polls :: "nat \<Rightarrow> 'q"
  ac_clock :: "nat \<Rightarrow> rat"
  ac_wait_start :: rat

definition seen_job :: "generation_out \<Rightarrow> queued_job \<Rightarrow> generation_out" where
  "seen_job out job = out\<lparr>go_state := j_state job, go_error_code := j_error_code job, go_error_detail := j_error_detail job\<rparr>"

text \<open>\<open>None\<close> where the wait does not end. Only NaN gives a timeout that is no number, and the field's
  constraint excludes it.\<close>

definition await_job ::
  "'q job_queue_port \<Rightarrow> 'q agent_context \<Rightarrow> agent_message_in \<Rightarrow> smart_message_out \<Rightarrow> (http_error + smart_message_out) option" where
  "await_job P ctx payload result =
     (case so_job result of
        None \<Rightarrow> Some (Inr result)
      | Some j \<Rightarrow>
          if \<not> ai_wait payload then Some (Inr result)
          else case (parse_uuid (go_id j), wait_timeout (ai_wait_timeout_s payload)) of
              (None, _) \<Rightarrow> Some (Inl (unhandled ''ValueError''))
            | (Some i, Fin timeout_s) \<Rightarrow>
                map_option (\<lambda>(job, n). Inr (case job of None \<Rightarrow> result | Some job \<Rightarrow> result\<lparr>so_job := Some (seen_job j job)\<rparr>))
                  (wait_for_terminal_state (\<lambda>n. jq_get P i (ac_polls ctx n)) (ac_clock ctx) (ac_wait_start ctx + timeout_s) 0)
            | _ \<Rightarrow> None)"

definition agent_message ::
  "py_env \<Rightarrow> 'q job_queue_port \<Rightarrow> settings \<Rightarrow> text_client option \<Rightarrow> 'r redis_client option \<Rightarrow> 'q agent_context \<Rightarrow> uuid
     \<Rightarrow> agent_message_in \<Rightarrow> chat_db \<Rightarrow> 'q \<Rightarrow> 'r \<Rightarrow> (http_error + smart_message_out) option \<times> chat_db \<times> 'q \<times> 'r"
where
  "agent_message E P s gemini redis ctx user payload db q w =
     (case gemini of
        None \<Rightarrow> (Some (Inl (http 503 ''chat routing is not configured (APP_GEMINI_API_KEY unset)'')), db, q, w)
      | Some client \<Rightarrow>
          let external_ref = py_strip (ai_external_conversation_id payload) in
          if external_ref = [] then
            (Some (Inl (http 400 ''external_conversation_id must not be blank'')), db, q, w)
          else case check_rate_limit redis ''message'' (uuid_text user @ '':'' @ external_ref) (rl_message_per_min s) 60 (ac_now ctx) w of
              (False, w) \<Rightarrow> (Some (Inl \<lparr>he_status = 429, he_detail = ''Too many requests, please slow down'',
                  he_retry_after = Some (seconds_until_window_reset 60 (ac_now ctx))\<rparr>), db, q, w)
            | (True, w) \<Rightarrow>
                (case get_or_create_conversation_by_external_ref (ac_seen ctx) (ac_conversation_id ctx) (ac_now ctx) user
                        external_ref db of
                   (Inl e, db) \<Rightarrow> (Some (Inl e), db, q, w)
                 | (Inr conv, db) \<Rightarrow>
                     (case append_message (ac_seen ctx) (ac_message_id ctx) (ac_now ctx) (cv_id conv) ''user''
                             [(''text'', JStr (ai_text payload))] (ai_client_message_id payload) db of
                        (Inl e, db) \<Rightarrow> (Some (Inl e), db, q, w)
                      | (Inr user_msg, db) \<Rightarrow>
                          let db = ac_early ctx db
                          in case process_routed_message E P s client (ac_now ctx) (ac_job_id ctx) (ac_reply_id ctx) (cv_id conv)
                                    user user_msg (ai_options payload) db (ac_late ctx db) q of
                               (Inl e, db, q) \<Rightarrow> (Some (Inl e), db, q, w)
                             | (Inr result, db, q) \<Rightarrow> (await_job P ctx payload result, db, q, w))))"

subsection \<open>The wait ends\<close>

lemma wait_timeout_range: "\<exists>t. wait_timeout x = Fin t \<and> 5 \<le> t \<and> t \<le> 170 \<or> x = Some NaN"
proof (cases x)
  case (Some f)
  then show ?thesis
    by (cases f) (auto simp: wait_timeout_def py_min_def py_max_def float_less_def WAIT_DEFAULT_TIMEOUT_S_def
        WAIT_MIN_TIMEOUT_S_def WAIT_MAX_TIMEOUT_S_def)
qed (simp add: wait_timeout_def py_min_def py_max_def float_less_def WAIT_DEFAULT_TIMEOUT_S_def
    WAIT_MIN_TIMEOUT_S_def WAIT_MAX_TIMEOUT_S_def)


lemma wait_timeout_fin: "t \<noteq> Some NaN \<Longrightarrow> \<exists>d. wait_timeout t = Fin d \<and> 5 \<le> d \<and> d \<le> 170"
  using wait_timeout_range [of t] by blast

lemmas wait_step = wait_for_terminal_state.simps

text \<open>After \<open>k\<close> sleeps the clock stands at least \<open>2 * k\<close> seconds on, or the deadline has passed.\<close>

lemma clock_after:
  assumes "start \<le> clock 0" and "\<And>i. clock i + pause deadline (clock i) \<le> clock (Suc i)"
  shows "min deadline (start + 2 * of_nat k) \<le> clock k"
proof (induction k)
  case (Suc k)
  with assms(2) [of k] show ?case by (auto simp: pause_def WAIT_POLL_INTERVAL_S_def min_def split: if_splits)
qed (use assms(1) in simp)

lemma wait_from:
  assumes "deadline \<le> clock (i + n)"
  shows "\<exists>job k. wait_for_terminal_state poll clock deadline i = Some (job, k) \<and> i \<le> k \<and> k \<le> i + n \<and> job = poll k \<and>
    (\<forall>m. i \<le> m \<and> m < k \<longrightarrow> (\<exists>j. poll m = Some j \<and> state_str (j_state j) \<notin> set TERMINAL_JOB_STATES)) \<and>
    (\<forall>j. job = Some j \<longrightarrow> state_str (j_state j) \<in> set TERMINAL_JOB_STATES \<or> deadline \<le> clock k)"
  using assms
proof (induction n arbitrary: i)
  case 0
  then show ?case by (subst wait_step) (auto split: option.splits intro!: exI [of _ i])
next
  case (Suc n)
  show ?case
  proof (cases "\<exists>j. poll i = Some j \<and> state_str (j_state j) \<notin> set TERMINAL_JOB_STATES \<and> clock i < deadline")
    case True
    then obtain j where j: "poll i = Some j" "state_str (j_state j) \<notin> set TERMINAL_JOB_STATES" "clock i < deadline" by blast
    then have "wait_for_terminal_state poll clock deadline i = wait_for_terminal_state poll clock deadline (Suc i)"
      by (subst wait_step) simp
    moreover from Suc.prems have "deadline \<le> clock (Suc i + n)" by simp
    note Suc.IH [OF this]
    moreover have "(\<forall>m. i \<le> m \<and> m < k \<longrightarrow> Q m) \<longleftrightarrow> (\<forall>m. Suc i \<le> m \<and> m < k \<longrightarrow> Q m)" if "Q i" for Q k
      using that by (metis Suc_leI le_eq_less_or_eq Suc_leD)
    ultimately show ?thesis using j by fastforce
  next
    case False
    then show ?thesis by (subst wait_step) (auto split: option.splits intro!: exI [of _ i])
  qed
qed

text \<open>So the endpoint answers.\<close>

lemma agent_message_answers:
  assumes "valid_agent_message_in payload" "ac_wait_start ctx \<le> ac_clock ctx 0"
    and "\<And>d i. wait_timeout (ai_wait_timeout_s payload) = Fin d \<Longrightarrow>
      ac_clock ctx i + pause (ac_wait_start ctx + d) (ac_clock ctx i) \<le> ac_clock ctx (Suc i)"
  shows "fst (agent_message E P s gemini redis ctx user payload db q w) \<noteq> None"
proof -
  have "ai_wait_timeout_s payload \<noteq> Some NaN"
    using assms(1) by (auto simp: valid_agent_message_in_def float_less_def)
  then obtain d where d: "wait_timeout (ai_wait_timeout_s payload) = Fin d" "5 \<le> d" "d \<le> 170" using wait_timeout_fin by blast
  from clock_after [of "ac_wait_start ctx" "ac_clock ctx" "ac_wait_start ctx + d" 85, OF assms(2) assms(3) [OF d(1)]] d(3)
  have "ac_wait_start ctx + d \<le> ac_clock ctx (0 + 85)" by (simp add: min_def split: if_splits)
  from wait_from [of "ac_wait_start ctx + d" "ac_clock ctx" 0 85, OF this]
  have ends: "wait_for_terminal_state poll (ac_clock ctx) (ac_wait_start ctx + d) 0 \<noteq> None" for poll by force
  have waits: "await_job P ctx payload result \<noteq> None" for result
  proof (cases "so_job result")
    case (Some j)
    then show ?thesis
      by (cases "parse_uuid (go_id j)") (simp_all add: await_job_def d(1) ends del: not_None_eq)
  qed (simp add: await_job_def)
  let ?ref = "py_strip (ai_external_conversation_id payload)"
  obtain b w1 where rl: "check_rate_limit redis ''message'' (uuid_text user @ '':'' @ ?ref) (rl_message_per_min s) 60 (ac_now ctx) w = (b, w1)"
    by (metis surj_pair)
  obtain c db1 where conv: "get_or_create_conversation_by_external_ref (ac_seen ctx) (ac_conversation_id ctx) (ac_now ctx) user ?ref db = (c, db1)"
    by (metis surj_pair)
  show ?thesis
  proof (cases gemini)
    case (Some client)
    note unfolded = agent_message_def Some rl [unfolded append.simps] conv
    show ?thesis
    proof (cases c)
      case (Inr conv')
      obtain m db2 where m: "append_message (ac_seen ctx) (ac_message_id ctx) (ac_now ctx) (cv_id conv') ''user''
          [(''text'', JStr (ai_text payload))] (ai_client_message_id payload) db1 = (m, db2)" by (metis surj_pair)
      show ?thesis
      proof (cases m)
        case Inr': (Inr user_msg)
        obtain r db3 q3 where "process_routed_message E P s client (ac_now ctx) (ac_job_id ctx) (ac_reply_id ctx) (cv_id conv')
            user user_msg (ai_options payload) (ac_early ctx db2) (ac_late ctx (ac_early ctx db2)) q = (r, db3, q3)" by (metis surj_pair)
        then show ?thesis using waits by (cases r; cases b) (simp_all add: unfolded Inr m Inr' Let_def del: not_None_eq)
      qed (cases b; simp add: unfolded Inr m Let_def)
    qed (cases b; simp add: unfolded Let_def)
  qed (simp add: agent_message_def)
qed

subsection \<open>One conversation per reference\<close>

definition fresh_conversation :: "uuid \<Rightarrow> chat_db \<Rightarrow> bool" where
  "fresh_conversation i db \<longleftrightarrow> conversation_by_id i db = None"

inductive chat_step :: "chat_db \<Rightarrow> chat_db \<Rightarrow> bool" where
  Append: "append_message seen i now conv role content k db = (r, db') \<Longrightarrow> chat_step db db'"
| Create: "create_conversation i now title user db = (out, db') \<Longrightarrow> fresh_conversation i db \<Longrightarrow> chat_step db db'"
| Delete: "delete_conversation now conversation_id user db = (r, db') \<Longrightarrow> chat_step db db'"
| Agent: "get_or_create_conversation_by_external_ref seen i now user ref db = (c, db') \<Longrightarrow> fresh_conversation i db \<Longrightarrow> chat_step db db'"

abbreviation chat_run :: "chat_db \<Rightarrow> chat_db \<Rightarrow> bool" where
  "chat_run \<equiv> chat_step\<^sup>*\<^sup>*"

text \<open>What never changes about a conversation.\<close>

definition conv_key :: "conversation \<Rightarrow> uuid \<times> uuid \<times> string option" where
  "conv_key c = (cv_id c, cv_user_id c, cv_external_ref c)"

definition conv_keys :: "chat_db \<Rightarrow> (uuid \<times> uuid \<times> string option) list" where
  "conv_keys db = map conv_key (cd_conversations db)"

definition keys_ok :: "(uuid \<times> uuid \<times> string option) list \<Rightarrow> bool" where
  "keys_ok ks \<longleftrightarrow> distinct (map fst ks) \<and> distinct (map snd (filter (\<lambda>k. snd (snd k) \<noteq> None) ks))"

lemma conv_keys_set [simp]: "(\<And>c. conv_key (f c) = conv_key c) \<Longrightarrow> conv_keys (set_conversation i f db) = conv_keys db"
  by (simp add: conv_keys_def set_conversation_def)

lemma conv_keys_messages [simp]: "conv_keys (db\<lparr>cd_messages := ms\<rparr>) = conv_keys db"
  by (simp add: conv_keys_def)

lemma conv_keys_append [simp]: "conv_keys (db\<lparr>cd_conversations := cd_conversations db @ [c]\<rparr>) = conv_keys db @ [conv_key c]"
  by (simp add: conv_keys_def)

lemma by_ref_None: "conversation_by_ref user ref db = None \<longleftrightarrow> (user, Some ref) \<notin> snd ` set (conv_keys db)"
  by (force simp: conversation_by_ref_def find_None_iff conv_keys_def conv_key_def image_iff)

lemma by_ref_Some: "conversation_by_ref user ref db = Some c \<Longrightarrow> (cv_id c, user, Some ref) \<in> set (conv_keys db)"
  by (force simp: conversation_by_ref_def conv_keys_def conv_key_def dest: find_in)

lemma fresh_key: "fresh_conversation i db \<longleftrightarrow> i \<notin> fst ` set (conv_keys db)"
  by (force simp: fresh_conversation_def conversation_by_id_def find_None_iff conv_keys_def conv_key_def image_iff)

lemma chat_step_keys:
  "chat_step db db' \<Longrightarrow> conv_keys db' = conv_keys db \<or>
    (\<exists>i u r. conv_keys db' = conv_keys db @ [(i, u, r)] \<and> i \<notin> fst ` set (conv_keys db) \<and> (r \<noteq> None \<longrightarrow> (u, r) \<notin> snd ` set (conv_keys db)))"
proof (induction rule: chat_step.induct)
  case (Append seen i now conv role content k db r db')
  then show ?case by (auto simp: append_message_def Let_def conv_key_def split: option.splits if_splits)
next
  case (Create i now title user db out db')
  then show ?case by (auto simp: create_conversation_def Let_def conv_key_def fresh_key)
next
  case (Delete now conversation_id user db r db')
  then show ?case by (auto simp: delete_conversation_def conv_key_def split: sum.splits)
next
  case (Agent seen i now user ref db c db')
  then show ?case
    by (auto simp: get_or_create_conversation_by_external_ref_def agent_conversation_def Let_def conv_key_def fresh_key by_ref_None
        split: option.splits if_splits)
qed

lemma chat_step_keys_ok: "chat_step db db' \<Longrightarrow> keys_ok (conv_keys db) \<Longrightarrow> keys_ok (conv_keys db')"
  by (drule chat_step_keys) (auto simp: keys_ok_def)

lemma chat_run_keys_ok: "chat_run db db' \<Longrightarrow> keys_ok (conv_keys db) \<Longrightarrow> keys_ok (conv_keys db')"
  by (induction rule: rtranclp_induct) (auto intro: chat_step_keys_ok)

lemma chat_run_keys: "chat_run db db' \<Longrightarrow> set (conv_keys db) \<subseteq> set (conv_keys db')"
proof (induction rule: rtranclp_induct)
  case (step y z)
  with chat_step_keys [OF step(2)] show ?case by auto
qed simp

lemma keys_ok_ref: "keys_ok ks \<Longrightarrow> (i, u, Some r) \<in> set ks \<Longrightarrow> (j, u, Some r) \<in> set ks \<Longrightarrow> i = j"
proof -
  assume "keys_ok ks" "(i, u, Some r) \<in> set ks" "(j, u, Some r) \<in> set ks"
  then have "distinct (map snd (filter (\<lambda>k. snd (snd k) \<noteq> None) ks))"
    "(i, u, Some r) \<in> set (filter (\<lambda>k. snd (snd k) \<noteq> None) ks)" "(j, u, Some r) \<in> set (filter (\<lambda>k. snd (snd k) \<noteq> None) ks)"
    by (simp_all add: keys_ok_def)
  from distinct_map_eq [OF this] show ?thesis by simp
qed

lemma keys_ok_id: "keys_ok ks \<Longrightarrow> (i, k) \<in> set ks \<Longrightarrow> (i, k') \<in> set ks \<Longrightarrow> k = k'"
  using distinct_map_eq [of fst ks "(i, k)" "(i, k')"] by (simp add: keys_ok_def)

text \<open>The conversation a request gets is the row of its reference afterwards.\<close>

lemma get_or_create_key:
  assumes "get_or_create_conversation_by_external_ref seen i now user ref db = (Inr c, db')" "chat_run seen db"
  shows "(cv_id c, user, Some ref) \<in> set (conv_keys db')"
  using assms chat_run_keys [OF assms(2)]
  by (auto simp: get_or_create_conversation_by_external_ref_def agent_conversation_def Let_def conv_key_def
      split: option.splits if_splits dest: by_ref_Some)

lemma get_or_create_again:
  assumes "keys_ok (conv_keys db)" "(i, user, Some ref) \<in> set (conv_keys db)" "chat_run seen db"
  shows "(\<exists>c. get_or_create_conversation_by_external_ref seen j now user ref db = (Inr c, db) \<and> cv_id c = i) \<or>
    get_or_create_conversation_by_external_ref seen j now user ref db = (Inl (http 410 ''conversation was deleted''), db)"
proof (cases "conversation_by_ref user ref seen")
  case None
  from assms(2) obtain c where c: "conversation_by_ref user ref db = Some c"
    by (cases "conversation_by_ref user ref db") (force simp: by_ref_None)+
  then have "cv_id c = i" using keys_ok_ref [OF assms(1) by_ref_Some assms(2)] by simp
  with c None show ?thesis by (simp add: get_or_create_conversation_by_external_ref_def)
next
  case (Some c)
  then have "(cv_id c, user, Some ref) \<in> set (conv_keys db)" using by_ref_Some chat_run_keys [OF assms(3)] by blast
  then have "cv_id c = i" using keys_ok_ref [OF assms(1) _ assms(2)] by simp
  with Some show ?thesis by (auto simp: get_or_create_conversation_by_external_ref_def)
qed

text \<open>The losing side of a race does not look at \<open>deleted_at\<close>: it goes on in a conversation that the
  same request would be refused a moment later.\<close>

lemma race_continues_deleted_conversation:
  assumes "conversation_by_ref user ref db = Some c" "cv_deleted_at c \<noteq> None" "conversation_by_ref user ref seen = None"
  shows "get_or_create_conversation_by_external_ref seen i now user ref db = (Inr c, db)"
    and "fst (get_or_create_conversation_by_external_ref db i now user ref db) = Inl (http 410 ''conversation was deleted'')"
  using assms by (auto simp: get_or_create_conversation_by_external_ref_def)

subsection \<open>Properties\<close>

text \<open>C34. A reference names one conversation: once a request of an account has been given a conversation for
  a reference, and whatever any users have created, written and deleted since, every later request of the
  account under that reference gets the same conversation or, if it was deleted, 410, and creates nothing;
  no request of another account or under another reference ever gets it.\<close>
theorem reference_names_one_conversation:
  assumes "cd_conversations db0 = []" "chat_run db0 db" "chat_run seen db" "fresh_conversation i db"
    and "get_or_create_conversation_by_external_ref seen i now user ref db = (Inr c, db1)"
    and "chat_run db1 db2" "chat_run seen2 db2"
  shows "((\<exists>c2. get_or_create_conversation_by_external_ref seen2 i2 now2 user ref db2 = (Inr c2, db2) \<and> cv_id c2 = cv_id c) \<or>
      get_or_create_conversation_by_external_ref seen2 i2 now2 user ref db2 = (Inl (http 410 ''conversation was deleted''), db2)) \<and>
    (\<forall>c3 db3. get_or_create_conversation_by_external_ref seen2 i2 now2 user3 ref3 db2 = (Inr c3, db3) \<and>
       fresh_conversation i2 db2 \<and> (user3, ref3) \<noteq> (user, ref) \<longrightarrow> cv_id c3 \<noteq> cv_id c)"
proof -
  have ok1: "keys_ok (conv_keys db1)"
    using chat_step_keys_ok [OF chat_step.Agent [OF assms(5,4)] chat_run_keys_ok [OF assms(2)]] assms(1)
    by (simp add: conv_keys_def keys_ok_def)
  have ok2: "keys_ok (conv_keys db2)" using chat_run_keys_ok [OF assms(6) ok1] .
  have key: "(cv_id c, user, Some ref) \<in> set (conv_keys db2)"
    using get_or_create_key [OF assms(5,3)] chat_run_keys [OF assms(6)] by blast
  have "cv_id c3 \<noteq> cv_id c" if "get_or_create_conversation_by_external_ref seen2 i2 now2 user3 ref3 db2 = (Inr c3, db3)"
    "fresh_conversation i2 db2" "(user3, ref3) \<noteq> (user, ref)" for c3 db3
  proof
    assume eq: "cv_id c3 = cv_id c"
    have st: "chat_step db2 db3" using chat_step.Agent [OF that(1,2)] .
    have "(cv_id c, user3, Some ref3) \<in> set (conv_keys db3)" using get_or_create_key [OF that(1) assms(7)] eq by simp
    moreover have "(cv_id c, user, Some ref) \<in> set (conv_keys db3)" using key chat_run_keys [OF r_into_rtranclp [of chat_step, OF st]] by blast
    ultimately show False using keys_ok_id [OF chat_step_keys_ok [OF st ok2]] that(3) by blast
  qed
  with get_or_create_again [OF ok2 key assms(7)] show ?thesis by blast
qed

text \<open>Two users of a chatbot that shares one account.\<close>

definition no_chats :: chat_db where
  "no_chats = \<lparr>cd_conversations = [], cd_messages = []\<rparr>"

definition ann_chat :: chat_db where
  "ann_chat = snd (get_or_create_conversation_by_external_ref no_chats 31 1 7 ''ann'' no_chats)"

theorem reference_names_one_conversation_witness:
  "\<exists>c. fst (get_or_create_conversation_by_external_ref no_chats 31 1 7 ''ann'' no_chats) = Inr c \<and>
    (\<forall>c3 db3. get_or_create_conversation_by_external_ref ann_chat 32 2 7 ''bob'' ann_chat = (Inr c3, db3) \<longrightarrow> cv_id c3 \<noteq> cv_id c)"
proof -
  have new: "get_or_create_conversation_by_external_ref no_chats 31 1 7 ''ann'' no_chats =
      (Inr (agent_conversation 31 1 7 ''ann''), ann_chat)"
    by (simp add: ann_chat_def get_or_create_conversation_by_external_ref_def no_chats_def conversation_by_ref_def Let_def)
  have fresh: "fresh_conversation 31 no_chats" "fresh_conversation 32 ann_chat"
    by (simp_all add: fresh_key conv_keys_def ann_chat_def no_chats_def get_or_create_conversation_by_external_ref_def
        conversation_by_ref_def agent_conversation_def conv_key_def Let_def)
  have "cd_conversations no_chats = []" by (simp add: no_chats_def)
  from reference_names_one_conversation [OF this rtranclp.rtrancl_refl rtranclp.rtrancl_refl fresh(1) new rtranclp.rtrancl_refl
      rtranclp.rtrancl_refl, of 32 2 7 "''bob''"] new fresh(2)
  show ?thesis by auto
qed

text \<open>C33. Waiting for a job ends: whatever the queue answers, if no sleep ends before its time then a
  request that waits gets an answer within 86 polls; it is the job as the last poll saw it, every earlier
  poll saw an unfinished job, and the last is finished, or gone, or at least five seconds have passed.\<close>
theorem agent_wait_ends:
  assumes "t \<noteq> Some NaN" "wait_timeout t = Fin timeout_s" "start \<le> clock 0"
    and "\<And>i. clock i + pause (start + timeout_s) (clock i) \<le> clock (Suc i)"
  shows "\<exists>job n. wait_for_terminal_state poll clock (start + timeout_s) 0 = Some (job, n) \<and> n \<le> 85 \<and> job = poll n \<and>
    (\<forall>m < n. \<exists>j. poll m = Some j \<and> state_str (j_state j) \<notin> set TERMINAL_JOB_STATES) \<and>
    (\<forall>j. job = Some j \<longrightarrow> state_str (j_state j) \<in> set TERMINAL_JOB_STATES \<or> start + 5 \<le> clock n)"
proof -
  from wait_timeout_fin [OF assms(1)] assms(2) have d: "5 \<le> timeout_s" "timeout_s \<le> 170" by auto
  from clock_after [of start clock, OF assms(3,4), of 85] d(2) have "start + timeout_s \<le> clock (0 + 85)"
    by (simp add: min_def split: if_splits)
  from wait_from [of "start + timeout_s" clock 0 85 poll, OF this] d(1) show ?thesis by fastforce
qed

theorem agent_wait_ends_witness:
  "\<exists>job n. wait_for_terminal_state (\<lambda>i. Some (if i < 3 then panda_job 1 [] [] [] else (panda_job 1 [] [] [])\<lparr>j_state := Succeeded\<rparr>))
     (\<lambda>i. 7 + 2 * of_nat i) (7 + 100) 0 = Some (job, n) \<and> n \<le> 85"
proof -
  have "wait_timeout None = Fin 100"
    by (simp add: wait_timeout_def py_min_def py_max_def float_less_def WAIT_DEFAULT_TIMEOUT_S_def
        WAIT_MIN_TIMEOUT_S_def WAIT_MAX_TIMEOUT_S_def)
  from agent_wait_ends [of None 100 7 "\<lambda>i. 7 + 2 * of_nat i", OF _ this]
  show ?thesis by (fastforce simp: pause_def WAIT_POLL_INTERVAL_S_def)
qed

end
