(* ===== verification/S3_Storage.thy ===== *)
theory S3_Storage
  imports Storage Settings Py_Codec
begin

section \<open>The S3 adapter (adapters/storage/s3.py)\<close>

text \<open>
  The second implementation of the storage port. The boto3 client is a parameter: a record of the
  five calls the code makes, over a world \<open>'w\<close>, each of which may raise a \<open>ClientError\<close>. What the
  clients of the port rely on is the locale \<open>object_storage\<close>; the in-memory adapter satisfies it
  as it is, this one on any service that behaves as S3 documents (\<open>s3_documented\<close>).
\<close>

subsection \<open>Definitions\<close>

text \<open>What the code reads of a \<open>ClientError\<close>: \<open>response["Error"]["Code"]\<close>, if it is there.\<close>

record client_error =
  ce_code :: "string option"

record 'w s3_service =
  s3_put :: "string \<Rightarrow> string \<Rightarrow> string \<Rightarrow> string \<Rightarrow> string \<Rightarrow> 'w \<Rightarrow> (client_error + unit) \<times> 'w"
  s3_get :: "string \<Rightarrow> string \<Rightarrow> 'w \<Rightarrow> (client_error + string) \<times> 'w"
  s3_delete :: "string \<Rightarrow> string \<Rightarrow> 'w \<Rightarrow> (client_error + unit) \<times> 'w"
  s3_head :: "string \<Rightarrow> string \<Rightarrow> 'w \<Rightarrow> (client_error + unit) \<times> 'w"
  s3_presign :: "string \<Rightarrow> string \<Rightarrow> int \<Rightarrow> 'w \<Rightarrow> (client_error + string) \<times> 'w"

record s3_object_storage =
  so_bucket :: string
  so_default_ttl_s :: int

definition s3_object_storage_init :: "settings \<Rightarrow> s3_object_storage" where
  "s3_object_storage_init s = \<lparr>so_bucket = s3_bucket s, so_default_ttl_s = signed_url_ttl_s s\<rparr>"

datatype storage_fault = Fault_Key storage_error | Fault_Client client_error

text \<open>\<open>base64.b64encode(md5(data).digest())\<close>; \<open>md5\<close> gives the digest's bytes.\<close>

definition std_b64_char :: "char \<Rightarrow> char" where
  "std_b64_char c = (if c = CHR ''-'' then CHR ''+'' else if c = CHR ''_'' then CHR ''/'' else c)"

definition content_md5_b64 :: "(string \<Rightarrow> nat list) \<Rightarrow> string \<Rightarrow> string" where
  "content_md5_b64 md5 data = map std_b64_char (b64encode (md5 data))"

definition s3_put_object ::
  "'w s3_service \<Rightarrow> (string \<Rightarrow> nat list) \<Rightarrow> s3_object_storage \<Rightarrow> string \<Rightarrow> string \<Rightarrow> string \<Rightarrow> 'w \<Rightarrow> (storage_fault + unit) \<times> 'w"
where
  "s3_put_object S md5 st key data content_type w =
     (case s3_put S (so_bucket st) key data content_type (content_md5_b64 md5 data) w of
        (Inl e, w) \<Rightarrow> (Inl (Fault_Client e), w)
      | (Inr _, w) \<Rightarrow> (Inr (), w))"

definition s3_get_object ::
  "'w s3_service \<Rightarrow> s3_object_storage \<Rightarrow> string \<Rightarrow> 'w \<Rightarrow> (storage_fault + string) \<times> 'w" where
  "s3_get_object S st key w =
     (case s3_get S (so_bucket st) key w of
        (Inl e, w) \<Rightarrow>
          (if ce_code e \<in> {Some ''NoSuchKey'', Some ''404''}
           then (Inl (Fault_Key (Storage_KeyError (''object not found: '' @ key))), w)
           else (Inl (Fault_Client e), w))
      | (Inr body, w) \<Rightarrow> (Inr body, w))"

definition s3_delete_object ::
  "'w s3_service \<Rightarrow> s3_object_storage \<Rightarrow> string \<Rightarrow> 'w \<Rightarrow> (storage_fault + unit) \<times> 'w" where
  "s3_delete_object S st key w =
     (case s3_delete S (so_bucket st) key w of
        (Inl e, w) \<Rightarrow> (Inl (Fault_Client e), w)
      | (Inr _, w) \<Rightarrow> (Inr (), w))"

definition s3_signed_get_url ::
  "'w s3_service \<Rightarrow> s3_object_storage \<Rightarrow> string \<Rightarrow> int \<Rightarrow> 'w \<Rightarrow> (storage_fault + string) \<times> 'w" where
  "s3_signed_get_url S st key ttl_s w =
     (case s3_presign S (so_bucket st) key (if ttl_s \<noteq> 0 then ttl_s else so_default_ttl_s st) w of
        (Inl e, w) \<Rightarrow> (Inl (Fault_Client e), w)
      | (Inr url, w) \<Rightarrow> (Inr url, w))"

definition s3_exists ::
  "'w s3_service \<Rightarrow> s3_object_storage \<Rightarrow> string \<Rightarrow> 'w \<Rightarrow> (storage_fault + bool) \<times> 'w" where
  "s3_exists S st key w =
     (case s3_head S (so_bucket st) key w of
        (Inl e, w) \<Rightarrow>
          (if ce_code e \<in> {Some ''404'', Some ''NoSuchKey''} then (Inr False, w) else (Inl (Fault_Client e), w))
      | (Inr _, w) \<Rightarrow> (Inr True, w))"

subsection \<open>The port\<close>

record 's storage_port =
  sp_put :: "string \<Rightarrow> string \<Rightarrow> string \<Rightarrow> 's \<Rightarrow> (storage_fault + unit) \<times> 's"
  sp_get :: "string \<Rightarrow> 's \<Rightarrow> (storage_fault + string) \<times> 's"
  sp_delete :: "string \<Rightarrow> 's \<Rightarrow> (storage_fault + unit) \<times> 's"
  sp_exists :: "string \<Rightarrow> 's \<Rightarrow> (storage_fault + bool) \<times> 's"

definition memory_storage :: "storage storage_port" where
  "memory_storage =
     \<lparr>sp_put = (\<lambda>key data ct st. (Inr (), put_object key data ct st)),
      sp_get = (\<lambda>key st. (map_sum Fault_Key id (get_object key st), st)),
      sp_delete = (\<lambda>key st. (Inr (), delete_object key st)),
      sp_exists = (\<lambda>key st. (Inr (object_exists key st), st))\<rparr>"

definition s3_storage :: "'w s3_service \<Rightarrow> (string \<Rightarrow> nat list) \<Rightarrow> s3_object_storage \<Rightarrow> 'w storage_port" where
  "s3_storage S md5 st = \<lparr>sp_put = s3_put_object S md5 st, sp_get = s3_get_object S st,
     sp_delete = s3_delete_object S st, sp_exists = s3_exists S st\<rparr>"

subsection \<open>Sequences of calls\<close>

datatype storage_op = Op_Put string string string | Op_Get string | Op_Delete string | Op_Exists string

datatype storage_answer = Ans_Done | Ans_Bytes string | Ans_Exists bool

fun storage_call :: "'s storage_port \<Rightarrow> storage_op \<Rightarrow> 's \<Rightarrow> (storage_fault + storage_answer) \<times> 's" where
  "storage_call P (Op_Put k d ct) s = map_prod (map_sum id (\<lambda>_. Ans_Done)) id (sp_put P k d ct s)"
| "storage_call P (Op_Get k) s = map_prod (map_sum id Ans_Bytes) id (sp_get P k s)"
| "storage_call P (Op_Delete k) s = map_prod (map_sum id (\<lambda>_. Ans_Done)) id (sp_delete P k s)"
| "storage_call P (Op_Exists k) s = map_prod (map_sum id Ans_Exists) id (sp_exists P k s)"

fun storage_calls :: "'s storage_port \<Rightarrow> storage_op list \<Rightarrow> 's \<Rightarrow> (storage_fault + storage_answer) list \<times> 's" where
  "storage_calls P [] s = ([], s)"
| "storage_calls P (op # ops) s =
     (case storage_call P op s of (a, s) \<Rightarrow> (case storage_calls P ops s of (as, s) \<Rightarrow> (a # as, s)))"

text \<open>The specification: a partial function from keys to bytes and content types.\<close>

fun spec_call :: "storage_op \<Rightarrow> (string \<Rightarrow> (string \<times> string) option) \<Rightarrow> (storage_fault + storage_answer) \<times> (string \<Rightarrow> (string \<times> string) option)" where
  "spec_call (Op_Put k d ct) m = (Inr Ans_Done, m(k := Some (d, ct)))"
| "spec_call (Op_Get k) m = ((case m k of None \<Rightarrow> Inl (Fault_Key (Storage_KeyError (''object not found: '' @ k)))
     | Some (d, ct) \<Rightarrow> Inr (Ans_Bytes d)), m)"
| "spec_call (Op_Delete k) m = (Inr Ans_Done, m(k := None))"
| "spec_call (Op_Exists k) m = (Inr (Ans_Exists (m k \<noteq> None)), m)"

fun spec_calls :: "storage_op list \<Rightarrow> (string \<Rightarrow> (string \<times> string) option) \<Rightarrow> (storage_fault + storage_answer) list" where
  "spec_calls [] m = []"
| "spec_calls (op # ops) m = (case spec_call op m of (a, m) \<Rightarrow> a # spec_calls ops m)"

definition leaves_key :: "string \<Rightarrow> storage_op \<Rightarrow> bool" where
  "leaves_key k op = (case op of Op_Put k' _ _ \<Rightarrow> k' \<noteq> k | Op_Delete k' \<Rightarrow> k' \<noteq> k | _ \<Rightarrow> True)"

lemma spec_call_keeps: "spec_call op m = (a, m') \<Longrightarrow> m k = Some v \<Longrightarrow> leaves_key k op \<Longrightarrow> m' k = Some v"
  by (cases op) (auto simp: leaves_key_def)

locale object_storage =
  fixes P :: "'s storage_port" and ok :: "'s \<Rightarrow> bool" and content :: "'s \<Rightarrow> string \<Rightarrow> (string \<times> string) option"
  assumes call_law: "ok s \<Longrightarrow> storage_call P op s = (a, s') \<Longrightarrow> ok s' \<and> spec_call op (content s) = (a, content s')"
begin

lemma calls_meet_spec: "ok s \<Longrightarrow> fst (storage_calls P ops s) = spec_calls ops (content s)"
proof (induction ops arbitrary: s)
  case (Cons op ops)
  obtain a s' where c: "storage_call P op s = (a, s')" by (metis surj_pair)
  with call_law [OF Cons.prems c] Cons.IH [of s'] show ?case by (auto split: prod.splits)
qed simp

lemma calls_keep_ok: "ok s \<Longrightarrow> ok (snd (storage_calls P ops s))"
proof (induction ops arbitrary: s)
  case (Cons op ops)
  obtain a s' where c: "storage_call P op s = (a, s')" by (metis surj_pair)
  with call_law [OF Cons.prems c] Cons.IH [of s'] show ?case by (auto split: prod.splits)
qed simp

text \<open>What is stored stays readable until its key is written or deleted.\<close>

lemma stored_is_readable:
  assumes "ok s" "storage_call P (Op_Put k d ct) s = (a, s1)"
    and "\<forall>op \<in> set ops. leaves_key k op"
  shows "fst (storage_call P (Op_Get k) (snd (storage_calls P ops s1))) = Inr (Ans_Bytes d)"
proof -
  have "ok s1 \<Longrightarrow> content s1 k = Some (d, ct) \<Longrightarrow> ok (snd (storage_calls P ops s1)) \<and> content (snd (storage_calls P ops s1)) k = Some (d, ct)"
    using assms(3)
  proof (induction ops arbitrary: s1)
    case (Cons op ops)
    obtain b s2 where c: "storage_call P op s1 = (b, s2)" by (metis surj_pair)
    have "ok s2" "content s2 k = Some (d, ct)"
      using call_law [OF Cons.prems(1) c] spec_call_keeps [of op "content s1" b "content s2" k "(d, ct)"] Cons.prems(2,3) by simp_all
    moreover obtain bs s3 where "storage_calls P ops s2 = (bs, s3)" by (metis surj_pair)
    ultimately show ?case using Cons.IH [of s2] Cons.prems(3) c by simp
  qed simp
  moreover have "ok s1" "content s1 = (content s)(k := Some (d, ct))" using call_law [OF assms(1,2)] by simp_all
  ultimately have ok: "ok (snd (storage_calls P ops s1))"
    and k: "content (snd (storage_calls P ops s1)) k = Some (d, ct)" by auto
  obtain b s3 where "storage_call P (Op_Get k) (snd (storage_calls P ops s1)) = (b, s3)" by (metis surj_pair)
  with call_law [OF ok this] k show ?thesis by simp
qed

end

interpretation memory_storage: object_storage memory_storage "\<lambda>_. True" dget
proof unfold_locales
  fix s s' :: storage and op a
  assume "storage_call memory_storage op s = (a, s')"
  then show "True \<and> spec_call op (dget s) = (a, dget s')"
    by (cases op) (auto simp: memory_storage_def put_object_def get_object_def delete_object_def object_exists_def
        dmem_iff_dget fun_eq_iff split: option.splits)
qed

text \<open>What S3 documents of a bucket, while the service answers: \<open>held\<close> is what the bucket holds.\<close>

definition s3_documented :: "'w s3_service \<Rightarrow> string \<Rightarrow> ('w \<Rightarrow> string \<Rightarrow> (string \<times> string) option) \<Rightarrow> ('w \<Rightarrow> bool) \<Rightarrow> bool" where
  "s3_documented S bucket held up \<longleftrightarrow> (\<forall>w. up w \<longrightarrow>
     (\<forall>k d ct md5. \<exists>w'. s3_put S bucket k d ct md5 w = (Inr (), w') \<and> up w' \<and> held w' = (held w)(k := Some (d, ct))) \<and>
     (\<forall>k. \<exists>w'. up w' \<and> held w' = held w \<and> (case held w k of
        None \<Rightarrow> s3_get S bucket k w = (Inl \<lparr>ce_code = Some ''NoSuchKey''\<rparr>, w')
      | Some (d, ct) \<Rightarrow> s3_get S bucket k w = (Inr d, w'))) \<and>
     (\<forall>k. \<exists>w'. s3_delete S bucket k w = (Inr (), w') \<and> up w' \<and> held w' = (held w)(k := None)) \<and>
     (\<forall>k. \<exists>w'. up w' \<and> held w' = held w \<and>
        s3_head S bucket k w = ((case held w k of None \<Rightarrow> Inl \<lparr>ce_code = Some ''404''\<rparr> | Some _ \<Rightarrow> Inr ()), w')))"

lemma s3_is_storage:
  assumes "s3_documented S (so_bucket st) held up"
  shows "object_storage (s3_storage S md5 st) up held"
proof
  fix w w' op a
  assume up: "up w" and call: "storage_call (s3_storage S md5 st) op w = (a, w')"
  note doc = assms [unfolded s3_documented_def, rule_format, OF up]
  show "up w' \<and> spec_call op (held w) = (a, held w')"
  proof (cases op)
    case (Op_Put k d ct)
    from doc obtain w1 where "s3_put S (so_bucket st) k d ct (content_md5_b64 md5 d) w = (Inr (), w1)" "up w1"
      "held w1 = (held w)(k := Some (d, ct))" by blast
    with Op_Put call show ?thesis by (simp add: s3_storage_def s3_put_object_def)
  next
    case (Op_Get k)
    from doc obtain w1 where "up w1" "held w1 = held w" "case held w k of
        None \<Rightarrow> s3_get S (so_bucket st) k w = (Inl \<lparr>ce_code = Some ''NoSuchKey''\<rparr>, w1)
      | Some (d, ct) \<Rightarrow> s3_get S (so_bucket st) k w = (Inr d, w1)" by blast
    with Op_Get call show ?thesis by (auto simp: s3_storage_def s3_get_object_def split: option.splits)
  next
    case (Op_Delete k)
    from doc obtain w1 where "s3_delete S (so_bucket st) k w = (Inr (), w1)" "up w1" "held w1 = (held w)(k := None)" by blast
    with Op_Delete call show ?thesis by (simp add: s3_storage_def s3_delete_object_def)
  next
    case (Op_Exists k)
    from doc obtain w1 where "up w1" "held w1 = held w"
      "s3_head S (so_bucket st) k w = ((case held w k of None \<Rightarrow> Inl \<lparr>ce_code = Some ''404''\<rparr> | Some _ \<Rightarrow> Inr ()), w1)" by blast
    with Op_Exists call show ?thesis by (auto simp: s3_storage_def s3_exists_def split: option.splits)
  qed
qed

text \<open>A bucket as an association list is such a service; it does not check the MD5.\<close>

definition bucket_service :: "storage s3_service" where
  "bucket_service =
     \<lparr>s3_put = (\<lambda>b k d ct md5 w. (Inr (), dput k (d, ct) w)),
      s3_get = (\<lambda>b k w. ((case dget w k of None \<Rightarrow> Inl \<lparr>ce_code = Some ''NoSuchKey''\<rparr> | Some (d, ct) \<Rightarrow> Inr d), w)),
      s3_delete = (\<lambda>b k w. (Inr (), dpop k w)),
      s3_head = (\<lambda>b k w. ((case dget w k of None \<Rightarrow> Inl \<lparr>ce_code = Some ''404''\<rparr> | Some _ \<Rightarrow> Inr ()), w)),
      s3_presign = (\<lambda>b k ttl w. (Inr (b @ k @ int_str ttl), w))\<rparr>"

lemma bucket_documented: "s3_documented bucket_service b dget (\<lambda>_. True)"
  by (auto simp: s3_documented_def bucket_service_def fun_eq_iff split: option.split)

interpretation bucket_storage: object_storage "s3_storage bucket_service md5 st" "\<lambda>_. True" dget
  for md5 :: "string \<Rightarrow> nat list" and st
  by (rule s3_is_storage [OF bucket_documented])

subsection \<open>Properties\<close>



end
