(* ===== verification/Service_Loops.thy ===== *)
theory Service_Loops
  imports Scheduler Reconciler "HOL-Library.Multiset"
begin

section \<open>The main loops of the scheduler and the reconciler (services/scheduler.py, services/reconciler.py)\<close>

text \<open>
  \<open>run_forever\<close> of the two processes as step relations: where the loop stands, whether shutdown was
  requested, and which dispatch tasks are in flight. Between any two steps of a process the
  environment, that is all other processes, may change the queue and the renderer at will. Any await
  may raise: the loop logs it and goes on, and what the tick had claimed until then is dropped, as
  the code does; the ghosts record which jobs were claimed, settled and dropped.
\<close>

subsection \<open>The scheduler\<close>

datatype phase =
    Loop_Head
  | Claiming "(string \<times> int) list" "queued_job list"
  | Waiting
  | Draining
  | Exited

record ('q, 'c) scheduler =
  sp_queue :: 'q
  sp_comfy :: 'c
  sp_phase :: phase
  sp_shutdown :: bool
  sp_inflight :: "stage list"
  sp_claimed :: "uuid list"
  sp_settled :: "uuid list"
  sp_dropped :: "uuid list"

definition scheduler_init :: "'q \<Rightarrow> 'c \<Rightarrow> ('q, 'c) scheduler" where
  "scheduler_init q c = \<lparr>sp_queue = q, sp_comfy = c, sp_phase = Loop_Head, sp_shutdown = False, sp_inflight = [],
     sp_claimed = [], sp_settled = [], sp_dropped = []\<rparr>"

definition request_shutdown :: "('q, 'c) scheduler \<Rightarrow> ('q, 'c) scheduler" where
  "request_shutdown s = s\<lparr>sp_shutdown := True\<rparr>"

text \<open>The end of a task's stage: the next stage takes its place, or the task leaves the set.\<close>

definition after_stage :: "stage list \<Rightarrow> stage option \<Rightarrow> stage list \<Rightarrow> stage list" where
  "after_stage ts nxt ts' = (case nxt of Some t \<Rightarrow> ts @ t # ts' | None \<Rightarrow> ts @ ts')"

definition settle :: "uuid \<Rightarrow> stage option \<Rightarrow> uuid list \<Rightarrow> uuid list" where
  "settle i nxt is = (case nxt of Some t \<Rightarrow> is | None \<Rightarrow> is @ [i])"

text \<open>The loop's own steps. \<open>workers\<close> is what the capacity query reads.\<close>

inductive own_step ::
  "'q job_queue_port \<Rightarrow> 'c comfy_client \<Rightarrow> settings \<Rightarrow> string \<Rightarrow> rat \<Rightarrow> ('q, 'c) scheduler \<Rightarrow> ('q, 'c) scheduler \<Rightarrow> bool"
  for P :: "'q job_queue_port" and C :: "'c comfy_client" and st :: settings and ow :: string and secs :: rat where
  tick_begins: "sp_phase s = Loop_Head \<Longrightarrow> \<not> sp_shutdown s \<Longrightarrow>
    own_step P C st ow secs s (s\<lparr>sp_phase := Claiming (reserve_capacity_by_backend P st workers (sp_queue s)) []\<rparr>)"
| loop_ends: "sp_phase s = Loop_Head \<Longrightarrow> sp_shutdown s \<Longrightarrow> own_step P C st ow secs s (s\<lparr>sp_phase := Draining\<rparr>)"
| lane_claimed: "sp_phase s = Claiming ((backend, cap) # lanes) cl \<Longrightarrow>
    claim_for_backend P st ow secs now backend cap (sp_queue s) = (q', new) \<Longrightarrow>
    own_step P C st ow secs s (s\<lparr>sp_queue := q', sp_phase := Claiming lanes (cl @ new),
      sp_claimed := sp_claimed s @ map j_id new\<rparr>)"
| tasks_start: "sp_phase s = Claiming [] cl \<Longrightarrow>
    own_step P C st ow secs s (s\<lparr>sp_phase := Waiting, sp_inflight := sp_inflight s @ map To_Running cl\<rparr>)"
| tick_fails: "sp_phase s = Claiming lanes cl \<Longrightarrow>
    own_step P C st ow secs s (s\<lparr>sp_phase := Waiting, sp_dropped := sp_dropped s @ map j_id cl\<rparr>)"
| wakes: "sp_phase s = Waiting \<Longrightarrow> own_step P C st ow secs s (s\<lparr>sp_phase := Loop_Head\<rparr>)"
| task_runs: "sp_phase s \<noteq> Exited \<Longrightarrow> sp_inflight s = ts @ t # ts' \<Longrightarrow>
    dispatch_stage P C now rnd t (sp_queue s) (sp_comfy s) = (q', c', nxt) \<Longrightarrow>
    own_step P C st ow secs s (s\<lparr>sp_queue := q', sp_comfy := c', sp_inflight := after_stage ts nxt ts',
      sp_settled := settle (j_id (stage_job t)) nxt (sp_settled s)\<rparr>)"
| task_fails: "sp_phase s \<noteq> Exited \<Longrightarrow> sp_inflight s = ts @ t # ts' \<Longrightarrow>
    own_step P C st ow secs s (s\<lparr>sp_inflight := ts @ ts', sp_dropped := sp_dropped s @ [j_id (stage_job t)]\<rparr>)"
| drained: "sp_phase s = Draining \<Longrightarrow> sp_inflight s = [] \<Longrightarrow> own_step P C st ow secs s (s\<lparr>sp_phase := Exited\<rparr>)"

text \<open>Runs, with the number of own steps: the environment moves the queue and the renderer, and a
  signal can come at any time.\<close>

inductive scheduler_run ::
  "'q job_queue_port \<Rightarrow> 'c comfy_client \<Rightarrow> settings \<Rightarrow> string \<Rightarrow> rat \<Rightarrow> ('q, 'c) scheduler \<Rightarrow> nat \<Rightarrow> ('q, 'c) scheduler \<Rightarrow> bool"
  for P :: "'q job_queue_port" and C :: "'c comfy_client" and st :: settings and ow :: string and secs :: rat
    and s0 :: "('q, 'c) scheduler" where
  run_start: "scheduler_run P C st ow secs s0 0 s0"
| run_own: "scheduler_run P C st ow secs s0 n s \<Longrightarrow> own_step P C st ow secs s s' \<Longrightarrow>
    scheduler_run P C st ow secs s0 (Suc n) s'"
| run_others: "scheduler_run P C st ow secs s0 n s \<Longrightarrow>
    scheduler_run P C st ow secs s0 n (s\<lparr>sp_queue := q', sp_comfy := c'\<rparr>)"
| run_signal: "scheduler_run P C st ow secs s0 n s \<Longrightarrow> scheduler_run P C st ow secs s0 n (request_shutdown s)"

text \<open>\<open>run_heartbeat_forever\<close> beats unless there is no database or nothing to probe.\<close>

definition heartbeat_needed :: "settings \<Rightarrow> comfy_worker list option \<Rightarrow> bool" where
  "heartbeat_needed st workers \<longleftrightarrow> \<not> (workers = None \<or> comfy_mode st = ''mock'')"

fun heartbeats :: "settings \<Rightarrow> heartbeat_env list \<Rightarrow> comfy_worker list option \<Rightarrow> comfy_worker list option" where
  "heartbeats st [] workers = workers"
| "heartbeats st (hb # hbs) workers =
     (if \<not> heartbeat_needed st workers then workers else heartbeats st hbs (heartbeat_once hb st workers))"

subsection \<open>The reconciler\<close>

datatype rec_phase = R_Head | R_Pass "queued_job list" | R_Waiting | R_Exited

record ('q, 'c) reconciler =
  rp_queue :: 'q
  rp_comfy :: 'c
  rp_phase :: rec_phase
  rp_shutdown :: bool

text \<open>A pass reads the active jobs and settles them one by one; \<open>pass_fails\<close> is the listing
  that raised, \<open>job_raises\<close> a job whose settling raised after any part of its effects: the pass logs
  it and goes on.\<close>

inductive rec_step ::
  "'q job_queue_port \<Rightarrow> 'c comfy_client \<Rightarrow> settings \<Rightarrow> ('q \<Rightarrow> queued_job \<Rightarrow> queued_job) \<Rightarrow>
     ('q, 'c) reconciler \<Rightarrow> ('q, 'c) reconciler \<Rightarrow> bool"
  for P :: "'q job_queue_port" and C :: "'c comfy_client" and st :: settings and see :: "'q \<Rightarrow> queued_job \<Rightarrow> queued_job" where
  pass_begins: "rp_phase r = R_Head \<Longrightarrow> \<not> rp_shutdown r \<Longrightarrow>
    rec_step P C st see r (r\<lparr>rp_phase := R_Pass (jq_list_active P (rp_queue r))\<rparr>)"
| pass_fails: "rp_phase r = R_Head \<Longrightarrow> \<not> rp_shutdown r \<Longrightarrow> rec_step P C st see r (r\<lparr>rp_phase := R_Waiting\<rparr>)"
| job_settled: "rp_phase r = R_Pass (job # jobs) \<Longrightarrow>
    reconcile_job P C st now clk rnd (see (rp_queue r) job) (rp_queue r, rp_comfy r) = (q', c') \<Longrightarrow>
    rec_step P C st see r (r\<lparr>rp_queue := q', rp_comfy := c', rp_phase := R_Pass jobs\<rparr>)"
| job_raises: "rp_phase r = R_Pass (job # jobs) \<Longrightarrow>
    rec_step P C st see r (r\<lparr>rp_queue := q', rp_comfy := c', rp_phase := R_Pass jobs\<rparr>)"
| pass_ends: "rp_phase r = R_Pass [] \<Longrightarrow> rec_step P C st see r (r\<lparr>rp_phase := R_Waiting\<rparr>)"
| rec_wakes: "rp_phase r = R_Waiting \<Longrightarrow> rec_step P C st see r (r\<lparr>rp_phase := R_Head\<rparr>)"
| rec_exits: "rp_phase r = R_Head \<Longrightarrow> rp_shutdown r \<Longrightarrow> rec_step P C st see r (r\<lparr>rp_phase := R_Exited\<rparr>)"

inductive rec_run ::
  "'q job_queue_port \<Rightarrow> 'c comfy_client \<Rightarrow> settings \<Rightarrow> ('q \<Rightarrow> queued_job \<Rightarrow> queued_job) \<Rightarrow>
     ('q, 'c) reconciler \<Rightarrow> nat \<Rightarrow> ('q, 'c) reconciler \<Rightarrow> bool"
  for P :: "'q job_queue_port" and C :: "'c comfy_client" and st :: settings and see :: "'q \<Rightarrow> queued_job \<Rightarrow> queued_job"
    and r0 :: "('q, 'c) reconciler" where
  rec_start: "rec_run P C st see r0 0 r0"
| rec_own: "rec_run P C st see r0 n r \<Longrightarrow> rec_step P C st see r r' \<Longrightarrow> rec_run P C st see r0 (Suc n) r'"
| rec_others: "rec_run P C st see r0 n r \<Longrightarrow> rec_run P C st see r0 n (r\<lparr>rp_queue := q', rp_comfy := c'\<rparr>)"
| rec_signal: "rec_run P C st see r0 n r \<Longrightarrow> rec_run P C st see r0 n (r\<lparr>rp_shutdown := True\<rparr>)"

inductive_simps own_step_iff: "own_step P C st ow secs s s'"
inductive_simps rec_step_iff: "rec_step P C st see r r'"

subsection \<open>No claimed job is forgotten\<close>

lemma next_stage_job:
  assumes "dispatch_stage P C now rnd t q c = (q', c', Some t')"
  shows "stage_job t' = stage_job t"
  using assms by (cases t) (auto split: prod.splits sum.splits)

definition pending :: "phase \<Rightarrow> queued_job list" where
  "pending ph = (case ph of Claiming lanes cl \<Rightarrow> cl | _ \<Rightarrow> [])"

definition task_ids :: "stage list \<Rightarrow> uuid list" where
  "task_ids = map (j_id \<circ> stage_job)"

lemma task_ids_simps [simp]:
  "task_ids [] = []" "task_ids (ts @ ts') = task_ids ts @ task_ids ts'" "task_ids (t # ts) = j_id (stage_job t) # task_ids ts"
  "task_ids (map To_Running js) = map j_id js"
  by (simp_all add: task_ids_def)

definition ledger_ok :: "('q, 'c) scheduler \<Rightarrow> bool" where
  "ledger_ok s \<longleftrightarrow> mset (sp_claimed s) = mset (sp_settled s) + mset (sp_dropped s) + mset (task_ids (sp_inflight s)) +
     mset (map j_id (pending (sp_phase s)))"

definition stopped_ok :: "('q, 'c) scheduler \<Rightarrow> bool" where
  "stopped_ok s \<longleftrightarrow> (sp_phase s \<in> {Draining, Exited} \<longrightarrow> sp_shutdown s) \<and> (sp_phase s = Exited \<longrightarrow> sp_inflight s = [])"

lemma ledger_step:
  assumes "own_step P C st ow secs s s'" "ledger_ok s"
  shows "ledger_ok s'"
  using assms
proof (induction rule: own_step.induct)
  case (task_runs s ts t ts' now rnd q' c' nxt)
  then show ?case
    by (cases nxt) (auto simp: ledger_ok_def after_stage_def settle_def dest: next_stage_job)
qed (simp_all add: ledger_ok_def pending_def)

lemma stopped_step: "own_step P C st ow secs s s' \<Longrightarrow> stopped_ok s \<Longrightarrow> stopped_ok s'"
  by (induction rule: own_step.induct) (auto simp: stopped_ok_def)

lemma ledger_run:
  assumes "scheduler_run P C st ow secs (scheduler_init q c) n s"
  shows "ledger_ok s \<and> stopped_ok s"
  using assms
proof (induction rule: scheduler_run.induct)
  case (run_own n s s')
  then show ?case using ledger_step stopped_step by blast
qed (simp_all add: ledger_ok_def stopped_ok_def scheduler_init_def pending_def request_shutdown_def)

subsection \<open>The drain ends\<close>

fun stages_left :: "stage \<Rightarrow> nat" where
  "stages_left (To_Running job) = 3"
| "stages_left (To_Submit job) = 2"
| "stages_left t = 1"

definition work :: "stage list \<Rightarrow> nat" where
  "work ts = sum_list (map stages_left ts)"

lemma work_simps [simp]: "work [] = 0" "work (t # ts) = stages_left t + work ts" "work (ts @ ts') = work ts + work ts'"
  by (simp_all add: work_def)

lemma stages_left_pos [simp]: "0 < stages_left t"
  by (cases t) simp_all

lemma next_stage_left:
  assumes "dispatch_stage P C now rnd t q c = (q', c', nxt)"
  shows "Suc (work (after_stage ts nxt ts')) = work (ts @ t # ts')"
  using assms by (cases t) (auto simp: after_stage_def split: prod.splits sum.splits)

text \<open>What is still to do once the process drains: the stages of its tasks and the exit.\<close>

definition to_do :: "('q, 'c) scheduler \<Rightarrow> nat" where
  "to_do s = work (sp_inflight s) + (if sp_phase s = Exited then 0 else 1)"

lemma drain_step:
  assumes "own_step P C st ow secs s s'" "sp_phase s \<in> {Draining, Exited}"
  shows "sp_phase s' \<in> {Draining, Exited} \<and> Suc (to_do s') \<le> to_do s \<and> sp_claimed s' = sp_claimed s"
  using assms
proof (induction rule: own_step.induct)
  case (task_runs s ts t ts' now rnd q' c' nxt)
  then show ?case using next_stage_left [OF task_runs(3), of ts ts'] by (simp add: to_do_def)
next
  case (task_fails s ts t ts')
  then show ?case using stages_left_pos [of t] by (simp add: to_do_def Suc_leI del: stages_left_pos)
qed (simp_all add: to_do_def)

lemma drain_enabled:
  assumes "sp_phase s = Draining"
  shows "\<exists>s'. own_step P C st ow secs s s'"
proof (cases "sp_inflight s")
  case Nil
  with assms show ?thesis using drained by blast
next
  case (Cons t ts)
  then have "sp_inflight s = [] @ t # ts" by simp
  moreover obtain q' c' nxt where "dispatch_stage P C 0 0 t (sp_queue s) (sp_comfy s) = (q', c', nxt)"
    by (metis surj_pair)
  ultimately show ?thesis using task_runs assms by (metis phase.distinct(19))
qed

lemma drain_run:
  assumes "scheduler_run P C st ow secs s n s'" "sp_phase s = Draining"
  shows "sp_phase s' \<in> {Draining, Exited} \<and> n + to_do s' \<le> to_do s \<and> sp_claimed s' = sp_claimed s"
  using assms
proof (induction rule: scheduler_run.induct)
  case (run_own n s1 s2)
  from run_own.IH [OF run_own.prems] drain_step [OF run_own.hyps(2)] show ?case by auto
qed (auto simp: to_do_def request_shutdown_def)

lemma work_bound: "work ts \<le> 3 * length ts"
proof (induction ts)
  case (Cons t ts)
  have "stages_left t \<le> 3" by (cases t) simp_all
  with Cons show ?case by simp
qed simp

lemma shutdown_stops_ticks:
  assumes "own_step P C st ow secs s s'" "sp_shutdown s" "sp_phase s = Loop_Head"
  shows "sp_phase s' \<in> {Loop_Head, Draining} \<and> sp_claimed s' = sp_claimed s"
  using assms by (induction rule: own_step.induct) auto



subsection \<open>The reconciler stops too\<close>

fun rec_to_do :: "rec_phase \<Rightarrow> nat" where
  "rec_to_do R_Head = 1"
| "rec_to_do R_Waiting = 2"
| "rec_to_do (R_Pass jobs) = length jobs + 3"
| "rec_to_do R_Exited = 0"

lemma reconciler_stops:
  assumes "rec_run P C st see r n r'" "rp_shutdown r"
  shows "rp_shutdown r' \<and> n + rec_to_do (rp_phase r') \<le> rec_to_do (rp_phase r)"
  using assms
proof (induction rule: rec_run.induct)
  case (rec_own n r1 r2)
  from rec_own.hyps(2) rec_own.IH [OF rec_own.prems] show ?case by (induction rule: rec_step.induct) auto
qed auto

subsection \<open>Witnesses\<close>

definition example_renderer :: "mock_client comfy_client" where
  "example_renderer = mock_port (\<lambda>_. []) (\<lambda>s. s)"

lemma idle_scheduler_exits:
  "scheduler_run mem_port example_renderer st ow secs (scheduler_init q c) 2
     ((request_shutdown (scheduler_init q c))\<lparr>sp_phase := Draining, sp_phase := Exited\<rparr>)"
  unfolding numeral_2_eq_2
  by (rule run_own, rule run_own, rule run_signal, rule run_start, rule loop_ends)
    (simp_all add: own_step_iff request_shutdown_def scheduler_init_def)


definition draining_scheduler :: "(mem_queue, mock_client) scheduler" where
  "draining_scheduler = (scheduler_init example_queue example_mock)\<lparr>sp_phase := Draining, sp_shutdown := True,
     sp_inflight := [To_Report (example_job 1 7 5) ''TimeoutError'']\<rparr>"


end
