(* ===== verification/Wiring.thy ===== *)
theory Wiring
  imports Agent_Router Image_Adapters Live_Comfy Reconciler S3_Storage Service_Loops
begin

section \<open>What a process is built from (adapters/comfyui/factory.py, adapters/queue/factory.py, main.py)\<close>

text \<open>
  The API, the scheduler and the reconciler each build their own queue, storage and renderer clients
  from the settings. A client value is the state of one process; the services behind it are arguments
  of its port. \<open>process_env\<close> holds what a process draws for itself: its future UUIDs, and the ComfyUI
  server it reaches under each URL. The three small endpoints that only report on this are here too.
\<close>

subsection \<open>Queue, storage, background loops\<close>

datatype queue_choice = Use_Memory_Queue mem_queue | Use_Postgres_Queue

definition build_job_queue :: "settings \<Rightarrow> exc + queue_choice" where
  "build_job_queue s =
     (if queue_backend s = ''memory'' then Inr (Use_Memory_Queue mem_init)
      else if queue_backend s = ''postgres'' then Inr Use_Postgres_Queue
      else Inl ''ValueError'')"

datatype storage_choice = Use_S3 s3_object_storage | Use_Memory_Storage storage

definition build_storage :: "settings \<Rightarrow> storage_choice" where
  "build_storage s =
     (if storage_backend s = ''s3'' then Use_S3 (s3_object_storage_init s) else Use_Memory_Storage storage_init)"

definition loops_in_process :: "settings \<Rightarrow> bool" where
  "loops_in_process s \<longleftrightarrow> queue_backend s = ''memory''"

subsection \<open>The language model\<close>

definition given :: "string option \<Rightarrow> bool" where
  "given x \<longleftrightarrow> x \<noteq> None \<and> x \<noteq> Some []"

record gemini_text_config =
  gt_api_key :: string
  gt_model :: string
  gt_timeout_s :: rat
  gt_research_timeout_s :: rat

datatype brain = Qwen_Brain qwen_client | Gemini_Brain gemini_text_config

definition rstrip_slash :: "string \<Rightarrow> string" where
  "rstrip_slash s = rev (dropWhile (\<lambda>c. c = CHR ''/'') (rev s))"

definition qwen_of :: "settings \<Rightarrow> qwen_client" where
  "qwen_of s = \<lparr>qc_base_url = rstrip_slash (qwen_base_url s), qc_model = qwen_text_model s, qc_timeout_s = qwen_request_timeout_s s\<rparr>"

definition gemini_of :: "settings \<Rightarrow> gemini_text_config" where
  "gemini_of s = \<lparr>gt_api_key = the (gemini_api_key s), gt_model = gemini_text_model s,
     gt_timeout_s = gemini_request_timeout_s s, gt_research_timeout_s = gemini_research_timeout_s s\<rparr>"

text \<open>The client of the chat endpoints (\<open>_build_state\<close>) and the one that designs prompts
  (\<open>build_comfy_client\<close>).\<close>

definition chat_brain :: "settings \<Rightarrow> brain option" where
  "chat_brain s =
     (if brain_backend s = ''qwen'' then Some (Qwen_Brain (qwen_of s))
      else if given (gemini_api_key s) then Some (Gemini_Brain (gemini_of s)) else None)"

definition prompt_design_brain :: "settings \<Rightarrow> brain option" where
  "prompt_design_brain s =
     (if brain_backend s = ''qwen'' then Some (Qwen_Brain (qwen_of s))
      else if given (gemini_api_key s) then Some (Gemini_Brain (gemini_of s)) else None)"

definition connect :: "(gemini_text_config \<Rightarrow> gemini_service) \<Rightarrow> qwen_service \<Rightarrow> brain \<Rightarrow> text_client" where
  "connect G Q b = (case b of Qwen_Brain c \<Rightarrow> qwen_text_client Q c | Gemini_Brain c \<Rightarrow> gemini_text_client (G c))"

definition raised_none :: "py_exc + 'a \<Rightarrow> 'a option" where
  "raised_none r = (case r of Inl e \<Rightarrow> None | Inr v \<Rightarrow> Some v)"

definition comfy_designer :: "text_client \<Rightarrow> string \<Rightarrow> string list \<Rightarrow> string option" where
  "comfy_designer c p xs = raised_none (tc_design_comfyui_prompt c p xs)"

subsection \<open>The renderers\<close>

record 'w process_env =
  pe_mock_fresh :: "nat \<Rightarrow> string"
  pe_composite_fresh :: "nat \<Rightarrow> string"
  pe_image_fresh :: "nat \<Rightarrow> string"
  pe_client_hex :: "nat \<Rightarrow> string"
  pe_live_hex :: "nat \<Rightarrow> nat \<Rightarrow> string"
  pe_live_int :: "nat \<Rightarrow> nat \<Rightarrow> nat"
  pe_server :: "string \<Rightarrow> 'w"

datatype 'w any_comfy =
    Mock_Comfy mock_client
  | Live_Comfy "live_client \<times> 'w"
  | Multi_Comfy "(live_client \<times> 'w) multi_worker"

fun on_comfy :: "(mock_client \<Rightarrow> 'r \<times> mock_client) \<Rightarrow> (live_client \<times> 'w \<Rightarrow> 'r \<times> (live_client \<times> 'w))
    \<Rightarrow> ((live_client \<times> 'w) multi_worker \<Rightarrow> 'r \<times> (live_client \<times> 'w) multi_worker) \<Rightarrow> 'w any_comfy \<Rightarrow> 'r \<times> 'w any_comfy" where
  "on_comfy f g h (Mock_Comfy c) = map_prod id Mock_Comfy (f c)"
| "on_comfy f g h (Live_Comfy c) = map_prod id Live_Comfy (g c)"
| "on_comfy f g h (Multi_Comfy c) = map_prod id Multi_Comfy (h c)"

definition any_comfy_port :: "py_env \<Rightarrow> 'w comfy_services \<Rightarrow> 'w any_comfy comfy_client" where
  "any_comfy_port E S =
     (let M = mock_port (py_repr E) (py_sha256 E); L = live_port (py_repr E) S; W = multi_port L
      in \<lparr>cc_submit = (\<lambda>p k. on_comfy (cc_submit M p k) (cc_submit L p k) (cc_submit W p k)),
          cc_get_status = (\<lambda>i. on_comfy (cc_get_status M i) (cc_get_status L i) (cc_get_status W i)),
          cc_cancel = (\<lambda>i. on_comfy (cc_cancel M i) (cc_cancel L i) (cc_cancel W i)),
          cc_health = on_comfy (cc_health M) (cc_health L) (cc_health W)\<rparr>)"

definition build_live_client :: "settings \<Rightarrow> 'w process_env \<Rightarrow> nat \<Rightarrow> string \<Rightarrow> live_client \<times> 'w" where
  "build_live_client s pe i base_url =
     (\<lparr>lv_default_profile = \<lparr>profile_key = DEFAULT_PROFILE_KEY, checkpoint_name = comfy_checkpoint_name s,
         model_family = comfy_model_family s, diffusion_model_name = comfy_diffusion_model_name s,
         clip_name = comfy_clip_name s, vae_name = comfy_vae_name s, model_sampling_shift = comfy_model_sampling_shift s,
         sampler_name = comfy_sampler_name s, sched_name = comfy_scheduler s, steps = comfy_steps s,
         cfg_scale = Fin (comfy_cfg_scale s), negative_prompt = comfy_negative_prompt s\<rparr>,
       lv_profiles = build_profiles s, lv_allowlists = Some (build_allowlists s),
       lv_client_id = ''imaginv-'' @ take 12 (pe_client_hex pe i), lv_resolved = [],
       lv_hex = pe_live_hex pe i, lv_int = pe_live_int pe i, lv_used = 0\<rparr>,
      pe_server pe (rstrip_slash base_url))"

definition build_comfyui_side :: "settings \<Rightarrow> storage \<Rightarrow> 'w process_env \<Rightarrow> 'w any_comfy" where
  "build_comfyui_side s st pe =
     (if comfy_mode s = ''mock'' then
        Mock_Comfy \<lparr>mk_polls_to_complete = 0, mk_fail_keyword = ''__force_fail__'', mk_storage = Some st, mk_poll_counts = [],
          mk_payloads = [], mk_cancelled = [], mk_stored_keys = [], mk_fresh = pe_mock_fresh pe, mk_used = 0\<rparr>
      else
        let worker_urls = (if comfy_worker_base_urls s \<noteq> [] then comfy_worker_base_urls s else [comfy_base_url s]);
            live_clients = map (\<lambda>(i, url). build_live_client s pe i url) (enumerate 0 worker_urls)
        in if length live_clients = 1 then Live_Comfy (hd live_clients)
           else Multi_Comfy \<lparr>mw_workers = live_clients, mw_next_index = 0\<rparr>)"

text \<open>The paid provider: which client, with which key, model, timeout and base URL.\<close>

datatype image_choice =
    No_Image_Client
  | Gemini_Image_Client string string rat
  | Openrouter_Image_Client string string rat string

definition choose_image_client :: "settings \<Rightarrow> image_choice" where
  "choose_image_client s =
     (if image_provider s = ''openrouter'' then
        (if given (openrouter_api_key s) then
           Openrouter_Image_Client (the (openrouter_api_key s)) (openrouter_image_model s)
             (openrouter_image_request_timeout_s s) (openrouter_base_url s)
         else No_Image_Client)
      else if given (gemini_api_key s) then
        Gemini_Image_Client (the (gemini_api_key s)) (gemini_image_model s) (gemini_image_request_timeout_s s)
      else No_Image_Client)"

definition image_client_of :: "(nat \<Rightarrow> string) \<Rightarrow> 's \<Rightarrow> image_choice \<Rightarrow> 's image_client option" where
  "image_client_of fresh st c =
     (case c of No_Image_Client \<Rightarrow> None | _ \<Rightarrow> Some \<lparr>ic_results = [], ic_storage = st, ic_fresh = fresh, ic_used = 0\<rparr>)"

definition image_port ::
  "py_env \<Rightarrow> prompt_designer option \<Rightarrow> gemini_image_service \<Rightarrow> openrouter_service \<Rightarrow> 's put_op \<Rightarrow> settings \<Rightarrow> 's image_client comfy_client"
where
  "image_port E designer GI OI put s =
     (case choose_image_client s of
        Openrouter_Image_Client _ _ _ _ \<Rightarrow> openrouter_image_port (py_repr E) designer OI put
      | _ \<Rightarrow> gemini_image_port (py_repr E) designer GI put)"

definition image_designer :: "settings \<Rightarrow> (gemini_text_config \<Rightarrow> gemini_service) \<Rightarrow> qwen_service \<Rightarrow> prompt_designer option" where
  "image_designer s G Q = map_option (\<lambda>b. tc_design_image_prompt (connect G Q b)) (prompt_design_brain s)"

definition build_comfy_client ::
  "settings \<Rightarrow> (gemini_text_config \<Rightarrow> gemini_service) \<Rightarrow> qwen_service \<Rightarrow> storage \<Rightarrow> 's \<Rightarrow> 'w process_env
     \<Rightarrow> ('w any_comfy, 's image_client) composite"
where
  "build_comfy_client s G Q st ist pe =
     \<lparr>co_comfyui = build_comfyui_side s st pe,
      co_gemini = image_client_of (pe_image_fresh pe) ist (choose_image_client s),
      co_designer = map_option (\<lambda>b. comfy_designer (connect G Q b)) (prompt_design_brain s),
      co_provider = image_provider s,
      co_fresh = pe_composite_fresh pe, co_used = 0\<rparr>"

subsection \<open>The processes (main.py, services/scheduler.py, services/reconciler.py)\<close>

text \<open>\<open>_build_state\<close> of the API, and the start of the two standalone processes: an unknown queue
  backend stops each of them.\<close>

record ('r, 's, 'w) app_state =
  app_redis :: "'r redis_client"
  app_gate :: "'r admission_gate"
  app_queue :: queue_choice
  app_storage :: storage_choice
  app_brain :: "brain option"
  app_comfy :: "('w any_comfy, 's image_client) composite"

definition build_state ::
  "settings \<Rightarrow> 'r redis_client \<Rightarrow> (gemini_text_config \<Rightarrow> gemini_service) \<Rightarrow> qwen_service \<Rightarrow> storage \<Rightarrow> 's
     \<Rightarrow> 'w process_env \<Rightarrow> exc + ('r, 's, 'w) app_state"
where
  "build_state s R G Q st ist pe =
     map_sum id (\<lambda>queue.
       \<lparr>app_redis = R,
        app_gate = \<lparr>gate_redis = Some R, max_inflight = admission_max_inflight s, gate_ttl = admission_gate_ttl_s s\<rparr>,
        app_queue = queue, app_storage = build_storage s, app_brain = chat_brain s,
        app_comfy = build_comfy_client s G Q st ist pe\<rparr>) (build_job_queue s)"

definition service_main ::
  "settings \<Rightarrow> (gemini_text_config \<Rightarrow> gemini_service) \<Rightarrow> qwen_service \<Rightarrow> storage \<Rightarrow> 's \<Rightarrow> 'w process_env
     \<Rightarrow> exc + queue_choice \<times> storage_choice \<times> ('w any_comfy, 's image_client) composite"
where
  "service_main s G Q st ist pe =
     map_sum id (\<lambda>queue. (queue, build_storage s, build_comfy_client s G Q st ist pe)) (build_job_queue s)"

text \<open>The loops the API runs itself, over its own queue and renderer, and their end at shutdown.\<close>

definition lifespan_start :: "settings \<Rightarrow> 'q \<Rightarrow> 'c \<Rightarrow> (('q, 'c) scheduler \<times> ('q, 'c) reconciler) option" where
  "lifespan_start s q c =
     (if loops_in_process s
      then Some (scheduler_init q c, \<lparr>rp_queue = q, rp_comfy = c, rp_phase = R_Head, rp_shutdown = False\<rparr>) else None)"

definition lifespan_stop ::
  "(('q, 'c) scheduler \<times> ('q, 'c) reconciler) option \<Rightarrow> (('q, 'c) scheduler \<times> ('q, 'c) reconciler) option" where
  "lifespan_stop = map_option (\<lambda>(sch, rec). (request_shutdown sch, rec\<lparr>rp_shutdown := True\<rparr>))"

text \<open>Every process of a deployment builds the same parts from the same settings.\<close>

lemma processes_agree:
  "build_state s R G Q st ist pe = Inr app \<Longrightarrow>
    service_main s G Q st ist pe = Inr (app_queue app, app_storage app, app_comfy app)"
  by (cases "build_job_queue s") (auto simp: build_state_def service_main_def)

subsection \<open>GET /v1/model-profiles (api/v1/model_profiles.py)\<close>

record model_profile_out =
  mp_key :: string
  mp_is_default :: bool
  mp_model_family :: string
  mp_default_steps :: int
  mp_default_cfg_scale :: pyfloat

record override_range_out =
  or_min_steps :: int
  or_max_steps :: int
  or_min_cfg_scale :: rat
  or_max_cfg_scale :: rat

record model_profiles_out =
  mo_profiles :: "model_profile_out list"
  mo_override_range :: override_range_out

definition list_model_profiles :: "settings \<Rightarrow> model_profiles_out" where
  "list_model_profiles s =
     (let profiles = build_profiles s; allowlists = build_allowlists s
      in \<lparr>mo_profiles = map (\<lambda>p. \<lparr>mp_key = profile_key p, mp_is_default = (profile_key p = DEFAULT_PROFILE_KEY),
             mp_model_family = model_family p, mp_default_steps = steps p, mp_default_cfg_scale = cfg_scale p\<rparr>)
             (dvalues profiles),
          mo_override_range = \<lparr>or_min_steps = min_steps allowlists, or_max_steps = max_steps allowlists,
             or_min_cfg_scale = min_cfg_scale allowlists, or_max_cfg_scale = max_cfg_scale allowlists\<rparr>\<rparr>)"

subsection \<open>Health and metrics (api/v1/health.py, api/v1/metrics.py)\<close>

definition health_live :: dict where
  "health_live = [(''status'', JStr ''ok'')]"

text \<open>The database and the renderer, if they are there, answer or raise an exception with its text.\<close>

definition health_ready :: "(string + unit) option \<Rightarrow> (string + bool) option \<Rightarrow> int \<times> dict" where
  "health_ready database comfy =
     (let db = (case database of None \<Rightarrow> ''not configured'' | Some (Inr _) \<Rightarrow> ''ok'' | Some (Inl e) \<Rightarrow> ''error: '' @ e);
          db_healthy = (case database of Some (Inl e) \<Rightarrow> False | _ \<Rightarrow> True);
          cf = (case comfy of None \<Rightarrow> [] | Some (Inr ok) \<Rightarrow> [(''comfyui'', JStr (if ok then ''ok'' else ''unhealthy''))]
                | Some (Inl e) \<Rightarrow> [(''comfyui'', JStr (''error: '' @ e))]);
          healthy = (db_healthy \<and> (case comfy of Some (Inr ok) \<Rightarrow> ok | Some (Inl e) \<Rightarrow> False | None \<Rightarrow> True))
      in (if healthy then 200 else 503,
          [(''status'', JStr (if healthy then ''ok'' else ''degraded'')), (''checks'', JObj ((''database'', JStr db) # cf))]))"

text \<open>The gauge \<open>job_queue_depth\<close> after a scrape: only the in-memory queue has the attribute it reads.\<close>

definition queue_depth :: "mem_queue option \<Rightarrow> nat \<Rightarrow> nat" where
  "queue_depth queue gauge =
     (case queue of
        None \<Rightarrow> gauge
      | Some q \<Rightarrow> length (filter (\<lambda>(i, j). state_str (j_state j) \<in> {''queued'', ''retry_wait''}) (mq_jobs q)))"

subsection \<open>Library\<close>

lemma on_comfy_live_count:
  "comfy_mode s \<noteq> ''mock'' \<Longrightarrow> comfy_worker_base_urls s \<noteq> [] \<Longrightarrow> length (comfy_worker_base_urls s) \<noteq> 1 \<Longrightarrow>
    build_comfyui_side s st pe = Multi_Comfy \<lparr>mw_workers = map (\<lambda>(i, url). build_live_client s pe i url)
      (enumerate 0 (comfy_worker_base_urls s)), mw_next_index = 0\<rparr>"
  by (simp add: build_comfyui_side_def Let_def)

text \<open>Chat and prompt design are always answered by the same model.\<close>

lemma one_brain: "chat_brain s = prompt_design_brain s"
  by (simp add: chat_brain_def prompt_design_brain_def)

lemma build_profiles_keys: "(k, p) \<in> set (build_profiles s) \<Longrightarrow> profile_key p = k \<and> k \<in> {''student'', ''personnel''}"
  by (auto simp: build_profiles_def Let_def DEFAULT_PROFILE_KEY_def split: if_splits)

lemma build_profiles_values: "dvalues (build_profiles s) = map snd (build_profiles s)"
  by (simp add: build_profiles_def Let_def dvalues_def DEFAULT_PROFILE_KEY_def)

lemma default_profile_built: "dmem DEFAULT_PROFILE_KEY (build_profiles s)"
  by (simp add: build_profiles_def Let_def dmem_def)

lemma known_key_strip: "k \<in> {''student'', ''personnel''} \<Longrightarrow> py_strip k = k \<and> k \<noteq> []"
  by (auto simp: py_strip_def is_space_def)

lemma steps_override: "validate_overrides rp (JObj [(''steps'', JInt n)]) al =
    Inr (if min_steps al \<le> n \<and> n \<le> max_steps al then [(''steps'', JInt n)] else [])"
  by (simp add: validate_overrides_def ALL_OVERRIDE_KEYS_def STRING_ALLOWLIST_FIELDS_def validate_steps_def
      validate_cfg_scale_def validate_negative_prompt_def)

lemma poster_is_paid: "resolve_backend (Some ''poster_infographic'') = To_Gemini"
  by (simp add: resolve_backend_def resolve_workflow_known)

lemma image_is_local: "resolve_backend (Some ''image_basic'') = To_Comfyui"
  by (simp add: resolve_backend_def resolve_workflow_known)

lemma skip_keeps_payload: "get_json inputs ''skip_prompt_design'' = JBool True \<Longrightarrow> composite_payload rp tag inputs c = Inr inputs"
  by (simp add: composite_payload_def split: option.split)

lemma image_submit_remembers:
  "image_submit rp dsg gen payload c = (Inr i, c') \<Longrightarrow> \<exists>st. dget (ic_results c') i = Some st"
  by (auto simp: image_submit_def Let_def remember_def split: sum.splits if_splits prod.splits)

lemma image_port_remembers:
  "cc_submit (image_port E dsg GI OI put s) payload kd g = (Inr i, g') \<Longrightarrow> \<exists>st. dget (ic_results g') i = Some st"
  by (auto simp: image_port_def gemini_image_port_def openrouter_image_port_def gemini_submit_def openrouter_submit_def
      dest: image_submit_remembers split: image_choice.splits)

lemma image_port_status: "cc_get_status (image_port E dsg GI OI put s) i g =
    (Inr (case dget (ic_results g) i of Some st \<Rightarrow> st | None \<Rightarrow> failed_status i ''unknown_prompt_id''), g)"
  by (auto simp: image_port_def gemini_image_port_def openrouter_image_port_def image_get_status_def openrouter_get_status_def
      split: image_choice.splits option.splits)

subsection \<open>Properties\<close>

text \<open>C36. What \<open>/v1/model-profiles\<close> lists is what the server accepts: a key is listed if and only if a request
  that names it is accepted with that profile, the listed default is the profile of a request that names
  none, and an override of the steps is kept exactly in the listed range (and dropped outside it, where
  the endpoint's own comment says it is clamped).\<close>
theorem discovery_is_truthful:
  shows "(k \<in> mp_key ` set (mo_profiles (list_model_profiles s)) \<longleftrightarrow>
      resolve_profile_key rp (JStr k) (build_profiles s) = Inr k) \<and>
    (\<forall>p \<in> set (mo_profiles (list_model_profiles s)). mp_is_default p \<longleftrightarrow>
      resolve_profile_key rp JNull (build_profiles s) = Inr (mp_key p)) \<and>
    validate_overrides rp (JObj [(''steps'', JInt n)]) (build_allowlists s) =
      Inr (if or_min_steps (mo_override_range (list_model_profiles s)) \<le> n \<and> n \<le> or_max_steps (mo_override_range (list_model_profiles s))
        then [(''steps'', JInt n)] else [])"
proof (intro conjI)
  have keys: "mp_key ` set (mo_profiles (list_model_profiles s)) = fst ` set (build_profiles s)"
    using build_profiles_keys [of _ _ s]
    by (force simp: list_model_profiles_def build_profiles_values Let_def image_image intro!: image_cong)
  show "k \<in> mp_key ` set (mo_profiles (list_model_profiles s)) \<longleftrightarrow> resolve_profile_key rp (JStr k) (build_profiles s) = Inr k"
  proof
    assume "k \<in> mp_key ` set (mo_profiles (list_model_profiles s))"
    then have k: "dmem k (build_profiles s)" by (simp add: keys dmem_def)
    then have "k \<in> {''student'', ''personnel''}" using build_profiles_keys by (force simp: dmem_def)
    from known_key_strip [OF this] k show "resolve_profile_key rp (JStr k) (build_profiles s) = Inr k"
      by (simp add: resolve_profile_key_def Let_def)
  next
    assume "resolve_profile_key rp (JStr k) (build_profiles s) = Inr k"
    then show "k \<in> mp_key ` set (mo_profiles (list_model_profiles s))"
      unfolding keys by (auto simp: resolve_profile_key_def Let_def dmem_def split: if_splits)
  qed
  have "resolve_profile_key rp JNull (build_profiles s) = Inr DEFAULT_PROFILE_KEY"
    using default_profile_built [of s] by (simp add: resolve_profile_key_def py_strip_def DEFAULT_PROFILE_KEY_def)
  then show "\<forall>p \<in> set (mo_profiles (list_model_profiles s)). mp_is_default p \<longleftrightarrow>
      resolve_profile_key rp JNull (build_profiles s) = Inr (mp_key p)"
    by (auto simp: list_model_profiles_def Let_def)
qed (simp add: steps_override list_model_profiles_def Let_def)

theorem discovery_is_truthful_witness:
  "\<exists>p \<in> set (mo_profiles (list_model_profiles default_settings)). mp_is_default p \<and>
     resolve_profile_key (\<lambda>_. []) JNull (build_profiles default_settings) = Inr (mp_key p)"
proof -
  have "resolve_profile_key (\<lambda>_. []) (JStr ''student'') (build_profiles default_settings) = Inr ''student''"
    "resolve_profile_key (\<lambda>_. []) JNull (build_profiles default_settings) = Inr ''student''"
    using default_profile_built [of default_settings]
    by (simp_all add: resolve_profile_key_def py_strip_def is_space_def DEFAULT_PROFILE_KEY_def)
  with discovery_is_truthful [of "''student''" default_settings "\<lambda>_. []" 0] show ?thesis by fastforce
qed


text \<open>A request that assumes an image, on the in-memory queue, and a process with its own UUIDs.\<close>

definition verbatim_options :: route_options where
  "verbatim_options = default_options\<lparr>ro_assume_image := True, ro_skip_prompt_design := True\<rparr>"

definition plain_process :: "unit process_env" where
  "plain_process = \<lparr>pe_mock_fresh = nat_str, pe_composite_fresh = nat_str, pe_image_fresh = nat_str, pe_client_hex = nat_str,
     pe_live_hex = (\<lambda>_. nat_str), pe_live_int = (\<lambda>_ n. n), pe_server = (\<lambda>_. ())\<rparr>"

lemma verbatim_simps: "ro_assume_image verbatim_options" "ro_exact_text verbatim_options = None"
  "get_json (image_inputs verbatim_options t xs) ''preview'' = JNull"
  by (simp_all add: verbatim_options_def default_options_def image_inputs_def get_json_def)

lemma verbatim_normalised: "\<exists>i. normalise_inputs plain_env default_settings \<lparr>wf_name = ''image_basic'', wf_version = ''v1'',
     wf_model_family = ''sdxl'', wf_graph_template = [], wf_backend = ''comfyui''\<rparr> (image_inputs verbatim_options t []) = Inr i"
proof -
  have "resolve_profile_key rp JNull (build_profiles default_settings) = Inr ''student''" for rp
    using default_profile_built [of default_settings] by (simp add: resolve_profile_key_def py_strip_def DEFAULT_PROFILE_KEY_def)
  then show ?thesis
    by (simp add: normalise_inputs_def image_inputs_def verbatim_options_def default_options_def opt_json_def get_json_def validate_overrides_def)
qed

lemma verbatim_queued: "\<exists>r q'. process_routed_message plain_env mem_port default_settings (fixed_client CHAT) 9 1 12 5 7 panda_message
    verbatim_options panda_chat panda_chat mem_init = (r, panda_chat, q') \<and> q' \<noteq> mem_init"
proof -
  let ?t = "message_text (py_repr plain_env) panda_message"
  obtain i where "normalise_inputs plain_env default_settings \<lparr>wf_name = ''image_basic'', wf_version = ''v1'',
     wf_model_family = ''sdxl'', wf_graph_template = [], wf_backend = ''comfyui''\<rparr> (image_inputs verbatim_options ?t []) = Inr i"
    using verbatim_normalised by blast
  then have "\<exists>r. start_image plain_env mem_port default_settings 9 1 5 7 panda_message ''image_basic'' (image_inputs verbatim_options ?t [])
      (general_image_key (cm_id panda_message)) mem_init =
      (r, mem_enqueue (panda_job 1 ''image_basic'' i (general_image_key (cm_id panda_message))) mem_init)"
    by (simp add: start_image_def admit_generation_job_def resolve_workflow_known verbatim_simps panda_job_def
        mem_find_by_idempotency_key_def mem_init_def check_idempotency_def check_caps_def
        mem_count_global_backlog_def mem_count_conversation_backlog_def enqueue_new_def Let_def)
  moreover have "mem_enqueue j mem_init \<noteq> mem_init" for j by (simp add: mem_enqueue_def mem_init_def)
  ultimately show ?thesis by (auto simp: process_routed_message_unfold verbatim_simps)
qed


text \<open>A missing provider fails clearly and everywhere: without a key for the provider the settings name, a
  poster job is accepted without any call to a service, and every process built from these settings
  answers a status request for it with the failure \<open><provider>_not_configured\<close>.\<close>
theorem missing_provider_fails_everywhere:
  assumes "choose_image_client s = No_Image_Client" "image_provider s \<in> {''gemini'', ''openrouter''}"
    and "composite_submit rp A B payload (Some ''poster_infographic'') (build_comfy_client s G Q st ist pe) = (r, c')"
  shows "\<exists>pid. r = Inr pid \<and> co_comfyui c' = co_comfyui (build_comfy_client s G Q st ist pe) \<and>
    composite_get_status A2 B2 pid (build_comfy_client s G2 Q2 st2 ist2 pe2) =
      (Inr (failed_status pid (image_provider s @ ''_not_configured'')), build_comfy_client s G2 Q2 st2 ist2 pe2)"
proof -
  let ?pid = "''notconfigured'' @ SEP # image_provider s @ SEP # pe_composite_fresh pe 0"
  have none: "co_gemini (build_comfy_client s G Q st ist pe) = None"
    by (simp add: build_comfy_client_def assms(1) image_client_of_def)
  then have r: "r = Inr ?pid" "co_comfyui c' = co_comfyui (build_comfy_client s G Q st ist pe)"
    using assms(3) by (auto simp: composite_submit_def poster_is_paid build_comfy_client_def)
  have p: "takeWhile (\<lambda>x. x \<noteq> SEP) (image_provider s @ SEP # rest) = image_provider s" "image_provider s \<noteq> []" for rest
    using assms(2) by (auto simp: SEP_def)
  have "composite_decode ?pid = Not_Configured (image_provider s @ SEP # pe_composite_fresh pe 0)"
    by (simp add: composite_decode_def py_partition_def SEP_def)
  with p r show ?thesis by (simp add: composite_get_status_def Let_def)
qed

theorem missing_provider_fails_everywhere_witness:
  "\<exists>pid c'. composite_submit (\<lambda>_. []) (any_comfy_port plain_env down_services) (image_port plain_env None (\<lambda>_. Inr []) (\<lambda>_. Inr JNull) memory_put default_settings)
      [] (Some ''poster_infographic'') (build_comfy_client default_settings (\<lambda>_ _ _. Inr None) (\<lambda>_ _ _. Inr JNull) [] [] plain_process) = (Inr pid, c') \<and>
    fst (composite_get_status (any_comfy_port plain_env down_services)
      (image_port plain_env None (\<lambda>_. Inr []) (\<lambda>_. Inr JNull) memory_put default_settings) pid
      (build_comfy_client default_settings (\<lambda>_ _ _. Inr None) (\<lambda>_ _ _. Inr JNull) [] [] plain_process)) =
      Inr (failed_status pid ''gemini_not_configured'')"
proof -
  have s: "choose_image_client default_settings = No_Image_Client" "image_provider default_settings = ''gemini''"
    by (simp_all add: choose_image_client_def default_settings_def given_def)
  obtain r c' where c: "composite_submit (\<lambda>_. []) (any_comfy_port plain_env down_services)
      (image_port plain_env None (\<lambda>_. Inr []) (\<lambda>_. Inr JNull) memory_put default_settings)
      [] (Some ''poster_infographic'') (build_comfy_client default_settings (\<lambda>_ _ _. Inr None) (\<lambda>_ _ _. Inr JNull) [] [] plain_process) = (r, c')"
    by (metis surj_pair)
  have p: "image_provider default_settings \<in> {''gemini'', ''openrouter''}" by (simp add: s(2))
  from missing_provider_fails_everywhere [OF s(1) p c, where ?A2.0 = "any_comfy_port plain_env down_services"
      and ?B2.0 = "image_port plain_env None (\<lambda>_. Inr []) (\<lambda>_. Inr JNull) memory_put default_settings"
      and ?G2.0 = "\<lambda>_ _ _. Inr None" and ?Q2.0 = "\<lambda>_ _ _. Inr JNull" and ?st2.0 = "[]" and ?ist2.0 = "[]" and ?pe2.0 = plain_process]
  obtain pid where pid: "r = Inr pid" "composite_get_status (any_comfy_port plain_env down_services)
      (image_port plain_env None (\<lambda>_. Inr []) (\<lambda>_. Inr JNull) memory_put default_settings) pid
      (build_comfy_client default_settings (\<lambda>_ _ _. Inr None) (\<lambda>_ _ _. Inr JNull) [] [] plain_process) =
      (Inr (failed_status pid (''gemini'' @ ''_not_configured'')),
       build_comfy_client default_settings (\<lambda>_ _ _. Inr None) (\<lambda>_ _ _. Inr JNull) [] [] plain_process)"
    unfolding s(2) by blast
  show ?thesis by (intro exI [of _ pid] exI [of _ c'] conjI) (use c pid in simp_all)
qed

text \<open>C28. Between processes a paid image is lost: when the scheduler's process has submitted a poster job to the
  provider (whatever came of it), a reconciler in another process, built from the same settings, is told
  by its own provider client that the prompt is unknown and decides to retry or fail the job; the
  reconciler of a one-process deployment decides on the outcome that the submission remembered.\<close>
theorem paid_image_is_lost_between_processes:
  assumes "co_gemini c = Some g" "composite_submit (py_repr E) A (image_port E dsg GI OI put s) payload (Some ''poster_infographic'') c = (Inr pid, c')"
    and "j_prompt_id job = Some pid" "choose_image_client s \<noteq> No_Image_Client"
  shows "fst (judge_job (composite_port (py_repr E) A2 (image_port E dsg2 GI2 OI2 put2 s)) s now job (build_comfy_client s G Q st ist pe)) =
      Inr (V_Fail_Or_Retry ''comfy_transient'' (Some ''unknown_prompt_id'')) \<and>
    (\<exists>i outcome g'. pid = ''gemini'' @ SEP # i \<and> co_gemini c' = Some g' \<and> dget (ic_results g') i = Some outcome \<and>
      fst (judge_job (composite_port (py_repr E) A (image_port E dsg GI OI put s)) s now job c') =
        Inr (resolve_via_comfy s now job (outcome\<lparr>cs_prompt_id := pid\<rparr>)))"
proof -
  obtain res g' where sub: "cc_submit (image_port E dsg GI OI put s) payload (Some ''poster_infographic'') g = (res, g')"
    by (metis surj_pair)
  have plain: "composite_payload (py_repr E) To_Gemini payload c = Inr payload"
    by (simp add: composite_payload_def split: option.split)
  from assms(1,2) sub obtain i where i: "res = Inr i" "pid = ''gemini'' @ SEP # i" "co_gemini c' = Some g'"
    by (auto simp: composite_submit_def poster_is_paid plain tag_id_def split: sum.splits)
  obtain outcome where out: "dget (ic_results g') i = Some outcome" using image_port_remembers [OF sub [unfolded i(1)]] by blast
  have dec: "composite_decode pid = Owned_By To_Gemini i"
    by (simp add: i(2) composite_decode_def py_partition_def SEP_def)
  have has: "has_prompt job" "the (j_prompt_id job) = pid" using assms(3) i(2) by (simp_all add: has_prompt_def)
  obtain g0 where g0: "co_gemini (build_comfy_client s G Q st ist pe) = Some g0" "ic_results g0 = []"
    using assms(4) by (cases "choose_image_client s") (simp_all add: build_comfy_client_def image_client_of_def)
  have "fst (judge_job (composite_port (py_repr E) A2 (image_port E dsg2 GI2 OI2 put2 s)) s now job (build_comfy_client s G Q st ist pe)) =
      Inr (V_Fail_Or_Retry ''comfy_transient'' (Some ''unknown_prompt_id''))"
    by (simp add: judge_job_def has composite_port_def composite_get_status_def dec g0 image_port_status
        resolve_via_comfy_def failed_status_def Let_def)
  moreover have "fst (judge_job (composite_port (py_repr E) A (image_port E dsg GI OI put s)) s now job c') =
      Inr (resolve_via_comfy s now job (outcome\<lparr>cs_prompt_id := pid\<rparr>))"
    by (simp add: judge_job_def has composite_port_def composite_get_status_def dec i(3) image_port_status out Let_def)
  ultimately show ?thesis using out i(2,3) by blast
qed

text \<open>A deployment with a Gemini key, whose scheduler has drawn a poster.\<close>

definition keyed_settings :: settings where
  "keyed_settings = default_settings\<lparr>gemini_api_key := Some ''key''\<rparr>"

definition keyed_port :: "storage image_client comfy_client" where
  "keyed_port = image_port plain_env None (\<lambda>_. Inr [[Some (None, Some ''bytes'')]]) (\<lambda>_. Inr JNull) memory_put keyed_settings"

definition keyed_process :: "(unit any_comfy, storage image_client) composite" where
  "keyed_process = build_comfy_client keyed_settings (\<lambda>_ _ _. Inr None) (\<lambda>_ _ _. Inr JNull) [] [] plain_process"

lemma keyed_choice: "choose_image_client keyed_settings = Gemini_Image_Client ''key'' (gemini_image_model keyed_settings)
    (gemini_image_request_timeout_s keyed_settings)"
  by (simp add: choose_image_client_def keyed_settings_def default_settings_def given_def)

lemma keyed_submit: "\<exists>c'. composite_submit (py_repr plain_env) (any_comfy_port plain_env down_services) keyed_port poster_request
    (Some ''poster_infographic'') keyed_process = (Inr ''gemini:0'', c')"
proof -
  have "fst (gemini_submit (py_repr plain_env) None (\<lambda>_. Inr [[Some (None, Some ''bytes'')]]) memory_put poster_request (Some ''poster_infographic'')
      \<lparr>ic_results = [], ic_storage = [], ic_fresh = nat_str, ic_used = 0\<rparr>) = Inr ''0''" by code_simp
  then obtain g where "gemini_submit (py_repr plain_env) None (\<lambda>_. Inr [[Some (None, Some ''bytes'')]]) memory_put poster_request
      (Some ''poster_infographic'') \<lparr>ic_results = [], ic_storage = [], ic_fresh = nat_str, ic_used = 0\<rparr> = (Inr ''0'', g)"
    by (metis prod.collapse)
  then show ?thesis
    by (simp add: composite_submit_def poster_is_paid keyed_process_def keyed_port_def build_comfy_client_def image_client_of_def
        image_port_def gemini_image_port_def keyed_choice composite_payload_def tag_id_def plain_process_def SEP_def split: option.split)
qed

theorem paid_image_is_lost_between_processes_witness:
  "fst (judge_job (composite_port (py_repr plain_env) (any_comfy_port plain_env down_services) keyed_port) keyed_settings 9
      ((panda_job 1 ''poster_infographic'' poster_request ''k'')\<lparr>j_prompt_id := Some ''gemini:0''\<rparr>) keyed_process) =
    Inr (V_Fail_Or_Retry ''comfy_transient'' (Some ''unknown_prompt_id''))"
proof -
  obtain c' where c: "composite_submit (py_repr plain_env) (any_comfy_port plain_env down_services) keyed_port poster_request
    (Some ''poster_infographic'') keyed_process = (Inr ''gemini:0'', c')" using keyed_submit by blast
  have g: "co_gemini keyed_process = Some \<lparr>ic_results = [], ic_storage = [], ic_fresh = nat_str, ic_used = 0\<rparr>"
    by (simp add: keyed_process_def build_comfy_client_def image_client_of_def keyed_choice plain_process_def)
  show ?thesis unfolding keyed_process_def keyed_port_def
    by (rule conjunct1 [OF paid_image_is_lost_between_processes [OF g c [unfolded keyed_port_def]]]) (simp_all add: keyed_choice)
qed

end
