(* ===== verification/Operator_Scripts.thy ===== *)
theory Operator_Scripts
  imports Auth Py_Json
begin

section \<open>Operator scripts (scripts/)\<close>

text \<open>
  The command-line tools that create service accounts, API keys and load-test users. Each works on
  the tables of \<open>Auth\<close>, one transaction per user; the id, the salt and the token a run draws are
  arguments. The tools run alone, so a lookup and the insert after it see the same tables. What a
  tool prints is its result.
\<close>

subsection \<open>Definitions\<close>

definition new_user :: "uuid \<Rightarrow> string \<Rightarrow> string option \<Rightarrow> string \<Rightarrow> user_row" where
  "new_user new_id email password_hash display_name =
     \<lparr>u_id = new_id, u_email = email, u_password_hash = password_hash, u_display_name = display_name,
      u_status = ''active'', u_plan_code = ''standard''\<rparr>"

text \<open>Minting a key for a user and committing: \<open>key_hash\<close> is unique, and a violation undoes the
  whole transaction (\<open>db0\<close>).\<close>

definition mint :: "auth_env \<Rightarrow> string \<Rightarrow> uuid \<Rightarrow> string \<Rightarrow> auth_db \<Rightarrow> auth_db \<Rightarrow> (exc + string) \<times> auth_db" where
  "mint E token user_id label db0 db =
     (let issued = issue_api_key E token in
      if ik_key_hash issued \<in> ak_key_hash ` set (db_api_keys db) then (Inl ''IntegrityError'', db0)
      else (Inr (ik_raw_key issued),
            db\<lparr>db_api_keys := db_api_keys db @
               [\<lparr>ak_user_id = user_id, ak_key_hash = ik_key_hash issued, ak_label = label, ak_revoked_at = None\<rparr>]\<rparr>))"

definition create_key ::
  "auth_env \<Rightarrow> uuid \<Rightarrow> string \<Rightarrow> string \<Rightarrow> string \<Rightarrow> string \<Rightarrow> auth_db \<Rightarrow> (exc + string) \<times> auth_db" where
  "create_key E new_id token email display_name label db =
     (case user_by_email email db of
        None \<Rightarrow> mint E token new_id label db
                  (db\<lparr>db_users := db_users db @ [new_user new_id email None display_name]\<rparr>)
      | Some u \<Rightarrow> mint E token (u_id u) label db db)"

definition display_name_of :: "string option \<Rightarrow> string \<Rightarrow> string" where
  "display_name_of nm email =
     (case nm of Some n \<Rightarrow> if n \<noteq> [] then n else hd (py_split (CHR ''@'') email)
      | None \<Rightarrow> hd (py_split (CHR ''@'') email))"

text \<open>The command line, as \<open>argparse\<close> reads it: an option that is absent is \<open>None\<close>.\<close>

definition DEFAULT_LABEL :: string where
  "DEFAULT_LABEL = ''service account''"

definition or_else :: "'a option \<Rightarrow> 'a \<Rightarrow> 'a" where
  "or_else x d = (case x of None \<Rightarrow> d | Some v \<Rightarrow> v)"

definition create_api_key_main ::
  "auth_env \<Rightarrow> uuid \<Rightarrow> string \<Rightarrow> string \<Rightarrow> string option \<Rightarrow> string option \<Rightarrow> auth_db \<Rightarrow> (exc + string) \<times> auth_db" where
  "create_api_key_main E new_id token email nm label db =
     create_key E new_id token email (display_name_of nm email) (or_else label DEFAULT_LABEL) db"

definition set_user :: "uuid \<Rightarrow> (user_row \<Rightarrow> user_row) \<Rightarrow> auth_db \<Rightarrow> auth_db" where
  "set_user i f db = db\<lparr>db_users := map (\<lambda>u. if u_id u = i then f u else u) (db_users db)\<rparr>"

datatype seed_action = Created | Updated

definition seed :: "auth_env \<Rightarrow> uuid \<Rightarrow> string \<Rightarrow> string \<Rightarrow> string \<Rightarrow> string \<Rightarrow> auth_db \<Rightarrow> seed_action \<times> auth_db" where
  "seed E new_id salt email password display_name db =
     (case user_by_email email db of
        Some existing \<Rightarrow> (Updated, set_user (u_id existing)
          (\<lambda>u. u\<lparr>u_password_hash := Some (hash_password E salt password), u_display_name := display_name,
                 u_status := ''active''\<rparr>) db)
      | None \<Rightarrow> (Created, db\<lparr>db_users := db_users db @
          [new_user new_id email (Some (hash_password E salt password)) display_name]\<rparr>))"

definition seed_dev_user_main ::
  "auth_env \<Rightarrow> uuid \<Rightarrow> string \<Rightarrow> string option \<Rightarrow> string option \<Rightarrow> string option \<Rightarrow> auth_db \<Rightarrow> seed_action \<times> auth_db" where
  "seed_dev_user_main E new_id salt email password nm db =
     seed E new_id salt (or_else email ''student@example.edu'') (or_else password ''correct-horse-battery-staple'')
       (or_else nm ''Smoke Test Student'') db"

definition pad4 :: "nat \<Rightarrow> string" where
  "pad4 i = replicate (4 - length (nat_str i)) (CHR ''0'') @ nat_str i"

definition EMAIL_TEMPLATE :: "nat \<Rightarrow> string" where
  "EMAIL_TEMPLATE i = ''loadtest-user-'' @ pad4 i @ ''@example.edu''"

definition load_test_name :: "nat \<Rightarrow> string" where
  "load_test_name i = ''Load Test User '' @ pad4 i"

text \<open>The loops over \<open>range(1, count + 1)\<close>; what a run draws for its i-th user is a function of i.\<close>

fun seed_users :: "auth_env \<Rightarrow> (nat \<Rightarrow> uuid) \<Rightarrow> (nat \<Rightarrow> string) \<Rightarrow> string \<Rightarrow> nat list \<Rightarrow> nat \<times> nat \<Rightarrow> auth_db
    \<Rightarrow> (nat \<times> nat) \<times> auth_db" where
  "seed_users E ids salts password [] counts db = (counts, db)"
| "seed_users E ids salts password (i # rest) (created, updated) db =
     (case seed E (ids i) (salts i) (EMAIL_TEMPLATE i) password (load_test_name i) db of
        (Created, db) \<Rightarrow> seed_users E ids salts password rest (created + 1, updated) db
      | (Updated, db) \<Rightarrow> seed_users E ids salts password rest (created, updated + 1) db)"

definition seed_many :: "auth_env \<Rightarrow> (nat \<Rightarrow> uuid) \<Rightarrow> (nat \<Rightarrow> string) \<Rightarrow> nat \<Rightarrow> string \<Rightarrow> auth_db \<Rightarrow> (nat \<times> nat) \<times> auth_db" where
  "seed_many E ids salts count password db = seed_users E ids salts password [1..<count + 1] (0, 0) db"

definition seed_load_test_users_main ::
  "auth_env \<Rightarrow> (nat \<Rightarrow> uuid) \<Rightarrow> (nat \<Rightarrow> string) \<Rightarrow> int option \<Rightarrow> string option \<Rightarrow> auth_db \<Rightarrow> (nat \<times> nat) \<times> auth_db" where
  "seed_load_test_users_main E ids salts count password db =
     seed_many E ids salts (nat (or_else count 100)) (or_else password ''correct-horse-battery-staple'') db"

definition seed_one_key :: "auth_env \<Rightarrow> uuid \<Rightarrow> string \<Rightarrow> string \<Rightarrow> string \<Rightarrow> string \<Rightarrow> auth_db \<Rightarrow> (exc + string) \<times> auth_db" where
  "seed_one_key E new_id token email display_name label db =
     (case user_by_email email db of
        None \<Rightarrow> mint E token new_id label db
                  (db\<lparr>db_users := db_users db @ [new_user new_id email None display_name]\<rparr>)
      | Some u \<Rightarrow> mint E token (u_id u) label db
                  (if u_status u \<noteq> ''active'' then set_user (u_id u) (\<lambda>u. u\<lparr>u_status := ''active''\<rparr>) db else db))"

fun seed_keys :: "auth_env \<Rightarrow> (nat \<Rightarrow> uuid) \<Rightarrow> (nat \<Rightarrow> string) \<Rightarrow> nat list \<Rightarrow> (string \<times> string) list \<Rightarrow> auth_db
    \<Rightarrow> (exc + (string \<times> string) list) \<times> auth_db" where
  "seed_keys E ids tokens [] keys db = (Inr keys, db)"
| "seed_keys E ids tokens (i # rest) keys db =
     (case seed_one_key E (ids i) (tokens i) (EMAIL_TEMPLATE i) (load_test_name i) ''hundred_concurrent_burst.js'' db of
        (Inl e, db) \<Rightarrow> (Inl e, db)
      | (Inr raw_key, db) \<Rightarrow> seed_keys E ids tokens rest (keys @ [(EMAIL_TEMPLATE i, raw_key)]) db)"

definition seed_many_keys :: "auth_env \<Rightarrow> (nat \<Rightarrow> uuid) \<Rightarrow> (nat \<Rightarrow> string) \<Rightarrow> nat \<Rightarrow> auth_db
    \<Rightarrow> (exc + (string \<times> string) list) \<times> auth_db" where
  "seed_many_keys E ids tokens count db = seed_keys E ids tokens [1..<count + 1] [] db"

definition seed_load_test_api_keys_main ::
  "auth_env \<Rightarrow> (nat \<Rightarrow> uuid) \<Rightarrow> (nat \<Rightarrow> string) \<Rightarrow> int option \<Rightarrow> auth_db \<Rightarrow> (exc + (string \<times> string) list) \<times> auth_db" where
  "seed_load_test_api_keys_main E ids tokens count db = seed_many_keys E ids tokens (nat (or_else count 100)) db"

subsection \<open>Accounts\<close>

text \<open>Ids are unique, and so are addresses up to case (\<open>users.email\<close> is a unique \<open>CITEXT\<close>).\<close>

definition users_ok :: "auth_db \<Rightarrow> bool" where
  "users_ok db \<longleftrightarrow> distinct (map u_id (db_users db)) \<and> distinct (map (map to_lower \<circ> u_email) (db_users db))"

lemma same_email_refl [simp]: "same_email e e"
  by (simp add: same_email_def)

lemma find_update:
  assumes "distinct (map k xs)" "\<And>x. P (f x) \<longleftrightarrow> P x"
  shows "find P (map (\<lambda>x. if k x = i then f x else x) xs) =
    map_option (\<lambda>x. if k x = i then f x else x) (find P xs)"
  using assms by (induction xs) auto

lemma user_by_email_SomeD: "user_by_email e db = Some u \<Longrightarrow> u \<in> set (db_users db) \<and> same_email (u_email u) e"
  by (auto simp: user_by_email_def find_Some_iff)

lemma user_by_id_ok:
  assumes "users_ok db" "u \<in> set (db_users db)"
  shows "user_by_id (u_id u) db = Some u"
proof -
  obtain v where "user_by_id (u_id u) db = Some v"
    using assms(2) by (cases "user_by_id (u_id u) db") (auto simp: user_by_id_def find_None_iff)
  moreover from this have "v \<in> set (db_users db)" "u_id v = u_id u" by (auto simp: user_by_id_def find_Some_iff)
  ultimately show ?thesis using assms by (auto simp: users_ok_def distinct_map inj_on_def)
qed

lemma users_ok_add:
  assumes "users_ok db" "user_by_email e db = None" "i \<notin> u_id ` set (db_users db)"
  shows "users_ok (db\<lparr>db_users := db_users db @ [new_user i e h n]\<rparr>)"
  using assms by (auto simp: users_ok_def new_user_def user_by_email_def find_None_iff same_email_def image_iff)

lemma users_ok_set:
  assumes "users_ok db" "\<And>u. u_id (f u) = u_id u" "\<And>u. u_email (f u) = u_email u"
  shows "users_ok (set_user i f db)"
proof -
  have "map u_id (db_users (set_user i f db)) = map u_id (db_users db)"
    "map (map to_lower \<circ> u_email) (db_users (set_user i f db)) = map (map to_lower \<circ> u_email) (db_users db)"
    using assms(2,3) by (simp_all add: set_user_def)
  with assms(1) show ?thesis by (simp only: users_ok_def)
qed

lemma user_by_email_set:
  assumes "users_ok db" "\<And>u. u_email (f u) = u_email u"
  shows "user_by_email e (set_user i f db) = map_option (\<lambda>u. if u_id u = i then f u else u) (user_by_email e db)"
  using assms unfolding user_by_email_def set_user_def users_ok_def by (simp add: find_update)

lemma set_user_simps [simp]:
  "db_sessions (set_user i f db) = db_sessions db" "db_api_keys (set_user i f db) = db_api_keys db"
  by (simp_all add: set_user_def)

lemma ids_set_user: "(\<And>u. u_id (f u) = u_id u) \<Longrightarrow> u_id ` set (db_users (set_user i f db)) = u_id ` set (db_users db)"
proof -
  assume "\<And>u. u_id (f u) = u_id u"
  then have "map u_id (db_users (set_user i f db)) = map u_id (db_users db)" by (simp add: set_user_def)
  then show ?thesis using list.set_map by metis
qed

lemma user_by_email_add:
  "user_by_email e (db\<lparr>db_users := db_users db @ [u]\<rparr>) =
    (case user_by_email e db of Some v \<Rightarrow> Some v | None \<Rightarrow> if same_email (u_email u) e then Some u else None)"
proof -
  have "find P (xs @ [x]) = (case find P xs of Some v \<Rightarrow> Some v | None \<Rightarrow> if P x then Some x else None)"
    for P :: "user_row \<Rightarrow> bool" and xs x by (induction xs) auto
  then show ?thesis by (simp add: user_by_email_def)
qed

lemma user_by_email_cong: "same_email e e' \<Longrightarrow> user_by_email e db = user_by_email e' db"
  by (simp add: user_by_email_def same_email_def)

lemma other_email:
  assumes "users_ok db" "user_by_email e db = Some u" "user_by_email e' db = Some v" "\<not> same_email e' e"
  shows "u_id v \<noteq> u_id u"
  using assms user_by_email_SomeD [OF assms(2)] user_by_email_SomeD [OF assms(3)]
  by (auto simp: users_ok_def distinct_map inj_on_def same_email_def)

subsection \<open>Seeding\<close>

definition seeded :: "auth_env \<Rightarrow> string \<Rightarrow> string \<Rightarrow> user_row \<Rightarrow> bool" where
  "seeded E salt password u \<longleftrightarrow> u_password_hash u = Some (hash_password E salt password) \<and> u_status u = ''active''"

lemma seed_law:
  assumes "users_ok db" "new_id \<notin> u_id ` set (db_users db)"
    and "seed E new_id salt email password name db = (act, db')"
  shows "users_ok db'" and "u_id ` set (db_users db') \<subseteq> insert new_id (u_id ` set (db_users db))"
    and "\<exists>u. user_by_email email db' = Some u \<and> seeded E salt password u"
    and "\<not> same_email e email \<Longrightarrow> user_by_email e db' = user_by_email e db"
    and "act = Created \<longleftrightarrow> user_by_email email db = None"
    and "db_sessions db' = db_sessions db" and "db_api_keys db' = db_api_keys db"
proof -
  have "users_ok db' \<and> u_id ` set (db_users db') \<subseteq> insert new_id (u_id ` set (db_users db)) \<and>
      (\<exists>u. user_by_email email db' = Some u \<and> seeded E salt password u) \<and>
      (\<not> same_email e email \<longrightarrow> user_by_email e db' = user_by_email e db) \<and>
      (act = Created \<longleftrightarrow> user_by_email email db = None) \<and> db_sessions db' = db_sessions db \<and> db_api_keys db' = db_api_keys db"
  proof (cases "user_by_email email db")
    case None
    with assms show ?thesis
      by (auto simp: seed_def users_ok_add user_by_email_add seeded_def same_email_def split: option.splits)
        (simp_all add: new_user_def)
  next
    case (Some u)
    with other_email [OF assms(1), of email u e] have "\<not> same_email e email \<Longrightarrow>
        map_option (\<lambda>v. if u_id v = u_id u then f v else v) (user_by_email e db) = user_by_email e db" for f
      by (cases "user_by_email e db") auto
    moreover from Some assms(3) have "act = Updated" "db' = set_user (u_id u)
        (\<lambda>u. u\<lparr>u_password_hash := Some (hash_password E salt password), u_display_name := name, u_status := ''active''\<rparr>) db"
      by (simp_all add: seed_def)
    ultimately show ?thesis using Some assms(1)
      by (intro conjI subset_insertI2) (simp_all add: ids_set_user user_by_email_set users_ok_set seeded_def)
  qed
  then show "users_ok db'" "u_id ` set (db_users db') \<subseteq> insert new_id (u_id ` set (db_users db))"
    "\<exists>u. user_by_email email db' = Some u \<and> seeded E salt password u"
    "\<not> same_email e email \<Longrightarrow> user_by_email e db' = user_by_email e db"
    "act = Created \<longleftrightarrow> user_by_email email db = None"
    "db_sessions db' = db_sessions db" "db_api_keys db' = db_api_keys db" by blast+
qed

lemma pad4_value: "foldl (\<lambda>a c. 10 * a + digit_val c) 0 (pad4 i) = i"
proof -
  have "foldl (\<lambda>a c. 10 * a + digit_val c) 0 (replicate n (CHR ''0'')) = (0 :: nat)" for n
    by (induction n) (simp_all add: digit_val_def)
  then show ?thesis by (simp add: pad4_def foldl_nat_str)
qed

lemma to_lower_digits: "\<forall>c \<in> set t. is_digit c \<Longrightarrow> map to_lower t = t"
  by (induction t) (simp_all add: is_digit_def to_lower_def)

lemma pad4_digits: "\<forall>c \<in> set (pad4 i). is_digit c"
  using nat_str_digits [of i] by (auto simp: pad4_def is_digit_def)

lemma same_template: "same_email (EMAIL_TEMPLATE i) (EMAIL_TEMPLATE j) \<longleftrightarrow> i = j"
proof
  assume "same_email (EMAIL_TEMPLATE i) (EMAIL_TEMPLATE j)"
  then have "pad4 i = pad4 j" by (simp add: same_email_def EMAIL_TEMPLATE_def to_lower_digits pad4_digits)
  then show "i = j" using pad4_value by metis
qed simp

lemma seed_users_law:
  assumes "users_ok db" "distinct is" "inj_on ids (set is)" "ids ` set is \<inter> u_id ` set (db_users db) = {}"
    and "seed_users E ids salts password is (c, u) db = ((c', u'), db')"
  shows "users_ok db' \<and>
    (\<forall>i \<in> set is. \<exists>v. user_by_email (EMAIL_TEMPLATE i) db' = Some v \<and> seeded E (salts i) password v) \<and>
    (\<forall>e. (\<forall>i \<in> set is. \<not> same_email e (EMAIL_TEMPLATE i)) \<longrightarrow> user_by_email e db' = user_by_email e db) \<and>
    c' = c + length (filter (\<lambda>i. user_by_email (EMAIL_TEMPLATE i) db = None) is) \<and>
    u' = u + length (filter (\<lambda>i. user_by_email (EMAIL_TEMPLATE i) db \<noteq> None) is) \<and>
    db_sessions db' = db_sessions db"
  using assms
proof (induction "is" arbitrary: c u db)
  case (Cons i rest)
  obtain act db1 where step: "seed E (ids i) (salts i) (EMAIL_TEMPLATE i) password (load_test_name i) db = (act, db1)"
    by (metis surj_pair)
  from Cons.prems have fresh: "ids i \<notin> u_id ` set (db_users db)" by auto
  note law = seed_law [OF Cons.prems(1) fresh step]
  have other: "user_by_email (EMAIL_TEMPLATE k) db1 = user_by_email (EMAIL_TEMPLATE k) db" if "k \<in> set rest" for k
    using that Cons.prems(2) by (intro law(4)) (auto simp: same_template)
  have flt: "filter (\<lambda>i. user_by_email (EMAIL_TEMPLATE i) db1 = None) rest = filter (\<lambda>i. user_by_email (EMAIL_TEMPLATE i) db = None) rest"
    "filter (\<lambda>i. user_by_email (EMAIL_TEMPLATE i) db1 \<noteq> None) rest = filter (\<lambda>i. user_by_email (EMAIL_TEMPLATE i) db \<noteq> None) rest"
    using other by (auto intro!: filter_cong)
  have ids: "ids i \<notin> ids ` set rest" using Cons.prems(2,3) by (simp add: inj_on_def) blast
  have disj: "ids ` set rest \<inter> u_id ` set (db_users db1) = {}"
  proof -
    have "ids ` set rest \<inter> insert (ids i) (u_id ` set (db_users db)) = {}" using Cons.prems(4) ids by simp
    with law(2) show ?thesis by blast
  qed
  let ?c = "if act = Created then c + 1 else c" and ?u = "if act = Created then u else u + 1"
  have run: "seed_users E ids salts password rest (?c, ?u) db1 = ((c', u'), db')"
    using Cons.prems(5) step by (cases act) simp_all
  have rest: "distinct rest" "inj_on ids (set rest)" using Cons.prems(2,3) by simp_all
  note IH = Cons.IH [OF law(1) rest disj run]
  have here: "user_by_email (EMAIL_TEMPLATE i) db' = user_by_email (EMAIL_TEMPLATE i) db1"
  proof -
    have "\<forall>k \<in> set rest. \<not> same_email (EMAIL_TEMPLATE i) (EMAIL_TEMPLATE k)"
      using Cons.prems(2) by (auto simp: same_template)
    with IH show ?thesis by simp
  qed
  have away: "user_by_email e db' = user_by_email e db" if "\<forall>k \<in> set (i # rest). \<not> same_email e (EMAIL_TEMPLATE k)" for e
    using IH law(4) [of e] that by simp
  from IH law(3,5,6) flt here away show ?case
    by (intro conjI) (simp_all split: if_splits)
qed simp

text \<open>C38. The load-test tool does what it promises from any state of the tables: afterwards every one
  of its accounts logs in with the password (given a hasher that verifies what it hashed), suspended
  ones included; nobody else's account changes; each account is counted once as created or updated;
  and running it again, with whatever draws, creates nothing.\<close>

theorem seeding_is_idempotent:
  assumes "users_ok db" and "inj_on ids {1..<count + 1}" and "ids ` {1..<count + 1} \<inter> u_id ` set (db_users db) = {}"
    and "\<And>salt. ae_verify E (ae_hash E salt password) password = Verified"
    and "seed_many E ids salts count password db = ((created, updated), db')"
  shows "(\<forall>i \<in> {1..<count + 1}. session_by_hash (hash_token E token) db = None \<longrightarrow>
      (\<exists>r. fst (login E s now token rq (EMAIL_TEMPLATE i) password db') = Inr r)) \<and>
    (\<forall>e. (\<forall>i \<in> {1..<count + 1}. \<not> same_email e (EMAIL_TEMPLATE i)) \<longrightarrow> user_by_email e db' = user_by_email e db) \<and>
    created + updated = count \<and>
    (inj_on ids2 {1..<count + 1} \<longrightarrow> ids2 ` {1..<count + 1} \<inter> u_id ` set (db_users db') = {} \<longrightarrow>
      fst (seed_many E ids2 salts2 count password2 db') = (0, count))"
proof -
  have "users_ok db' \<and>
    (\<forall>i \<in> set [1..<count + 1]. \<exists>v. user_by_email (EMAIL_TEMPLATE i) db' = Some v \<and> seeded E (salts i) password v) \<and>
    (\<forall>e. (\<forall>i \<in> set [1..<count + 1]. \<not> same_email e (EMAIL_TEMPLATE i)) \<longrightarrow> user_by_email e db' = user_by_email e db) \<and>
    created = 0 + length (filter (\<lambda>i. user_by_email (EMAIL_TEMPLATE i) db = None) [1..<count + 1]) \<and>
    updated = 0 + length (filter (\<lambda>i. user_by_email (EMAIL_TEMPLATE i) db \<noteq> None) [1..<count + 1]) \<and>
    db_sessions db' = db_sessions db"
    using assms unfolding seed_many_def by (intro seed_users_law) (simp_all del: upt_Suc)
  then have ok: "users_ok db'" and made: "\<forall>i \<in> {1..<count + 1}. \<exists>v. user_by_email (EMAIL_TEMPLATE i) db' = Some v \<and> seeded E (salts i) password v"
    and others: "\<forall>e. (\<forall>i \<in> {1..<count + 1}. \<not> same_email e (EMAIL_TEMPLATE i)) \<longrightarrow> user_by_email e db' = user_by_email e db"
    and counts: "created + updated = length [1..<count + 1]" and sess: "db_sessions db' = db_sessions db"
    using sum_length_filter_compl [of "\<lambda>i. user_by_email (EMAIL_TEMPLATE i) db = None" "[1..<count + 1]"] by (simp_all del: upt_Suc)
  have "\<exists>r. fst (login E s now token rq (EMAIL_TEMPLATE i) password db') = Inr r"
    if "i \<in> {1..<count + 1}" "session_by_hash (hash_token E token) db = None" for i
  proof -
    from made that(1) obtain v where v: "user_by_email (EMAIL_TEMPLATE i) db' = Some v" "seeded E (salts i) password v" by blast
    from that(2) sess have "session_by_hash (hash_token E token) db' = None" by (simp add: session_by_hash_def)
    with v assms(4) show ?thesis
      by (simp add: login_def seeded_def verify_password_def hash_password_def issue_for_def issue_session_def Let_def)
  qed
  moreover have "fst (seed_many E ids2 salts2 count password2 db') = (0, count)"
    if "inj_on ids2 {1..<count + 1}" "ids2 ` {1..<count + 1} \<inter> u_id ` set (db_users db') = {}"
  proof -
    obtain c2 u2 db2 where again: "seed_users E ids2 salts2 password2 [1..<count + 1] (0, 0) db' = ((c2, u2), db2)"
      by (metis surj_pair)
    have "filter (\<lambda>i. user_by_email (EMAIL_TEMPLATE i) db' = None) [1..<count + 1] = []"
      "filter (\<lambda>i. user_by_email (EMAIL_TEMPLATE i) db' \<noteq> None) [1..<count + 1] = [1..<count + 1]"
      using made by (auto simp: filter_empty_conv simp del: upt_Suc intro!: filter_True)
    with seed_users_law [OF ok _ _ _ again] that again show ?thesis by (simp add: seed_many_def del: upt_Suc)
  qed
  ultimately show ?thesis using others counts by simp
qed

definition argon_env :: auth_env where
  "argon_env = \<lparr>ae_sha256 = (\<lambda>x. x), ae_hash = (\<lambda>salt x. salt @ ''$'' @ x),
     ae_verify = (\<lambda>st x. if \<exists>k \<le> length st. drop k st = ''$'' @ x then Verified else VerifyMismatchError)\<rparr>"

theorem seeding_is_idempotent_witness:
  "\<exists>r. fst (login argon_env default_settings 0 ''t'' (presenting []) (EMAIL_TEMPLATE 2) ''pw''
      (snd (seed_many argon_env (\<lambda>i. 10 + i) (\<lambda>_. ''s'') 2 ''pw'' small_auth_db))) = Inr r"
proof -
  have ok: "users_ok small_auth_db" by code_simp
  have fresh: "inj_on (\<lambda>i. 10 + i :: nat) {1..<2 + 1}" "(\<lambda>i. 10 + i :: nat) ` {1..<2 + 1} \<inter> u_id ` set (db_users small_auth_db) = {}"
    by (simp_all add: small_auth_db_def user_of_def image_iff)
  have v: "ae_verify argon_env (ae_hash argon_env salt ''pw'') ''pw'' = Verified" for salt
    by (auto simp: argon_env_def intro!: exI [of _ "length salt"])
  obtain c u db' where "seed_many argon_env (\<lambda>i. 10 + i) (\<lambda>_. ''s'') 2 ''pw'' small_auth_db = ((c, u), db')"
    by (metis surj_pair)
  moreover have "session_by_hash (hash_token argon_env ''t'') small_auth_db = None"
    by (simp add: session_by_hash_def hash_token_def argon_env_def small_auth_db_def session_of_def)
  ultimately show ?thesis
    using seeding_is_idempotent [OF ok fresh v, of "\<lambda>_. ''s''" c u db' "''t''" default_settings 0 "presenting []"] by auto
qed

subsection \<open>Service keys\<close>

text \<open>What minting does: the new key is the last row, and no other key is touched.\<close>

lemma mint_law:
  assumes "mint E token i label db0 db = (Inr raw, db')"
  shows "raw = KEY_PREFIX @ token" and "db_users db' = db_users db" and "db_sessions db' = db_sessions db"
    and "find (\<lambda>k. ak_key_hash k = hash_api_key E raw) (db_api_keys db') =
      Some \<lparr>ak_user_id = i, ak_key_hash = hash_api_key E raw, ak_label = label, ak_revoked_at = None\<rparr>"
    and "hash_api_key E other \<noteq> hash_api_key E raw \<Longrightarrow>
      find (\<lambda>k. ak_key_hash k = hash_api_key E other) (db_api_keys db') =
      find (\<lambda>k. ak_key_hash k = hash_api_key E other) (db_api_keys db)"
proof -
  have db': "raw = KEY_PREFIX @ token" "hash_api_key E raw \<notin> ak_key_hash ` set (db_api_keys db)"
    "db' = db\<lparr>db_api_keys := db_api_keys db @
      [\<lparr>ak_user_id = i, ak_key_hash = hash_api_key E raw, ak_label = label, ak_revoked_at = None\<rparr>]\<rparr>"
    using assms by (auto simp: mint_def issue_api_key_def generate_raw_api_key_def Let_def split: if_splits)
  then have "find (\<lambda>k. ak_key_hash k = hash_api_key E raw) (db_api_keys db) = None"
    by (force simp: find_None_iff)
  with db' show "raw = KEY_PREFIX @ token" "db_users db' = db_users db" "db_sessions db' = db_sessions db"
    "find (\<lambda>k. ak_key_hash k = hash_api_key E raw) (db_api_keys db') =
      Some \<lparr>ak_user_id = i, ak_key_hash = hash_api_key E raw, ak_label = label, ak_revoked_at = None\<rparr>"
    by (simp_all add: find_append)
  show "find (\<lambda>k. ak_key_hash k = hash_api_key E other) (db_api_keys db') =
      find (\<lambda>k. ak_key_hash k = hash_api_key E other) (db_api_keys db)"
    if "hash_api_key E other \<noteq> hash_api_key E raw"
    using db'(3) that by (auto simp: find_append split: option.splits)
qed

text \<open>C37. A key minted for an address authenticates, in a request that presents it as a bearer token,
  exactly the account of that address, and only while it is active: a suspended account is reused as
  it is. A new service account has no password, so no password logs it in; and the keys minted before
  go on naming whom they named.\<close>

theorem minted_key_names_its_account:
  assumes "users_ok db" and "new_id \<notin> u_id ` set (db_users db)"
    and "create_key E new_id token email display_name label db = (Inr raw, db')"
    and "py_strip (KEY_PREFIX @ token) = KEY_PREFIX @ token"
    and "rq_authorization rq = Some (''Bearer '' @ raw)"
  shows "\<exists>u. user_by_email email db' = Some u \<and>
      get_current_user E s now rq db' =
        (if u_status u = ''active'' then Inr u else Inl (unauthorized ''invalid api key'')) \<and>
      (user_by_email email db = None \<longrightarrow> u_status u = ''active'' \<and>
        (\<forall>pw t' rq'. fst (login E s now t' rq' email pw db') = Inl (unauthorized ''invalid credentials''))) \<and>
      (user_by_email email db \<noteq> None \<longrightarrow> user_by_email email db = Some u) \<and>
      (\<forall>other v. hash_api_key E other \<noteq> hash_api_key E raw \<longrightarrow> resolve_api_key_user E db other = Some v \<longrightarrow>
        resolve_api_key_user E db' other = Some v)"
proof -
  define u where "u = (case user_by_email email db of Some u \<Rightarrow> u | None \<Rightarrow> new_user new_id email None display_name)"
  define db1 where "db1 = (case user_by_email email db of Some u \<Rightarrow> db
    | None \<Rightarrow> db\<lparr>db_users := db_users db @ [new_user new_id email None display_name]\<rparr>)"
  have run: "mint E token (u_id u) label db db1 = (Inr raw, db')"
    using assms(3) by (simp add: create_key_def u_def db1_def new_user_def split: option.splits)
  note law = mint_law [OF run]
  have ok: "users_ok db1" and here: "user_by_email email db1 = Some u"
    using assms(1,2) by (simp_all add: db1_def u_def users_ok_add user_by_email_add split: option.splits)
      (simp_all add: new_user_def)
  have email: "user_by_email email db' = Some u" using here law(2) by (simp add: user_by_email_def)
  have by_id: "user_by_id (u_id u) db' = Some u"
    using user_by_id_ok [OF ok] user_by_email_SomeD [OF here] law(2) by (simp add: user_by_id_def)
  have key: "bearer_key rq = Some raw"
    using assms(4,5) law(1) by (simp add: bearer_key_def KEY_PREFIX_def)
  have "get_current_user E s now rq db' = (if u_status u = ''active'' then Inr u else Inl (unauthorized ''invalid api key''))"
    by (simp add: get_current_user_def key resolve_api_key_user_def law(4) by_id is_api_key_active_def)
  moreover have "u_status u = ''active'' \<and> fst (login E s now t' rq' email pw db') = Inl (unauthorized ''invalid credentials'')"
    if "user_by_email email db = None" for pw t' rq'
    using that email by (simp add: login_def u_def new_user_def)
  moreover have "user_by_email email db = Some u" if "user_by_email email db \<noteq> None"
    using that by (auto simp: u_def)
  moreover have "resolve_api_key_user E db' other = Some v"
    if "hash_api_key E other \<noteq> hash_api_key E raw" "resolve_api_key_user E db other = Some v" for other v
  proof -
    have "user_by_id i db' = Some w" if "user_by_id i db = Some w" for i w
      using that law(2) by (simp add: user_by_id_def db1_def find_append split: option.splits)
    moreover have "db_api_keys db1 = db_api_keys db" by (simp add: db1_def split: option.splits)
    ultimately show ?thesis using that law(5) [OF that(1)]
      by (auto simp: resolve_api_key_user_def split: option.splits if_splits)
  qed
  ultimately show ?thesis using email by (intro exI [of _ u]) simp
qed

definition with_new_key :: request where
  "with_new_key = (presenting [])\<lparr>rq_authorization := Some ''Bearer imgn_new''\<rparr>"

theorem minted_key_names_its_account_witness:
  "\<exists>raw db'. create_key argon_env 7 ''new'' ''bot@x'' ''bot'' ''k'' small_auth_db = (Inr raw, db') \<and>
    (\<exists>u. get_current_user argon_env default_settings 0 with_new_key db' = Inr u \<and> u_id u = 7)"
proof -
  have ok: "users_ok small_auth_db" by code_simp
  have fresh: "7 \<notin> u_id ` set (db_users small_auth_db)" by code_simp
  have none: "user_by_email ''bot@x'' small_auth_db = None" by code_simp
  have "fst (create_key argon_env 7 ''new'' ''bot@x'' ''bot'' ''k'' small_auth_db) = Inr (''imgn_new'')"
    by code_simp
  then obtain db' where run: "create_key argon_env 7 ''new'' ''bot@x'' ''bot'' ''k'' small_auth_db = (Inr ''imgn_new'', db')"
    by (metis prod.collapse)
  have strip: "py_strip (KEY_PREFIX @ ''new'') = KEY_PREFIX @ ''new''" by code_simp
  have auth: "rq_authorization with_new_key = Some (''Bearer '' @ ''imgn_new'')" by (simp add: with_new_key_def)
  from run none have u: "user_by_email ''bot@x'' db' = Some (new_user 7 ''bot@x'' None ''bot'')"
    using mint_law(2) [of argon_env "''new''" 7 "''k''" small_auth_db _ "''imgn_new''" db']
    by (auto simp: create_key_def user_by_email_def find_append new_user_def)
  show ?thesis
    using minted_key_names_its_account [OF ok fresh run strip auth, of default_settings 0] none u run
    by (intro exI [of _ "''imgn_new''"] exI [of _ db']) (auto simp: new_user_def)
qed

end
