(* ===== verification/Schema.thy ===== *)
theory Schema
  imports Prelude
begin

section \<open>The database schema (alembic/versions, db/models.py)\<close>

text \<open>
  The statements of the three migrations and the tables the ORM classes declare, as data; what a
  statement does to a schema, as PostgreSQL documents it; and the walk along the revisions. A
  condition of a CHECK or of a partial index is kept in the four forms the code uses. A name that
  only the ORM side lacks (\<open>unique=True\<close>) is \<open>None\<close>.
\<close>

subsection \<open>Schemas\<close>

datatype sql_type =
    SQL_UUID | SQL_CITEXT | SQL_String | SQL_Timestamptz | SQL_Integer | SQL_BigInteger | SQL_Float | SQL_JSONB

datatype on_delete = CASCADE | SET_NULL

record column =
  c_name :: string
  c_type :: sql_type
  c_nullable :: bool
  c_default :: "string option"
  c_primary_key :: bool
  c_references :: "(string \<times> on_delete) option"

datatype sql_condition =
    Is_Null string
  | Is_Not_Null string
  | Is_In string "string list"
  | Slots_Within string string

record table =
  t_name :: string
  t_columns :: "column list"
  t_checks :: "(string \<times> sql_condition) list"
  t_uniques :: "(string option \<times> string list) list"

text \<open>The columns of an index, each with its direction (\<open>True\<close> for \<open>desc\<close>).\<close>

record index =
  i_name :: string
  i_table :: string
  i_columns :: "(string \<times> bool) list"
  i_unique :: bool
  i_where :: "sql_condition option"

record schema =
  s_extensions :: "string list"
  s_tables :: "table list"
  s_indexes :: "index list"

definition empty_schema :: schema where
  "empty_schema = \<lparr>s_extensions = [], s_tables = [], s_indexes = []\<rparr>"

definition col :: "string \<Rightarrow> sql_type \<Rightarrow> column" where
  "col n ty = \<lparr>c_name = n, c_type = ty, c_nullable = False, c_default = None, c_primary_key = False, c_references = None\<rparr>"

definition opt_col :: "string \<Rightarrow> sql_type \<Rightarrow> column" where
  "opt_col n ty = (col n ty)\<lparr>c_nullable := True\<rparr>"

definition def_col :: "string \<Rightarrow> sql_type \<Rightarrow> string \<Rightarrow> column" where
  "def_col n ty d = (col n ty)\<lparr>c_default := Some d\<rparr>"

definition foreign :: "string \<Rightarrow> string \<Rightarrow> on_delete \<Rightarrow> column" where
  "foreign n target od = (col n SQL_UUID)\<lparr>c_references := Some (target, od)\<rparr>"

definition opt_foreign :: "string \<Rightarrow> string \<Rightarrow> on_delete \<Rightarrow> column" where
  "opt_foreign n target od = (foreign n target od)\<lparr>c_nullable := True\<rparr>"

subsection \<open>Statements\<close>

datatype ddl =
    Create_Extension string
  | Create_Table table
  | Drop_Table string
  | Create_Index index
  | Drop_Index string
  | Drop_Index_If_Exists string
  | Add_Column string column
  | Drop_Column string string

datatype ddl_error = Duplicate_Object string | Undefined_Object string | Dependent_Objects string

definition table_named :: "string \<Rightarrow> schema \<Rightarrow> table option" where
  "table_named n S = find (\<lambda>t. t_name t = n) (s_tables S)"

definition has_columns :: "string list \<Rightarrow> table \<Rightarrow> bool" where
  "has_columns cs t \<longleftrightarrow> list_all (\<lambda>c. c \<in> c_name ` set (t_columns t)) cs"

definition references :: "table \<Rightarrow> string list" where
  "references t = List.map_filter (\<lambda>c. map_option fst (c_references c)) (t_columns t)"

fun condition_columns :: "sql_condition \<Rightarrow> string list" where
  "condition_columns (Is_Null c) = [c]"
| "condition_columns (Is_Not_Null c) = [c]"
| "condition_columns (Is_In c vs) = [c]"
| "condition_columns (Slots_Within a b) = [a, b]"

definition index_columns :: "index \<Rightarrow> string list" where
  "index_columns i = map fst (i_columns i) @ (case i_where i of None \<Rightarrow> [] | Some w \<Rightarrow> condition_columns w)"

definition alter_table :: "string \<Rightarrow> (table \<Rightarrow> table) \<Rightarrow> schema \<Rightarrow> schema" where
  "alter_table n f S = S\<lparr>s_tables := map (\<lambda>t. if t_name t = n then f t else t) (s_tables S)\<rparr>"

text \<open>Every reference of this schema is to the column \<open>id\<close> of a table, so a reference is the name of
  the table. Tables and indexes share one namespace. Dropping a table takes its indexes along and is
  refused while another table refers to it; dropping a column takes along the indexes, checks and
  unique constraints that use it.\<close>

fun exec_ddl :: "ddl \<Rightarrow> schema \<Rightarrow> ddl_error + schema" where
  "exec_ddl (Create_Extension e) S =
     Inr (if e \<in> set (s_extensions S) then S else S\<lparr>s_extensions := s_extensions S @ [e]\<rparr>)"
| "exec_ddl (Create_Table t) S =
     (if table_named (t_name t) S \<noteq> None \<or> t_name t \<in> i_name ` set (s_indexes S) then Inl (Duplicate_Object (t_name t))
      else (case find (\<lambda>r. r \<noteq> t_name t \<and> table_named r S = None) (references t) of
          Some r \<Rightarrow> Inl (Undefined_Object r)
        | None \<Rightarrow> if \<not> distinct (map c_name (t_columns t)) then Inl (Duplicate_Object (t_name t))
            else if \<not> has_columns (concat (map (condition_columns \<circ> snd) (t_checks t)) @ concat (map snd (t_uniques t))) t
              then Inl (Undefined_Object (t_name t))
            else Inr (S\<lparr>s_tables := s_tables S @ [t]\<rparr>)))"
| "exec_ddl (Drop_Table n) S =
     (if table_named n S = None then Inl (Undefined_Object n)
      else if list_ex (\<lambda>t. t_name t \<noteq> n \<and> n \<in> set (references t)) (s_tables S) then Inl (Dependent_Objects n)
      else Inr (S\<lparr>s_tables := filter (\<lambda>t. t_name t \<noteq> n) (s_tables S),
                  s_indexes := filter (\<lambda>i. i_table i \<noteq> n) (s_indexes S)\<rparr>))"
| "exec_ddl (Create_Index i) S =
     (if i_name i \<in> i_name ` set (s_indexes S) \<or> table_named (i_name i) S \<noteq> None then Inl (Duplicate_Object (i_name i))
      else (case table_named (i_table i) S of
          None \<Rightarrow> Inl (Undefined_Object (i_table i))
        | Some t \<Rightarrow> if \<not> has_columns (index_columns i) t then Inl (Undefined_Object (i_name i))
            else Inr (S\<lparr>s_indexes := s_indexes S @ [i]\<rparr>)))"
| "exec_ddl (Drop_Index n) S =
     (if n \<notin> i_name ` set (s_indexes S) then Inl (Undefined_Object n)
      else Inr (S\<lparr>s_indexes := filter (\<lambda>i. i_name i \<noteq> n) (s_indexes S)\<rparr>))"
| "exec_ddl (Drop_Index_If_Exists n) S = Inr (S\<lparr>s_indexes := filter (\<lambda>i. i_name i \<noteq> n) (s_indexes S)\<rparr>)"
| "exec_ddl (Add_Column n c) S =
     (case table_named n S of
        None \<Rightarrow> Inl (Undefined_Object n)
      | Some t \<Rightarrow> if c_name c \<in> c_name ` set (t_columns t) then Inl (Duplicate_Object (c_name c))
          else Inr (alter_table n (\<lambda>t. t\<lparr>t_columns := t_columns t @ [c]\<rparr>) S))"
| "exec_ddl (Drop_Column n c) S =
     (case table_named n S of
        None \<Rightarrow> Inl (Undefined_Object n)
      | Some t \<Rightarrow> if \<not> has_columns [c] t then Inl (Undefined_Object c)
          else Inr (alter_table n (\<lambda>t. t\<lparr>t_columns := filter (\<lambda>d. c_name d \<noteq> c) (t_columns t),
                 t_checks := filter (\<lambda>k. c \<notin> set (condition_columns (snd k))) (t_checks t),
                 t_uniques := filter (\<lambda>u. c \<notin> set (snd u)) (t_uniques t)\<rparr>)
               (S\<lparr>s_indexes := filter (\<lambda>i. \<not> (i_table i = n \<and> c \<in> set (index_columns i))) (s_indexes S)\<rparr>)))"

text \<open>A revision runs in one transaction: an error leaves the schema as it was.\<close>

fun run_ddl :: "ddl list \<Rightarrow> schema \<Rightarrow> ddl_error + schema" where
  "run_ddl [] S = Inr S"
| "run_ddl (d # ds) S = (case exec_ddl d S of Inl e \<Rightarrow> Inl e | Inr S' \<Rightarrow> run_ddl ds S')"

end
