(* ===== verification/Migrations.thy ===== *)
theory Migrations
  imports Schema
begin

section \<open>The migrations and the ORM's tables (alembic/versions, db/models.py)\<close>

text \<open>
  One definition per table a migration creates, one per migration and direction, in the order of
  the files; then one per ORM class, with its indexes; and what the two sides have in common.
\<close>

text \<open>The two column forms both sides repeat: the key and a time stamp that defaults to now.\<close>

definition uuid_pk :: column where
  "uuid_pk = (col ''id'' SQL_UUID)\<lparr>c_default := Some ''gen_random_uuid()'', c_primary_key := True\<rparr>"

definition now_col :: "string \<Rightarrow> column" where
  "now_col n = def_col n SQL_Timestamptz ''now()''"

subsection \<open>Migrations\<close>

definition created_users :: table where
  "created_users = \<lparr>t_name = ''users'', t_columns = [
      uuid_pk, col ''email'' SQL_CITEXT, opt_col ''password_hash'' SQL_String, col ''display_name'' SQL_String,
      def_col ''status'' SQL_String ''active'', def_col ''plan_code'' SQL_String ''standard'',
      now_col ''created_at'', now_col ''updated_at'', opt_col ''deleted_at'' SQL_Timestamptz],
    t_checks = [(''ck_users_status'', Is_In ''status'' [''active'', ''suspended'', ''deleted''])],
    t_uniques = [(Some ''uq_users_email'', [''email''])]\<rparr>"

definition created_auth_sessions :: table where
  "created_auth_sessions = \<lparr>t_name = ''auth_sessions'', t_columns = [
      uuid_pk, foreign ''user_id'' ''users'' CASCADE, col ''token_hash'' SQL_String, now_col ''created_at'',
      now_col ''last_seen_at'', col ''expires_at'' SQL_Timestamptz, opt_col ''revoked_at'' SQL_Timestamptz,
      opt_col ''ip_hash'' SQL_String, opt_col ''user_agent'' SQL_String],
    t_checks = [],
    t_uniques = [(Some ''uq_auth_sessions_token_hash'', [''token_hash''])]\<rparr>"

definition ix_auth_sessions_user_expires :: index where
  "ix_auth_sessions_user_expires =
     \<lparr>i_name = ''ix_auth_sessions_user_expires'', i_table = ''auth_sessions'', i_columns = [(''user_id'', False), (''expires_at'', True)],
         i_unique = False, i_where = None\<rparr>"

definition ix_auth_sessions_active :: index where
  "ix_auth_sessions_active =
     \<lparr>i_name = ''ix_auth_sessions_active'', i_table = ''auth_sessions'', i_columns = [(''user_id'', False)],
         i_unique = False, i_where = Some (Is_Null ''revoked_at'')\<rparr>"

definition created_conversations :: table where
  "created_conversations = \<lparr>t_name = ''conversations'', t_columns = [
      uuid_pk, foreign ''user_id'' ''users'' CASCADE, def_col ''title'' SQL_String ''New conversation'',
      def_col ''status'' SQL_String ''active'', now_col ''created_at'', now_col ''updated_at'',
      opt_col ''archived_at'' SQL_Timestamptz, opt_col ''deleted_at'' SQL_Timestamptz],
    t_checks = [(''ck_conversations_status'', Is_In ''status'' [''active'', ''archived'', ''deleted''])],
    t_uniques = []\<rparr>"

definition ix_conversations_user_updated :: index where
  "ix_conversations_user_updated =
     \<lparr>i_name = ''ix_conversations_user_updated'', i_table = ''conversations'', i_columns = [(''user_id'', False), (''updated_at'', True)],
         i_unique = False, i_where = Some (Is_Null ''deleted_at'')\<rparr>"

definition created_chat_messages :: table where
  "created_chat_messages = \<lparr>t_name = ''chat_messages'', t_columns = [
      uuid_pk, foreign ''conversation_id'' ''conversations'' CASCADE, col ''role'' SQL_String,
      col ''sequence_no'' SQL_BigInteger, opt_col ''client_message_id'' SQL_String, col ''content'' SQL_JSONB,
      def_col ''status'' SQL_String ''complete'', opt_col ''model_name'' SQL_String,
      opt_col ''input_tokens'' SQL_Integer, opt_col ''output_tokens'' SQL_Integer,
      opt_col ''latency_ms'' SQL_Integer, now_col ''created_at''],
    t_checks = [(''ck_chat_messages_role'', Is_In ''role'' [''user'', ''assistant'', ''system'', ''tool''])],
    t_uniques = [(Some ''uq_chat_messages_conv_seq'', [''conversation_id'', ''sequence_no''])]\<rparr>"

definition uq_chat_messages_conv_client_id :: index where
  "uq_chat_messages_conv_client_id =
     \<lparr>i_name = ''uq_chat_messages_conv_client_id'', i_table = ''chat_messages'', i_columns = [(''conversation_id'', False), (''client_message_id'', False)],
         i_unique = True, i_where = Some (Is_Not_Null ''client_message_id'')\<rparr>"

definition ix_chat_messages_conv_seq :: index where
  "ix_chat_messages_conv_seq =
     \<lparr>i_name = ''ix_chat_messages_conv_seq'', i_table = ''chat_messages'', i_columns = [(''conversation_id'', False), (''sequence_no'', False)],
         i_unique = False, i_where = None\<rparr>"

definition created_comfy_workers :: table where
  "created_comfy_workers = \<lparr>t_name = ''comfy_workers'', t_columns = [
      uuid_pk, col ''name'' SQL_String, col ''endpoint_ref'' SQL_String, def_col ''status'' SQL_String ''offline'',
      def_col ''capabilities'' SQL_JSONB ''{}'', def_col ''max_slots'' SQL_Integer ''1'',
      def_col ''reserved_slots'' SQL_Integer ''0'', def_col ''running_slots'' SQL_Integer ''0'',
      opt_col ''last_heartbeat_at'' SQL_Timestamptz, opt_col ''draining_at'' SQL_Timestamptz,
      def_col ''recent_failure_count'' SQL_Integer ''0'', opt_col ''recent_failure_window_started_at'' SQL_Timestamptz],
    t_checks = [(''ck_comfy_workers_status'', Is_In ''status'' [''online'', ''draining'', ''offline'']),
      (''ck_reserved_slots'', Slots_Within ''reserved_slots'' ''max_slots''),
      (''ck_running_slots'', Slots_Within ''running_slots'' ''max_slots'')],
    t_uniques = [(Some ''uq_comfy_workers_name'', [''name''])]\<rparr>"

definition created_generation_jobs :: table where
  "created_generation_jobs = \<lparr>t_name = ''generation_jobs'', t_columns = [
      uuid_pk, foreign ''user_id'' ''users'' CASCADE, opt_foreign ''conversation_id'' ''conversations'' SET_NULL,
      opt_foreign ''request_message_id'' ''chat_messages'' SET_NULL, col ''kind'' SQL_String,
      col ''model_family'' SQL_String, col ''workflow_version'' SQL_String, def_col ''state'' SQL_String ''queued'',
      def_col ''priority'' SQL_Integer ''0'', def_col ''effective_priority'' SQL_Float ''0'',
      col ''idempotency_key'' SQL_String, col ''input_payload'' SQL_JSONB,
      opt_foreign ''assigned_worker_id'' ''comfy_workers'' SET_NULL, def_col ''current_attempt'' SQL_Integer ''0'',
      def_col ''max_attempts'' SQL_Integer ''3'', now_col ''queued_at'', now_col ''available_at'',
      opt_col ''started_at'' SQL_Timestamptz, opt_col ''finished_at'' SQL_Timestamptz,
      opt_col ''cancel_requested_at'' SQL_Timestamptz, opt_col ''error_code'' SQL_String,
      opt_col ''error_detail_sanitized'' SQL_String],
    t_checks = [(''ck_generation_jobs_state'', Is_In ''state''
      [''queued'', ''admitted'', ''dispatched'', ''running'', ''retry_wait'', ''cancelling'', ''cancelled'', ''succeeded'', ''failed''])],
    t_uniques = [(Some ''uq_generation_jobs_user_idem_kind'', [''user_id'', ''idempotency_key'', ''kind''])]\<rparr>"

definition ix_generation_jobs_queue :: index where
  "ix_generation_jobs_queue =
     \<lparr>i_name = ''ix_generation_jobs_queue'', i_table = ''generation_jobs'', i_columns = [(''effective_priority'', True), (''queued_at'', False)],
         i_unique = False, i_where = Some (Is_In ''state'' [''queued'', ''retry_wait''])\<rparr>"

definition ix_generation_jobs_user_history :: index where
  "ix_generation_jobs_user_history =
     \<lparr>i_name = ''ix_generation_jobs_user_history'', i_table = ''generation_jobs'', i_columns = [(''user_id'', False), (''queued_at'', True)],
         i_unique = False, i_where = None\<rparr>"

definition ix_generation_jobs_conversation_history :: index where
  "ix_generation_jobs_conversation_history =
     \<lparr>i_name = ''ix_generation_jobs_conversation_history'', i_table = ''generation_jobs'', i_columns = [(''conversation_id'', False), (''queued_at'', True)],
         i_unique = False, i_where = None\<rparr>"

definition created_job_attempts :: table where
  "created_job_attempts = \<lparr>t_name = ''job_attempts'', t_columns = [
      uuid_pk, foreign ''job_id'' ''generation_jobs'' CASCADE, col ''attempt_no'' SQL_Integer,
      opt_foreign ''worker_id'' ''comfy_workers'' SET_NULL, col ''state'' SQL_String, col ''lease_owner'' SQL_String,
      col ''lease_expires_at'' SQL_Timestamptz, opt_col ''comfy_prompt_id'' SQL_String, now_col ''submitted_at'',
      opt_col ''started_at'' SQL_Timestamptz, opt_col ''finished_at'' SQL_Timestamptz,
      opt_col ''error_code'' SQL_String, def_col ''metrics'' SQL_JSONB ''{}''],
    t_checks = [],
    t_uniques = [(Some ''uq_job_attempts_job_attempt'', [''job_id'', ''attempt_no''])]\<rparr>"

definition created_job_events :: table where
  "created_job_events = \<lparr>t_name = ''job_events'', t_columns = [
      (col ''id'' SQL_BigInteger)\<lparr>c_primary_key := True, c_default := Some ''nextval''\<rparr>,
      foreign ''job_id'' ''generation_jobs'' CASCADE, col ''sequence_no'' SQL_BigInteger,
      col ''event_type'' SQL_String, def_col ''payload'' SQL_JSONB ''{}'', now_col ''created_at''],
    t_checks = [],
    t_uniques = [(Some ''uq_job_events_job_seq'', [''job_id'', ''sequence_no''])]\<rparr>"

definition ix_job_events_job_seq :: index where
  "ix_job_events_job_seq =
     \<lparr>i_name = ''ix_job_events_job_seq'', i_table = ''job_events'', i_columns = [(''job_id'', False), (''sequence_no'', False)],
         i_unique = False, i_where = None\<rparr>"

definition created_assets :: table where
  "created_assets = \<lparr>t_name = ''assets'', t_columns = [
      uuid_pk, foreign ''job_id'' ''generation_jobs'' CASCADE, foreign ''owner_user_id'' ''users'' CASCADE,
      col ''kind'' SQL_String, col ''object_key'' SQL_String, col ''mime_type'' SQL_String,
      col ''byte_size'' SQL_BigInteger, col ''sha256'' SQL_String, opt_col ''width'' SQL_Integer,
      opt_col ''height'' SQL_Integer, now_col ''created_at'', opt_col ''deleted_at'' SQL_Timestamptz],
    t_checks = [],
    t_uniques = [(Some ''uq_assets_object_key'', [''object_key''])]\<rparr>"

definition ix_assets_owner :: index where
  "ix_assets_owner =
     \<lparr>i_name = ''ix_assets_owner'', i_table = ''assets'', i_columns = [(''owner_user_id'', False), (''created_at'', True)],
         i_unique = False, i_where = None\<rparr>"

definition created_scheduler_leases :: table where
  "created_scheduler_leases = \<lparr>t_name = ''scheduler_leases'', t_columns = [
      uuid_pk, col ''lease_name'' SQL_String, col ''holder'' SQL_String,
      def_col ''fencing_token'' SQL_BigInteger ''0'', col ''expires_at'' SQL_Timestamptz, now_col ''updated_at''],
    t_checks = [],
    t_uniques = [(Some ''uq_scheduler_leases_name'', [''lease_name''])]\<rparr>"

definition upgrade_1 :: "ddl list" where
  "upgrade_1 =
    [Create_Extension ''pgcrypto'',
     Create_Extension ''citext'',
     Create_Table created_users,
     Create_Table created_auth_sessions,
     Create_Index ix_auth_sessions_user_expires,
     Create_Index ix_auth_sessions_active,
     Create_Table created_conversations,
     Create_Index ix_conversations_user_updated,
     Create_Table created_chat_messages,
     Create_Index uq_chat_messages_conv_client_id,
     Create_Index ix_chat_messages_conv_seq,
     Create_Table created_comfy_workers,
     Create_Table created_generation_jobs,
     Create_Index ix_generation_jobs_queue,
     Create_Index ix_generation_jobs_user_history,
     Create_Index ix_generation_jobs_conversation_history,
     Create_Table created_job_attempts,
     Create_Table created_job_events,
     Create_Index ix_job_events_job_seq,
     Create_Table created_assets,
     Create_Index ix_assets_owner,
     Create_Table created_scheduler_leases]"

definition downgrade_1 :: "ddl list" where
  "downgrade_1 =
    [Drop_Table ''scheduler_leases'',
     Drop_Table ''assets'',
     Drop_Table ''job_events'',
     Drop_Table ''job_attempts'',
     Drop_Table ''generation_jobs'',
     Drop_Table ''chat_messages'',
     Drop_Table ''conversations'',
     Drop_Table ''auth_sessions'',
     Drop_Table ''comfy_workers'',
     Drop_Table ''users'']"

definition created_pending_actions :: table where
  "created_pending_actions = \<lparr>t_name = ''pending_actions'', t_columns = [
      uuid_pk, foreign ''user_id'' ''users'' CASCADE, foreign ''conversation_id'' ''conversations'' CASCADE,
      col ''action_type'' SQL_String, def_col ''billing_category'' SQL_String ''paid'',
      col ''normalized_params'' SQL_JSONB, col ''params_fingerprint'' SQL_String,
      def_col ''status'' SQL_String ''pending'', col ''expires_at'' SQL_Timestamptz, now_col ''created_at'',
      opt_col ''consumed_at'' SQL_Timestamptz, opt_col ''resulting_job_id'' SQL_String],
    t_checks = [(''ck_pending_actions_action_type'', Is_In ''action_type'' [''poster'', ''infographic'']),
      (''ck_pending_actions_billing'', Is_In ''billing_category'' [''local'', ''paid'']),
      (''ck_pending_actions_status'', Is_In ''status'' [''pending'', ''confirmed'', ''cancelled'', ''expired''])],
    t_uniques = []\<rparr>"

definition ix_pending_actions_user_status :: index where
  "ix_pending_actions_user_status =
     \<lparr>i_name = ''ix_pending_actions_user_status'', i_table = ''pending_actions'', i_columns = [(''user_id'', False), (''status'', False)],
         i_unique = False, i_where = None\<rparr>"

definition ix_pending_actions_conversation_pending :: index where
  "ix_pending_actions_conversation_pending =
     \<lparr>i_name = ''ix_pending_actions_conversation_pending'', i_table = ''pending_actions'', i_columns = [(''conversation_id'', False)],
         i_unique = False, i_where = Some (Is_In ''status'' [''pending''])\<rparr>"

definition upgrade_2 :: "ddl list" where
  "upgrade_2 =
    [Create_Table created_pending_actions,
     Create_Index ix_pending_actions_user_status,
     Create_Index ix_pending_actions_conversation_pending]"

definition downgrade_2 :: "ddl list" where
  "downgrade_2 =
    [Drop_Table ''pending_actions'']"

definition created_api_keys :: table where
  "created_api_keys = \<lparr>t_name = ''api_keys'', t_columns = [
      uuid_pk, foreign ''user_id'' ''users'' CASCADE, col ''key_hash'' SQL_String, col ''label'' SQL_String,
      now_col ''created_at'', opt_col ''last_used_at'' SQL_Timestamptz, opt_col ''revoked_at'' SQL_Timestamptz],
    t_checks = [],
    t_uniques = [(Some ''uq_api_keys_key_hash'', [''key_hash''])]\<rparr>"

definition ix_api_keys_user :: index where
  "ix_api_keys_user =
     \<lparr>i_name = ''ix_api_keys_user'', i_table = ''api_keys'', i_columns = [(''user_id'', False)],
         i_unique = False, i_where = None\<rparr>"

definition ix_api_keys_active :: index where
  "ix_api_keys_active =
     \<lparr>i_name = ''ix_api_keys_active'', i_table = ''api_keys'', i_columns = [(''key_hash'', False)],
         i_unique = False, i_where = Some (Is_Null ''revoked_at'')\<rparr>"

definition uq_conversations_user_external_ref :: index where
  "uq_conversations_user_external_ref =
     \<lparr>i_name = ''uq_conversations_user_external_ref'', i_table = ''conversations'',
         i_columns = [(''user_id'', False), (''external_ref'', False)],
         i_unique = True, i_where = Some (Is_Not_Null ''external_ref'')\<rparr>"

definition upgrade_3 :: "ddl list" where
  "upgrade_3 =
    [Create_Table created_api_keys,
     Create_Index ix_api_keys_user,
     Create_Index ix_api_keys_active,
     Add_Column ''conversations'' (opt_col ''external_ref'' SQL_String),
     Create_Index uq_conversations_user_external_ref]"

definition downgrade_3 :: "ddl list" where
  "downgrade_3 =
    [Drop_Index_If_Exists ''uq_conversations_user_external_ref'',
     Drop_Column ''conversations'' ''external_ref'',
     Drop_Index_If_Exists ''ix_api_keys_active'',
     Drop_Index ''ix_api_keys_user'',
     Drop_Table ''api_keys'']"

subsection \<open>ORM classes\<close>

definition User_table :: table where
  "User_table = \<lparr>t_name = ''users'', t_columns = [
      uuid_pk, col ''email'' SQL_CITEXT, opt_col ''password_hash'' SQL_String, col ''display_name'' SQL_String,
      def_col ''status'' SQL_String ''active'', def_col ''plan_code'' SQL_String ''standard'',
      now_col ''created_at'', now_col ''updated_at'', opt_col ''deleted_at'' SQL_Timestamptz],
    t_checks = [(''ck_users_status'', Is_In ''status'' [''active'', ''suspended'', ''deleted''])],
    t_uniques = [(None, [''email''])]\<rparr>"

definition AuthSession_table :: table where
  "AuthSession_table = \<lparr>t_name = ''auth_sessions'', t_columns = [
      uuid_pk, foreign ''user_id'' ''users'' CASCADE, col ''token_hash'' SQL_String, now_col ''created_at'',
      now_col ''last_seen_at'', col ''expires_at'' SQL_Timestamptz, opt_col ''revoked_at'' SQL_Timestamptz,
      opt_col ''ip_hash'' SQL_String, opt_col ''user_agent'' SQL_String],
    t_checks = [],
    t_uniques = [(None, [''token_hash''])]\<rparr>"

definition AuthSession_indexes :: "index list" where
  "AuthSession_indexes = [
       \<lparr>i_name = ''ix_auth_sessions_user_expires'', i_table = ''auth_sessions'', i_columns = [(''user_id'', False), (''expires_at'', False)],
         i_unique = False, i_where = None\<rparr>,
       \<lparr>i_name = ''ix_auth_sessions_active'', i_table = ''auth_sessions'', i_columns = [(''user_id'', False)],
         i_unique = False, i_where = Some (Is_Null ''revoked_at'')\<rparr>]"

definition ApiKey_table :: table where
  "ApiKey_table = \<lparr>t_name = ''api_keys'', t_columns = [
      uuid_pk, foreign ''user_id'' ''users'' CASCADE, col ''key_hash'' SQL_String, col ''label'' SQL_String,
      now_col ''created_at'', opt_col ''last_used_at'' SQL_Timestamptz, opt_col ''revoked_at'' SQL_Timestamptz],
    t_checks = [],
    t_uniques = [(None, [''key_hash''])]\<rparr>"

definition ApiKey_indexes :: "index list" where
  "ApiKey_indexes = [
       \<lparr>i_name = ''ix_api_keys_user'', i_table = ''api_keys'', i_columns = [(''user_id'', False)],
         i_unique = False, i_where = None\<rparr>,
       \<lparr>i_name = ''ix_api_keys_active'', i_table = ''api_keys'', i_columns = [(''key_hash'', False)],
         i_unique = False, i_where = Some (Is_Null ''revoked_at'')\<rparr>]"

definition Conversation_table :: table where
  "Conversation_table = \<lparr>t_name = ''conversations'', t_columns = [
      uuid_pk, foreign ''user_id'' ''users'' CASCADE, def_col ''title'' SQL_String ''New conversation'',
      def_col ''status'' SQL_String ''active'', opt_col ''external_ref'' SQL_String, now_col ''created_at'',
      now_col ''updated_at'', opt_col ''archived_at'' SQL_Timestamptz, opt_col ''deleted_at'' SQL_Timestamptz],
    t_checks = [(''ck_conversations_status'', Is_In ''status'' [''active'', ''archived'', ''deleted''])],
    t_uniques = []\<rparr>"

definition Conversation_indexes :: "index list" where
  "Conversation_indexes = [
       \<lparr>i_name = ''ix_conversations_user_updated'', i_table = ''conversations'', i_columns = [(''user_id'', False), (''updated_at'', True)],
         i_unique = False, i_where = Some (Is_Null ''deleted_at'')\<rparr>,
       \<lparr>i_name = ''uq_conversations_user_external_ref'', i_table = ''conversations'',
         i_columns = [(''user_id'', False), (''external_ref'', False)],
         i_unique = True, i_where = Some (Is_Not_Null ''external_ref'')\<rparr>]"

definition ChatMessage_table :: table where
  "ChatMessage_table = \<lparr>t_name = ''chat_messages'', t_columns = [
      uuid_pk, foreign ''conversation_id'' ''conversations'' CASCADE, col ''role'' SQL_String,
      col ''sequence_no'' SQL_BigInteger, opt_col ''client_message_id'' SQL_String, col ''content'' SQL_JSONB,
      def_col ''status'' SQL_String ''complete'', opt_col ''model_name'' SQL_String,
      opt_col ''input_tokens'' SQL_Integer, opt_col ''output_tokens'' SQL_Integer,
      opt_col ''latency_ms'' SQL_Integer, now_col ''created_at''],
    t_checks = [(''ck_chat_messages_role'', Is_In ''role'' [''user'', ''assistant'', ''system'', ''tool''])],
    t_uniques = [(Some ''uq_chat_messages_conv_seq'', [''conversation_id'', ''sequence_no''])]\<rparr>"

definition ChatMessage_indexes :: "index list" where
  "ChatMessage_indexes = [
       \<lparr>i_name = ''uq_chat_messages_conv_client_id'', i_table = ''chat_messages'', i_columns = [(''conversation_id'', False), (''client_message_id'', False)],
         i_unique = True, i_where = Some (Is_Not_Null ''client_message_id'')\<rparr>,
       \<lparr>i_name = ''ix_chat_messages_conv_seq'', i_table = ''chat_messages'', i_columns = [(''conversation_id'', False), (''sequence_no'', False)],
         i_unique = False, i_where = None\<rparr>]"

definition GenerationJob_table :: table where
  "GenerationJob_table = \<lparr>t_name = ''generation_jobs'', t_columns = [
      uuid_pk, foreign ''user_id'' ''users'' CASCADE, opt_foreign ''conversation_id'' ''conversations'' SET_NULL,
      opt_foreign ''request_message_id'' ''chat_messages'' SET_NULL, col ''kind'' SQL_String,
      col ''model_family'' SQL_String, col ''workflow_version'' SQL_String, def_col ''state'' SQL_String ''queued'',
      def_col ''priority'' SQL_Integer ''0'', def_col ''effective_priority'' SQL_Float ''0'',
      col ''idempotency_key'' SQL_String, col ''input_payload'' SQL_JSONB,
      opt_foreign ''assigned_worker_id'' ''comfy_workers'' SET_NULL, def_col ''current_attempt'' SQL_Integer ''0'',
      def_col ''max_attempts'' SQL_Integer ''3'', now_col ''queued_at'', now_col ''available_at'',
      opt_col ''started_at'' SQL_Timestamptz, opt_col ''finished_at'' SQL_Timestamptz,
      opt_col ''cancel_requested_at'' SQL_Timestamptz, opt_col ''error_code'' SQL_String,
      opt_col ''error_detail_sanitized'' SQL_String],
    t_checks = [(''ck_generation_jobs_state'', Is_In ''state''
      [''queued'', ''admitted'', ''dispatched'', ''running'', ''retry_wait'', ''cancelling'', ''cancelled'', ''succeeded'', ''failed''])],
    t_uniques = [(Some ''uq_generation_jobs_user_idem_kind'', [''user_id'', ''idempotency_key'', ''kind''])]\<rparr>"

definition GenerationJob_indexes :: "index list" where
  "GenerationJob_indexes = [
       \<lparr>i_name = ''ix_generation_jobs_queue'', i_table = ''generation_jobs'', i_columns = [(''effective_priority'', True), (''queued_at'', False)],
         i_unique = False, i_where = Some (Is_In ''state'' [''queued'', ''retry_wait''])\<rparr>,
       \<lparr>i_name = ''ix_generation_jobs_user_history'', i_table = ''generation_jobs'', i_columns = [(''user_id'', False), (''queued_at'', True)],
         i_unique = False, i_where = None\<rparr>,
       \<lparr>i_name = ''ix_generation_jobs_conversation_history'', i_table = ''generation_jobs'', i_columns = [(''conversation_id'', False), (''queued_at'', True)],
         i_unique = False, i_where = None\<rparr>]"

definition JobAttempt_table :: table where
  "JobAttempt_table = \<lparr>t_name = ''job_attempts'', t_columns = [
      uuid_pk, foreign ''job_id'' ''generation_jobs'' CASCADE, col ''attempt_no'' SQL_Integer,
      opt_foreign ''worker_id'' ''comfy_workers'' SET_NULL, col ''state'' SQL_String, col ''lease_owner'' SQL_String,
      col ''lease_expires_at'' SQL_Timestamptz, opt_col ''comfy_prompt_id'' SQL_String, now_col ''submitted_at'',
      opt_col ''started_at'' SQL_Timestamptz, opt_col ''finished_at'' SQL_Timestamptz,
      opt_col ''error_code'' SQL_String, def_col ''metrics'' SQL_JSONB ''{}''],
    t_checks = [],
    t_uniques = [(Some ''uq_job_attempts_job_attempt'', [''job_id'', ''attempt_no''])]\<rparr>"

definition JobEvent_table :: table where
  "JobEvent_table = \<lparr>t_name = ''job_events'', t_columns = [
      (col ''id'' SQL_BigInteger)\<lparr>c_primary_key := True, c_default := Some ''nextval''\<rparr>,
      foreign ''job_id'' ''generation_jobs'' CASCADE, col ''sequence_no'' SQL_BigInteger,
      col ''event_type'' SQL_String, def_col ''payload'' SQL_JSONB ''{}'', now_col ''created_at''],
    t_checks = [],
    t_uniques = [(Some ''uq_job_events_job_seq'', [''job_id'', ''sequence_no''])]\<rparr>"

definition JobEvent_indexes :: "index list" where
  "JobEvent_indexes = [
       \<lparr>i_name = ''ix_job_events_job_seq'', i_table = ''job_events'', i_columns = [(''job_id'', False), (''sequence_no'', False)],
         i_unique = False, i_where = None\<rparr>]"

definition ComfyWorker_table :: table where
  "ComfyWorker_table = \<lparr>t_name = ''comfy_workers'', t_columns = [
      uuid_pk, col ''name'' SQL_String, col ''endpoint_ref'' SQL_String, def_col ''status'' SQL_String ''offline'',
      def_col ''capabilities'' SQL_JSONB ''{}'', def_col ''max_slots'' SQL_Integer ''1'',
      def_col ''reserved_slots'' SQL_Integer ''0'', def_col ''running_slots'' SQL_Integer ''0'',
      opt_col ''last_heartbeat_at'' SQL_Timestamptz, opt_col ''draining_at'' SQL_Timestamptz,
      def_col ''recent_failure_count'' SQL_Integer ''0'', opt_col ''recent_failure_window_started_at'' SQL_Timestamptz],
    t_checks = [(''ck_comfy_workers_status'', Is_In ''status'' [''online'', ''draining'', ''offline'']),
      (''ck_reserved_slots'', Slots_Within ''reserved_slots'' ''max_slots''),
      (''ck_running_slots'', Slots_Within ''running_slots'' ''max_slots'')],
    t_uniques = [(None, [''name''])]\<rparr>"

definition Asset_table :: table where
  "Asset_table = \<lparr>t_name = ''assets'', t_columns = [
      uuid_pk, foreign ''job_id'' ''generation_jobs'' CASCADE, foreign ''owner_user_id'' ''users'' CASCADE,
      col ''kind'' SQL_String, col ''object_key'' SQL_String, col ''mime_type'' SQL_String,
      col ''byte_size'' SQL_BigInteger, col ''sha256'' SQL_String, opt_col ''width'' SQL_Integer,
      opt_col ''height'' SQL_Integer, now_col ''created_at'', opt_col ''deleted_at'' SQL_Timestamptz],
    t_checks = [],
    t_uniques = [(None, [''object_key''])]\<rparr>"

definition Asset_indexes :: "index list" where
  "Asset_indexes = [
       \<lparr>i_name = ''ix_assets_owner'', i_table = ''assets'', i_columns = [(''owner_user_id'', False), (''created_at'', True)],
         i_unique = False, i_where = None\<rparr>]"

definition PendingAction_table :: table where
  "PendingAction_table = \<lparr>t_name = ''pending_actions'', t_columns = [
      uuid_pk, foreign ''user_id'' ''users'' CASCADE, foreign ''conversation_id'' ''conversations'' CASCADE,
      col ''action_type'' SQL_String, def_col ''billing_category'' SQL_String ''paid'',
      col ''normalized_params'' SQL_JSONB, col ''params_fingerprint'' SQL_String,
      def_col ''status'' SQL_String ''pending'', col ''expires_at'' SQL_Timestamptz, now_col ''created_at'',
      opt_col ''consumed_at'' SQL_Timestamptz, opt_col ''resulting_job_id'' SQL_String],
    t_checks = [(''ck_pending_actions_action_type'', Is_In ''action_type'' [''poster'', ''infographic'']),
      (''ck_pending_actions_billing'', Is_In ''billing_category'' [''local'', ''paid'']),
      (''ck_pending_actions_status'', Is_In ''status'' [''pending'', ''confirmed'', ''cancelled'', ''expired''])],
    t_uniques = []\<rparr>"

definition PendingAction_indexes :: "index list" where
  "PendingAction_indexes = [
       \<lparr>i_name = ''ix_pending_actions_user_status'', i_table = ''pending_actions'', i_columns = [(''user_id'', False), (''status'', False)],
         i_unique = False, i_where = None\<rparr>,
       \<lparr>i_name = ''ix_pending_actions_conversation_pending'', i_table = ''pending_actions'', i_columns = [(''conversation_id'', False)],
         i_unique = False, i_where = Some (Is_In ''status'' [''pending''])\<rparr>]"

definition SchedulerLease_table :: table where
  "SchedulerLease_table = \<lparr>t_name = ''scheduler_leases'', t_columns = [
      uuid_pk, col ''lease_name'' SQL_String, col ''holder'' SQL_String,
      def_col ''fencing_token'' SQL_BigInteger ''0'', col ''expires_at'' SQL_Timestamptz, now_col ''updated_at''],
    t_checks = [],
    t_uniques = [(None, [''lease_name''])]\<rparr>"

definition MODEL_TABLES :: "table list" where
  "MODEL_TABLES = [
      User_table, AuthSession_table, ApiKey_table, Conversation_table, ChatMessage_table, GenerationJob_table,
      JobAttempt_table, JobEvent_table, ComfyWorker_table, Asset_table, PendingAction_table, SchedulerLease_table]"

definition MODEL_INDEXES :: "index list" where
  "MODEL_INDEXES =
     AuthSession_indexes @
     ApiKey_indexes @
     Conversation_indexes @
     ChatMessage_indexes @
     GenerationJob_indexes @
     JobEvent_indexes @
     Asset_indexes @
     PendingAction_indexes"

subsection \<open>The walk along the revisions\<close>

record revision =
  rv_revision :: string
  rv_down_revision :: "string option"
  rv_upgrade :: "ddl list"
  rv_downgrade :: "ddl list"

definition REVISIONS :: "revision list" where
  "REVISIONS =
    [\<lparr>rv_revision = ''0001'', rv_down_revision = None, rv_upgrade = upgrade_1, rv_downgrade = downgrade_1\<rparr>,
     \<lparr>rv_revision = ''0002'', rv_down_revision = Some ''0001'', rv_upgrade = upgrade_2, rv_downgrade = downgrade_2\<rparr>,
     \<lparr>rv_revision = ''0003'', rv_down_revision = Some ''0002'', rv_upgrade = upgrade_3, rv_downgrade = downgrade_3\<rparr>]"

text \<open>A database is the revision it is at and its schema. One step up applies the revision that names
  the present one as its predecessor, one step down undoes the present one; at either end there is
  nothing to do.\<close>

definition step_up :: "string option \<times> schema \<Rightarrow> ddl_error + string option \<times> schema" where
  "step_up = (\<lambda>(cur, S). case find (\<lambda>r. rv_down_revision r = cur) REVISIONS of
     None \<Rightarrow> Inr (cur, S)
   | Some r \<Rightarrow> map_sum id (\<lambda>S'. (Some (rv_revision r), S')) (run_ddl (rv_upgrade r) S))"

definition step_down :: "string option \<times> schema \<Rightarrow> ddl_error + string option \<times> schema" where
  "step_down = (\<lambda>(cur, S). case find (\<lambda>r. Some (rv_revision r) = cur) REVISIONS of
     None \<Rightarrow> Inr (cur, S)
   | Some r \<Rightarrow> map_sum id (\<lambda>S'. (rv_down_revision r, S')) (run_ddl (rv_downgrade r) S))"

subsection \<open>The schema of each revision\<close>

definition schema_1 :: schema where
  "schema_1 = \<lparr>s_extensions = [''pgcrypto'', ''citext''],
     s_tables = [created_users, created_auth_sessions, created_conversations, created_chat_messages,
       created_comfy_workers, created_generation_jobs, created_job_attempts, created_job_events, created_assets,
       created_scheduler_leases],
     s_indexes = [ix_auth_sessions_user_expires, ix_auth_sessions_active, ix_conversations_user_updated,
       uq_chat_messages_conv_client_id, ix_chat_messages_conv_seq, ix_generation_jobs_queue,
       ix_generation_jobs_user_history, ix_generation_jobs_conversation_history, ix_job_events_job_seq,
       ix_assets_owner]\<rparr>"

definition schema_2 :: schema where
  "schema_2 = schema_1\<lparr>s_tables := s_tables schema_1 @ [created_pending_actions],
     s_indexes := s_indexes schema_1 @ [ix_pending_actions_user_status, ix_pending_actions_conversation_pending]\<rparr>"

definition schema_3 :: schema where
  "schema_3 = alter_table ''conversations''
     (\<lambda>t. t\<lparr>t_columns := t_columns t @ [opt_col ''external_ref'' SQL_String]\<rparr>)
     (schema_2\<lparr>s_tables := s_tables schema_2 @ [created_api_keys],
        s_indexes := s_indexes schema_2 @ [ix_api_keys_user, ix_api_keys_active, uq_conversations_user_external_ref]\<rparr>)"

definition schema_0 :: schema where
  "schema_0 = empty_schema\<lparr>s_extensions := [''pgcrypto'', ''citext'']\<rparr>"

lemma upgrade_1_result: "run_ddl upgrade_1 empty_schema = Inr schema_1"
  by code_simp

lemma downgrade_1_result: "run_ddl downgrade_1 schema_1 = Inr schema_0"
  by code_simp

lemma upgrade_2_result: "run_ddl upgrade_2 schema_1 = Inr schema_2"
  by code_simp

lemma upgrade_1_again: "run_ddl upgrade_1 schema_0 = Inr schema_1"
  by code_simp

lemma downgrade_2_result: "run_ddl downgrade_2 schema_2 = Inr schema_1"
  by code_simp

lemma upgrade_3_result: "run_ddl upgrade_3 schema_2 = Inr schema_3"
  by code_simp

lemma downgrade_3_result: "run_ddl downgrade_3 schema_3 = Inr schema_2"
  by code_simp

lemma revision_simps:
  "step_up (None, S) = map_sum id (\<lambda>S'. (Some ''0001'', S')) (run_ddl upgrade_1 S)"
  "step_up (Some ''0001'', S) = map_sum id (\<lambda>S'. (Some ''0002'', S')) (run_ddl upgrade_2 S)"
  "step_up (Some ''0002'', S) = map_sum id (\<lambda>S'. (Some ''0003'', S')) (run_ddl upgrade_3 S)"
  "step_up (Some ''0003'', S) = Inr (Some ''0003'', S)"
  "step_down (None, S) = Inr (None, S)"
  "step_down (Some ''0001'', S) = map_sum id (\<lambda>S'. (None, S')) (run_ddl downgrade_1 S)"
  "step_down (Some ''0002'', S) = map_sum id (\<lambda>S'. (Some ''0001'', S')) (run_ddl downgrade_2 S)"
  "step_down (Some ''0003'', S) = map_sum id (\<lambda>S'. (Some ''0002'', S')) (run_ddl downgrade_3 S)"
  by (simp_all add: step_up_def step_down_def REVISIONS_def)

lemmas step_results = revision_simps upgrade_1_result upgrade_1_again upgrade_2_result upgrade_3_result
  downgrade_1_result downgrade_2_result downgrade_3_result

lemma base_simps:
  "s_tables empty_schema = []" "s_indexes empty_schema = []" "s_tables schema_0 = []" "s_indexes schema_0 = []"
  by (simp_all add: schema_0_def empty_schema_def)

subsection \<open>Properties\<close>

text \<open>The databases that upgrades and downgrades, in any order, make from an empty one.\<close>

inductive migrated :: "string option \<times> schema \<Rightarrow> bool" where
  migrated_empty: "migrated (None, empty_schema)"
| migrated_up: "migrated d \<Longrightarrow> step_up d = Inr d' \<Longrightarrow> migrated d'"
| migrated_down: "migrated d \<Longrightarrow> step_down d = Inr d' \<Longrightarrow> migrated d'"

definition expected :: "string option \<Rightarrow> schema" where
  "expected cur = (if cur = Some ''0001'' then schema_1 else if cur = Some ''0002'' then schema_2
     else if cur = Some ''0003'' then schema_3 else schema_0)"

lemma migrated_states:
  "migrated d \<Longrightarrow> d \<in> {(None, empty_schema), (None, schema_0), (Some ''0001'', schema_1), (Some ''0002'', schema_2), (Some ''0003'', schema_3)}"
  by (induction rule: migrated.induct) (auto simp: step_results)



text \<open>Two tables that hold the same: the position of a column and the name of a unique constraint
  do not matter. Lists are compared as sets of entries of equal number.\<close>

definition same_entries :: "'a list \<Rightarrow> 'a list \<Rightarrow> bool" where
  "same_entries xs ys \<longleftrightarrow> length xs = length ys \<and> list_all (\<lambda>x. x \<in> set ys) xs \<and> list_all (\<lambda>y. y \<in> set xs) ys"

definition same_table :: "table \<Rightarrow> table \<Rightarrow> bool" where
  "same_table t u \<longleftrightarrow> t_name t = t_name u \<and> same_entries (t_columns t) (t_columns u) \<and>
     same_entries (t_checks t) (t_checks u) \<and> same_entries (map snd (t_uniques t)) (map snd (t_uniques u))"

definition same_tables :: "table list \<Rightarrow> table list \<Rightarrow> bool" where
  "same_tables ts us \<longleftrightarrow> length ts = length us \<and> list_all (\<lambda>t. list_ex (same_table t) us) ts \<and>
     list_all (\<lambda>u. list_ex (\<lambda>t. same_table t u) ts) us"

definition other_indexes :: "string \<Rightarrow> index list \<Rightarrow> index list" where
  "other_indexes n = filter (\<lambda>i. i_name i \<noteq> n)"


end
