(* ===== verification/Table_Constraints.thy ===== *)
theory Table_Constraints
  imports Migrations Postgres_Queue
begin

section \<open>The queue's tables under the migrated schema\<close>

text \<open>
  What the migrations demand of a row, and that the Postgres queue never breaks it: the rows of
  \<open>Postgres_Queue\<close> are written out as rows of SQL values and judged by the schema that
  \<open>Migrations\<close> computes. A column an INSERT leaves out takes its default.
\<close>

subsection \<open>Rows and constraints\<close>

datatype cell = Null | Ref uuid | Text string | Whole int | Real rat | Time time | Document dict

type_synonym row = "(string \<times> cell) list"

fun fits :: "sql_type \<Rightarrow> cell \<Rightarrow> bool" where
  "fits ty Null = True"
| "fits ty (Ref i) = (ty = SQL_UUID)"
| "fits ty (Text s) = (ty \<in> {SQL_String, SQL_CITEXT})"
| "fits ty (Whole n) = (ty \<in> {SQL_Integer, SQL_BigInteger})"
| "fits ty (Real q) = (ty = SQL_Float)"
| "fits ty (Time t) = (ty = SQL_Timestamptz)"
| "fits ty (Document d) = (ty = SQL_JSONB)"

definition cell_of :: "row \<Rightarrow> string \<Rightarrow> cell" where
  "cell_of r c = (case map_of r c of Some v \<Rightarrow> v | None \<Rightarrow> Null)"

text \<open>A check is passed unless it is false: on NULL it is unknown.\<close>

fun passes :: "row \<Rightarrow> sql_condition \<Rightarrow> bool" where
  "passes r (Is_Null c) = (cell_of r c = Null)"
| "passes r (Is_Not_Null c) = (cell_of r c \<noteq> Null)"
| "passes r (Is_In c vs) = (case cell_of r c of Null \<Rightarrow> True | Text s \<Rightarrow> s \<in> set vs | _ \<Rightarrow> False)"
| "passes r (Slots_Within a b) = (case (cell_of r a, cell_of r b) of
     (Whole x, Whole y) \<Rightarrow> 0 \<le> x \<and> x \<le> y | (Whole x, _) \<Rightarrow> 0 \<le> x | _ \<Rightarrow> True)"

definition column_ok :: "(string \<Rightarrow> uuid \<Rightarrow> bool) \<Rightarrow> row \<Rightarrow> column \<Rightarrow> bool" where
  "column_ok keys r c \<longleftrightarrow>
     (case map_of r (c_name c) of
        None \<Rightarrow> c_nullable c \<or> c_default c \<noteq> None
      | Some v \<Rightarrow> fits (c_type c) v \<and> (c_nullable c \<or> v \<noteq> Null) \<and>
          (case (c_references c, v) of (Some (target, _), Ref i) \<Rightarrow> keys target i | _ \<Rightarrow> True))"

definition row_ok :: "(string \<Rightarrow> uuid \<Rightarrow> bool) \<Rightarrow> table \<Rightarrow> row \<Rightarrow> bool" where
  "row_ok keys t r \<longleftrightarrow> list_all (column_ok keys r) (t_columns t) \<and>
     list_all (\<lambda>c. c \<in> c_name ` set (t_columns t)) (map fst r) \<and>
     list_all (\<lambda>k. passes r (snd k)) (t_checks t)"

definition unique_keys :: "schema \<Rightarrow> table \<Rightarrow> string list list" where
  "unique_keys S t = map (\<lambda>c. [c_name c]) (filter c_primary_key (t_columns t)) @ map snd (t_uniques t) @
     map (\<lambda>i. map fst (i_columns i)) (filter (\<lambda>i. i_table i = t_name t \<and> i_unique i) (s_indexes S))"

definition unique_on :: "string list \<Rightarrow> row list \<Rightarrow> bool" where
  "unique_on cs rows = distinct (filter (\<lambda>k. Null \<notin> set k) (map (\<lambda>r. map (cell_of r) cs) rows))"

definition table_ok :: "schema \<Rightarrow> (string \<Rightarrow> uuid \<Rightarrow> bool) \<Rightarrow> string \<Rightarrow> row list \<Rightarrow> bool" where
  "table_ok S keys n rows =
     (case table_named n S of
        None \<Rightarrow> False
      | Some t \<Rightarrow> list_all (row_ok keys t) rows \<and> list_all (\<lambda>cs. unique_on cs rows) (unique_keys S t))"

subsection \<open>The rows of the queue\<close>

definition opt_cell :: "('a \<Rightarrow> cell) \<Rightarrow> 'a option \<Rightarrow> cell" where
  "opt_cell f x = (case x of None \<Rightarrow> Null | Some v \<Rightarrow> f v)"

definition job_cells :: "gen_row \<Rightarrow> row" where
  "job_cells g = [(''id'', Ref (g_id g)), (''user_id'', Ref (g_user_id g)),
     (''conversation_id'', opt_cell Ref (g_conversation_id g)), (''kind'', Text (g_kind g)),
     (''model_family'', Text (g_model_family g)), (''workflow_version'', Text (g_workflow_version g)),
     (''state'', Text (state_str (g_state g))), (''priority'', Whole (g_priority g)),
     (''effective_priority'', Real (g_effective_priority g)), (''idempotency_key'', Text (g_idempotency_key g)),
     (''input_payload'', Document (g_input_payload g)), (''assigned_worker_id'', opt_cell Ref (g_assigned_worker_id g)),
     (''current_attempt'', Whole (g_current_attempt g)), (''max_attempts'', Whole (g_max_attempts g)),
     (''queued_at'', Time (g_queued_at g)), (''available_at'', Time (g_available_at g)),
     (''started_at'', opt_cell Time (g_started_at g)), (''finished_at'', opt_cell Time (g_finished_at g)),
     (''cancel_requested_at'', opt_cell Time (g_cancel_requested_at g)), (''error_code'', opt_cell Text (g_error_code g)),
     (''error_detail_sanitized'', opt_cell Text (g_error_detail_sanitized g))]"

definition attempt_cells :: "attempt_row \<Rightarrow> row" where
  "attempt_cells a = [(''job_id'', Ref (a_job_id a)), (''attempt_no'', Whole (a_attempt_no a)),
     (''state'', Text (a_state a)), (''lease_owner'', Text (a_lease_owner a)),
     (''lease_expires_at'', Time (a_lease_expires_at a)), (''comfy_prompt_id'', opt_cell Text (a_comfy_prompt_id a)),
     (''submitted_at'', Time (a_submitted_at a)), (''finished_at'', opt_cell Time (a_finished_at a)),
     (''error_code'', opt_cell Text (a_error_code a)), (''metrics'', Document (a_metrics a))]"

definition event_cells :: "event_row \<Rightarrow> row" where
  "event_cells e = [(''job_id'', Ref (e_job_id e)), (''sequence_no'', Whole (e_sequence_no e)),
     (''event_type'', Text (e_event_type e)), (''payload'', Document (e_payload e))]"

text \<open>The rows a foreign key of the three tables can refer to. No operation of the queue sets a
  worker or a request message.\<close>

definition known_keys :: "pg_db \<Rightarrow> string \<Rightarrow> uuid \<Rightarrow> bool" where
  "known_keys db target i \<longleftrightarrow>
     (if target = ''users'' then i \<in> set (known_users db)
      else if target = ''conversations'' then i \<in> set (known_conversations db)
      else target = ''generation_jobs'' \<and> i \<in> g_id ` set (generation_jobs db))"

definition obeys :: "schema \<Rightarrow> pg_db \<Rightarrow> bool" where
  "obeys S db \<longleftrightarrow> table_ok S (known_keys db) ''generation_jobs'' (map job_cells (generation_jobs db)) \<and>
     table_ok S (known_keys db) ''job_attempts'' (map attempt_cells (job_attempts db)) \<and>
     table_ok S (known_keys db) ''job_events'' (map event_cells (job_events db))"

subsection \<open>What the schema demands of the queue\<close>

lemma tables_named:
  "table_named ''generation_jobs'' schema_3 = Some created_generation_jobs"
  "table_named ''job_attempts'' schema_3 = Some created_job_attempts"
  "table_named ''job_events'' schema_3 = Some created_job_events"
  by code_simp+

lemma keys_of_tables:
  "unique_keys schema_3 created_generation_jobs = [[''id''], [''user_id'', ''idempotency_key'', ''kind'']]"
  "unique_keys schema_3 created_job_attempts = [[''id''], [''job_id'', ''attempt_no'']]"
  "unique_keys schema_3 created_job_events = [[''id''], [''job_id'', ''sequence_no'']]"
  by code_simp+

definition known_state :: "job_state \<Rightarrow> bool" where
  "known_state st \<longleftrightarrow> state_str st \<in> set [''queued'', ''admitted'', ''dispatched'', ''running'', ''retry_wait'',
     ''cancelling'', ''cancelled'', ''succeeded'', ''failed'']"

lemmas column_forms = uuid_pk_def now_col_def col_def opt_col_def def_col_def foreign_def opt_foreign_def

lemma opt_cell_cases:
  "(case opt_cell f x of Null \<Rightarrow> a | Ref i \<Rightarrow> b i | Text s \<Rightarrow> c s | Whole n \<Rightarrow> d n | Real q \<Rightarrow> e q | Time tm \<Rightarrow> g tm | Document dd \<Rightarrow> h dd) =
   (case x of None \<Rightarrow> a | Some v \<Rightarrow> (case f v of Null \<Rightarrow> a | Ref i \<Rightarrow> b i | Text s \<Rightarrow> c s | Whole n \<Rightarrow> d n | Real q \<Rightarrow> e q | Time tm \<Rightarrow> g tm | Document dd \<Rightarrow> h dd))"
  by (simp add: opt_cell_def split: option.splits)

lemma fits_opt_cell [simp]:
  "fits ty (opt_cell Ref x) \<longleftrightarrow> x = None \<or> ty = SQL_UUID" "fits ty (opt_cell Text y) \<longleftrightarrow> y = None \<or> ty \<in> {SQL_String, SQL_CITEXT}"
  "fits ty (opt_cell Time z) \<longleftrightarrow> z = None \<or> ty = SQL_Timestamptz"
  by (simp_all add: opt_cell_def split: option.splits)

lemma row_ok_job:
  "row_ok keys created_generation_jobs (job_cells g) \<longleftrightarrow> keys ''users'' (g_user_id g) \<and>
     (\<forall>c. g_conversation_id g = Some c \<longrightarrow> keys ''conversations'' c) \<and>
     (\<forall>w. g_assigned_worker_id g = Some w \<longrightarrow> keys ''comfy_workers'' w) \<and> known_state (g_state g)"
  by (simp add: row_ok_def created_generation_jobs_def job_cells_def column_ok_def column_forms cell_of_def known_state_def opt_cell_cases)
    (auto split: option.splits)

lemma row_ok_attempt:
  "row_ok keys created_job_attempts (attempt_cells a) \<longleftrightarrow> keys ''generation_jobs'' (a_job_id a)"
  by (simp add: row_ok_def created_job_attempts_def attempt_cells_def column_ok_def column_forms opt_cell_cases)

lemma row_ok_event:
  "row_ok keys created_job_events (event_cells e) \<longleftrightarrow> keys ''generation_jobs'' (e_job_id e)"
  by (simp add: row_ok_def created_job_events_def event_cells_def column_ok_def column_forms)

lemma unique_on_iff:
  assumes "\<And>x. map (cell_of (cells x)) cs = enc (key x)" "\<And>k. Null \<notin> set (enc k)" "inj enc"
  shows "unique_on cs (map cells xs) \<longleftrightarrow> distinct (map key xs)"
proof -
  have "map (\<lambda>r. map (cell_of r) cs) (map cells xs) = map enc (map key xs)" by (simp add: assms(1))
  moreover have "filter (\<lambda>k. Null \<notin> set k) (map enc (map key xs)) = map enc (map key xs)"
    using assms(2) by (simp add: filter_id_conv)
  ultimately show ?thesis unfolding unique_on_def using assms(3) by (simp only: distinct_map) (auto intro: inj_on_subset)
qed

lemma unique_on_omitted:
  assumes "\<And>x. cell_of (cells x) c = Null"
  shows "unique_on [c] (map cells xs)"
  using assms by (simp add: unique_on_def filter_empty_conv)

lemma jobs_ok_iff:
  "table_ok schema_3 keys ''generation_jobs'' (map job_cells gs) \<longleftrightarrow>
     (\<forall>g \<in> set gs. keys ''users'' (g_user_id g) \<and> (\<forall>c. g_conversation_id g = Some c \<longrightarrow> keys ''conversations'' c) \<and>
        (\<forall>w. g_assigned_worker_id g = Some w \<longrightarrow> keys ''comfy_workers'' w) \<and> known_state (g_state g)) \<and>
     distinct (map g_id gs) \<and> distinct (map (\<lambda>g. (g_user_id g, g_idempotency_key g, g_kind g)) gs)"
proof -
  have "unique_on [''id''] (map job_cells gs) \<longleftrightarrow> distinct (map g_id gs)"
    by (rule unique_on_iff [where enc = "\<lambda>i. [Ref i]"]) (simp_all add: job_cells_def cell_of_def inj_def)
  moreover have "unique_on [''user_id'', ''idempotency_key'', ''kind''] (map job_cells gs) \<longleftrightarrow>
      distinct (map (\<lambda>g. (g_user_id g, g_idempotency_key g, g_kind g)) gs)"
    by (rule unique_on_iff [where enc = "\<lambda>(u, k, n). [Ref u, Text k, Text n]"])
      (auto simp: job_cells_def cell_of_def inj_def)
  ultimately show ?thesis
    by (simp add: table_ok_def tables_named keys_of_tables list_all_iff row_ok_job)
qed

lemma attempts_ok_iff:
  "table_ok schema_3 keys ''job_attempts'' (map attempt_cells as) \<longleftrightarrow>
     (\<forall>a \<in> set as. keys ''generation_jobs'' (a_job_id a)) \<and> distinct (map (\<lambda>a. (a_job_id a, a_attempt_no a)) as)"
proof -
  have "unique_on [''id''] (map attempt_cells as)"
    by (rule unique_on_omitted) (simp add: attempt_cells_def cell_of_def)
  moreover have "unique_on [''job_id'', ''attempt_no''] (map attempt_cells as) \<longleftrightarrow>
      distinct (map (\<lambda>a. (a_job_id a, a_attempt_no a)) as)"
    by (rule unique_on_iff [where enc = "\<lambda>(i, n). [Ref i, Whole n]"]) (auto simp: attempt_cells_def cell_of_def inj_def)
  ultimately show ?thesis
    by (simp add: table_ok_def tables_named keys_of_tables list_all_iff row_ok_attempt)
qed

lemma events_ok_iff:
  "table_ok schema_3 keys ''job_events'' (map event_cells es) \<longleftrightarrow>
     (\<forall>e \<in> set es. keys ''generation_jobs'' (e_job_id e)) \<and> distinct (map (\<lambda>e. (e_job_id e, e_sequence_no e)) es)"
proof -
  have "unique_on [''id''] (map event_cells es)"
    by (rule unique_on_omitted) (simp add: event_cells_def cell_of_def)
  moreover have "unique_on [''job_id'', ''sequence_no''] (map event_cells es) \<longleftrightarrow>
      distinct (map (\<lambda>e. (e_job_id e, e_sequence_no e)) es)"
    by (rule unique_on_iff [where enc = "\<lambda>(i, n). [Ref i, Whole n]"]) (auto simp: event_cells_def cell_of_def inj_def)
  ultimately show ?thesis
    by (simp add: table_ok_def tables_named keys_of_tables list_all_iff row_ok_event)
qed

text \<open>The constraint of each table, in the terms of the queue.\<close>

definition job_fine :: "pg_db \<Rightarrow> gen_row \<Rightarrow> bool" where
  "job_fine db g \<longleftrightarrow> g_user_id g \<in> set (known_users db) \<and>
     (\<forall>c. g_conversation_id g = Some c \<longrightarrow> c \<in> set (known_conversations db)) \<and>
     g_assigned_worker_id g = None \<and> known_state (g_state g)"

definition job_ids :: "pg_db \<Rightarrow> uuid set" where
  "job_ids db = g_id ` set (generation_jobs db)"

abbreviation idem_key :: "gen_row \<Rightarrow> uuid \<times> string \<times> string" where
  "idem_key g \<equiv> (g_user_id g, g_idempotency_key g, g_kind g)"

lemma known_keys_simps [simp]:
  "known_keys db ''users'' i \<longleftrightarrow> i \<in> set (known_users db)"
  "known_keys db ''conversations'' i \<longleftrightarrow> i \<in> set (known_conversations db)"
  "known_keys db ''generation_jobs'' i \<longleftrightarrow> i \<in> job_ids db"
  "known_keys db ''comfy_workers'' i \<longleftrightarrow> False"
  by (simp_all add: known_keys_def job_ids_def)

lemma obeys_iff:
  "obeys schema_3 db \<longleftrightarrow> (\<forall>g \<in> set (generation_jobs db). job_fine db g) \<and> distinct (map g_id (generation_jobs db)) \<and>
     distinct (map idem_key (generation_jobs db)) \<and>
     (\<forall>a \<in> set (job_attempts db). a_job_id a \<in> job_ids db) \<and>
     distinct (map (\<lambda>a. (a_job_id a, a_attempt_no a)) (job_attempts db)) \<and>
     (\<forall>e \<in> set (job_events db). e_job_id e \<in> job_ids db) \<and>
     distinct (map (\<lambda>e. (e_job_id e, e_sequence_no e)) (job_events db))"
  by (simp add: obeys_def jobs_ok_iff attempts_ok_iff events_ok_iff job_fine_def conj_assoc option.distinct
      not_Some_eq)

subsection \<open>No operation breaks a constraint\<close>

definition quiet :: "(gen_row \<Rightarrow> gen_row) \<Rightarrow> bool" where
  "quiet f \<longleftrightarrow> (\<forall>r. g_id (f r) = g_id r \<and> idem_key (f r) = idem_key r \<and> g_conversation_id (f r) = g_conversation_id r \<and>
     g_assigned_worker_id (f r) = g_assigned_worker_id r \<and> (known_state (g_state r) \<longrightarrow> known_state (g_state (f r))))"

lemma quiet_set:
  "known_state st \<Longrightarrow> quiet (\<lambda>r. r\<lparr>g_state := st\<rparr>)"
  "known_state st \<Longrightarrow> quiet (\<lambda>r. r\<lparr>g_state := st, g_started_at := Some now\<rparr>)"
  "known_state st \<Longrightarrow> quiet (\<lambda>r. r\<lparr>g_state := st, g_finished_at := Some now, g_error_code := c, g_error_detail_sanitized := d\<rparr>)"
  "known_state st \<Longrightarrow> quiet (\<lambda>r. r\<lparr>g_state := st, g_current_attempt := g_current_attempt r + 1, g_error_code := c,
     g_error_detail_sanitized := d, g_available_at := av\<rparr>)"
  "known_state st \<Longrightarrow> quiet (\<lambda>r. r\<lparr>g_state := st, g_cancel_requested_at := Some now, g_finished_at := Some now\<rparr>)"
  by (simp_all add: quiet_def)

lemma known_states [simp]:
  "known_state Queued" "known_state Dispatched" "known_state Running" "known_state RetryWait" "known_state Cancelled"
  "known_state Succeeded" "known_state Failed"
  by (simp_all add: known_state_def)

lemma map_update_where: "(\<And>r. k (f r) = k r) \<Longrightarrow> map k (update_where p f rs) = map k rs"
  by (simp add: update_where_def)

lemma job_ids_simps [simp]:
  "job_ids (append_event i et pl db) = job_ids db" "job_ids (on_latest_attempt i g db) = job_ids db"
  "job_ids (db\<lparr>job_attempts := as\<rparr>) = job_ids db"
  by (simp_all add: job_ids_def append_event_def on_latest_attempt_def Let_def)

lemma job_ids_update: "quiet f \<Longrightarrow> job_ids (update_jobs p f db) = job_ids db"
proof -
  assume "quiet f"
  then have "map g_id (generation_jobs (update_jobs p f db)) = map g_id (generation_jobs db)"
    by (simp add: update_jobs_def map_update_where quiet_def)
  then show ?thesis unfolding job_ids_def using list.set_map by metis
qed

lemma obeys_update:
  assumes "quiet f" "obeys schema_3 db"
  shows "obeys schema_3 (update_jobs p f db)"
proof -
  have maps: "map g_id (generation_jobs (update_jobs p f db)) = map g_id (generation_jobs db)"
    "map idem_key (generation_jobs (update_jobs p f db)) = map idem_key (generation_jobs db)"
    using assms(1) by (simp_all add: update_jobs_def map_update_where quiet_def)
  have "\<forall>g \<in> set (generation_jobs (update_jobs p f db)). job_fine (update_jobs p f db) g"
    using assms by (auto simp: obeys_iff update_jobs_def update_where_def job_fine_def quiet_def)
  with assms(2) maps job_ids_update [OF assms(1), of p db] show ?thesis
    by (simp only: obeys_iff) (simp add: update_jobs_def)
qed

lemma obeys_event:
  assumes "i \<in> job_ids db" "obeys schema_3 db"
  shows "obeys schema_3 (append_event i et pl db)"
proof -
  let ?ns = "map e_sequence_no (filter (\<lambda>e. e_job_id e = i) (job_events db))"
  have "(i, (if ?ns = [] then 0 else Max (set ?ns)) + 1) \<notin> (\<lambda>e. (e_job_id e, e_sequence_no e)) ` set (job_events db)"
  proof
    assume "(i, (if ?ns = [] then 0 else Max (set ?ns)) + 1) \<in> (\<lambda>e. (e_job_id e, e_sequence_no e)) ` set (job_events db)"
    then obtain e where e: "e \<in> set (job_events db)" "e_job_id e = i"
      "e_sequence_no e = (if ?ns = [] then 0 else Max (set ?ns)) + 1" by auto
    from e(1,2) have "e_sequence_no e \<in> set ?ns" by simp
    then have "?ns \<noteq> []" "e_sequence_no e \<le> Max (set ?ns)" by (force, simp only: Max_ge [OF finite_set])
    with e(3) show False by simp
  qed
  with assms show ?thesis by (simp add: obeys_iff append_event_def Let_def job_ids_def job_fine_def)
qed

lemma obeys_attempt:
  assumes "\<And>a. a_job_id (f a) = a_job_id a" "\<And>a. a_attempt_no (f a) = a_attempt_no a" "obeys schema_3 db"
  shows "obeys schema_3 (db\<lparr>job_attempts := update_where p f (job_attempts db)\<rparr>)"
proof -
  have "map (\<lambda>a. (a_job_id a, a_attempt_no a)) (update_where p f (job_attempts db)) =
      map (\<lambda>a. (a_job_id a, a_attempt_no a)) (job_attempts db)"
    using assms(1,2) by (simp add: map_update_where)
  with assms show ?thesis
    by (simp add: obeys_iff job_ids_def job_fine_def) (auto simp: update_where_def)
qed

lemma obeys_latest:
  "(\<And>a. a_job_id (f a) = a_job_id a) \<Longrightarrow> (\<And>a. a_attempt_no (f a) = a_attempt_no a) \<Longrightarrow> obeys schema_3 db \<Longrightarrow>
    obeys schema_3 (on_latest_attempt i f db)"
  unfolding on_latest_attempt_def Let_def by (rule obeys_attempt)

lemma open_row_id: "list_ex (open_row i) (generation_jobs db) \<Longrightarrow> i \<in> job_ids db"
  by (auto simp: list_ex_iff open_row_def job_ids_def)

lemma obeys_finalize:
  assumes "g_id r \<in> job_ids db" "obeys schema_3 db"
  shows "obeys schema_3 (fst (finalize_claimed_row now ow ex r db))" "job_ids (fst (finalize_claimed_row now ow ex r db)) = job_ids db"
proof -
  let ?same = "\<lambda>a. a_job_id a = g_id r \<and> a_attempt_no a = g_current_attempt r + 1"
  let ?new = "\<lparr>a_job_id = g_id r, a_attempt_no = g_current_attempt r + 1, a_state = ''dispatched'', a_lease_owner = ow,
     a_lease_expires_at = ex, a_comfy_prompt_id = None, a_submitted_at = now, a_finished_at = None,
     a_error_code = None, a_metrics = []\<rparr>"
  have "obeys schema_3 (db\<lparr>job_attempts := if list_ex ?same (job_attempts db)
      then update_where ?same (\<lambda>a. a\<lparr>a_lease_owner := ow, a_lease_expires_at := ex\<rparr>) (job_attempts db)
      else job_attempts db @ [?new]\<rparr>)"
  proof (cases "list_ex ?same (job_attempts db)")
    case True
    with obeys_attempt [OF _ _ assms(2), of "\<lambda>a. a\<lparr>a_lease_owner := ow, a_lease_expires_at := ex\<rparr>" ?same]
    show ?thesis by simp
  next
    case False
    with assms show ?thesis by (auto simp: obeys_iff job_ids_def job_fine_def list_ex_iff)
  qed
  then show "obeys schema_3 (fst (finalize_claimed_row now ow ex r db))"
    unfolding finalize_claimed_row_def Let_def fst_conv using assms(1) by (intro obeys_event) simp_all
  show "job_ids (fst (finalize_claimed_row now ow ex r db)) = job_ids db"
    by (simp add: finalize_claimed_row_def Let_def)
qed

lemma obeys_finalize_all:
  assumes "\<forall>r \<in> set rs. g_id r \<in> job_ids db" "obeys schema_3 db"
  shows "obeys schema_3 (fst (finalize_all now ow ex rs db)) \<and> job_ids (fst (finalize_all now ow ex rs db)) = job_ids db"
  using assms
proof (induction rs arbitrary: db)
  case (Cons r rs)
  let ?d = "fst (finalize_claimed_row now ow ex r db)"
  have "g_id r \<in> job_ids db" using Cons.prems(1) by simp
  note step = obeys_finalize [OF this Cons.prems(2), of now ow ex]
  have "\<forall>r \<in> set rs. g_id r \<in> job_ids ?d" using Cons.prems(1) step(2) by simp
  from Cons.IH [OF this step(1)] step(2) show ?case by (simp add: case_prod_unfold)
qed simp

lemma obeys_dispatched:
  assumes "obeys schema_3 db"
  shows "obeys schema_3 (set_dispatched ids db)" "job_ids (set_dispatched ids db) = job_ids db"
  using obeys_update [OF quiet_set(1) assms] job_ids_update [OF quiet_set(1)] by (simp_all add: set_dispatched_def)

lemma obeys_claim_each:
  "obeys schema_3 db \<Longrightarrow> obeys schema_3 (fst (pg_claim_each now locked n kinds maxa ow ex db))"
proof (induction n arbitrary: db)
  case (Suc n)
  show ?case
  proof (cases "pg_next_row now locked kinds maxa db")
    case (Some r)
    then obtain rs where "sort_key (row_key now) (filter (\<lambda>r. claimable now locked kinds r \<and>
        pg_active_of db (g_user_id r) < maxa) (generation_jobs db)) = r # rs"
      by (auto simp: pg_next_row_def split: list.splits)
    from arg_cong [OF this, of set] have "r \<in> set (generation_jobs db)" by auto
    then have "g_id (r\<lparr>g_state := Dispatched\<rparr>) \<in> job_ids (set_dispatched [g_id r] db)"
      using obeys_dispatched(2) [OF Suc.prems] by (simp add: job_ids_def)
    note step = obeys_finalize(1) [OF this obeys_dispatched(1) [OF Suc.prems], of now ow ex]
    from Some Suc.IH [OF step] show ?thesis by (simp add: case_prod_unfold)
  qed (use Suc.prems in simp)
qed simp

lemma obeys_claim: "obeys schema_3 db \<Longrightarrow> obeys schema_3 (fst (pg_claim locked now cap ow secs kinds maxa db))"
proof -
  assume ok: "obeys schema_3 db"
  have "obeys schema_3 (fst (pg_claim_batch now locked cap kinds ow ex db))" for ex
    unfolding pg_claim_batch_def Let_def
    by (rule obeys_finalize_all [THEN conjunct1]) (use obeys_dispatched(1) [OF ok] in \<open>auto simp: job_ids_def\<close>)
  with obeys_claim_each [OF ok] ok show ?thesis by (simp add: pg_claim_def Let_def)
qed

lemma obeys_insert:
  assumes "obeys schema_3 db"
  shows "obeys schema_3 (db\<lparr>generation_jobs := generation_jobs db @ [g]\<rparr>) \<longleftrightarrow>
    job_fine db g \<and> g_id g \<notin> job_ids db \<and> idem_key g \<notin> idem_key ` set (generation_jobs db)"
proof -
  have "job_fine (db\<lparr>generation_jobs := gs\<rparr>) = job_fine db" for gs by (simp add: job_fine_def fun_eq_iff)
  moreover have "job_ids (db\<lparr>generation_jobs := generation_jobs db @ [g]\<rparr>) = insert (g_id g) (job_ids db)"
    by (simp add: job_ids_def)
  moreover have "g_id g \<in> g_id ` set (generation_jobs db) \<longleftrightarrow> g_id g \<in> job_ids db" by (simp add: job_ids_def)
  ultimately show ?thesis using assms unfolding obeys_iff by simp
qed

lemma violates_iff:
  assumes "obeys schema_3 db" "\<And>s. j_state job = OtherState s \<Longrightarrow> \<not> known_state (OtherState s)"
  shows "violates job db \<longleftrightarrow> \<not> obeys schema_3 (db\<lparr>generation_jobs := generation_jobs db @ [inserted_row job mf wv]\<rparr>)"
proof -
  have "known_state (j_state job) \<longleftrightarrow> \<not> (case j_state job of OtherState s \<Rightarrow> True | _ \<Rightarrow> False)"
    using assms(2) by (cases "j_state job") (auto simp: known_state_def)
  moreover have "(\<exists>r \<in> set (generation_jobs db). g_user_id r = j_user_id job \<and>
      g_idempotency_key r = j_idempotency_key job \<and> g_kind r = j_kind job) \<longleftrightarrow>
      (j_user_id job, j_idempotency_key job, j_kind job) \<in> idem_key ` set (generation_jobs db)"
    by (simp add: image_iff) metis
  moreover have "(\<exists>r \<in> set (generation_jobs db). g_id r = j_id job) \<longleftrightarrow> j_id job \<in> job_ids db"
    unfolding job_ids_def by (simp add: image_iff) metis
  ultimately show ?thesis
    unfolding obeys_insert [OF assms(1)] violates_def
    by (simp add: job_fine_def inserted_row_def split: option.split) blast
qed

text \<open>One step of the queue, whichever rows other transactions hold.\<close>

fun canonical_op :: "queue_op \<Rightarrow> bool" where
  "canonical_op (Op_Enqueue now job) = (case j_state job of OtherState s \<Rightarrow> \<not> known_state (OtherState s) | _ \<Rightarrow> True)"
| "canonical_op op1 = True"

lemma obeys_marks:
  assumes "obeys schema_3 db"
  shows "obeys schema_3 (pg_mark_running now i db)" "obeys schema_3 (pg_mark_succeeded now i res db)"
    "obeys schema_3 (pg_mark_failed now i code detail db)" "obeys schema_3 (pg_mark_retry_wait now rnd i code detail delay db)"
    "obeys schema_3 (fst (pg_cancel now i db))" "obeys schema_3 (pg_renew_lease now i secs db)"
    "obeys schema_3 (pg_set_prompt_id i pid db)"
proof -
  have settle: "obeys schema_3 (append_event i et pl (update_latest_attempt now i st fin c m (update_jobs p f db)))"
    if "quiet f" "list_ex (open_row i) (generation_jobs db)" for et pl st fin c m p f
    unfolding update_latest_attempt_def
    by (rule obeys_event) (simp_all add: job_ids_update that open_row_id obeys_latest obeys_update assms)
  show "obeys schema_3 (pg_mark_running now i db)"
    unfolding pg_mark_running_def by (rule obeys_update) (simp_all add: quiet_set assms)
  show "obeys schema_3 (pg_mark_succeeded now i res db)"
    using assms by (simp add: pg_mark_succeeded_def settle quiet_set)
  show "obeys schema_3 (pg_mark_failed now i code detail db)"
    using assms by (simp add: pg_mark_failed_def settle quiet_set)
  show "obeys schema_3 (pg_mark_retry_wait now rnd i code detail delay db)"
    using assms by (simp add: pg_mark_retry_wait_def Let_def settle quiet_set split: option.split)
  show "obeys schema_3 (fst (pg_cancel now i db))"
    using assms by (simp add: pg_cancel_def) (auto intro!: obeys_event obeys_update simp: quiet_set job_ids_update open_row_id)
  show "obeys schema_3 (pg_renew_lease now i secs db)" "obeys schema_3 (pg_set_prompt_id i pid db)"
    unfolding pg_renew_lease_def pg_set_prompt_id_def by (simp_all add: obeys_latest assms)
qed

lemma obeys_enqueue:
  assumes "obeys schema_3 db" "canonical_op (Op_Enqueue now job)" "pg_enqueue now job db = Inr db'"
  shows "obeys schema_3 db'"
proof -
  obtain mf wv where w: "resolve_workflow_defaults (j_kind job) = Inr (mf, wv)" "\<not> violates job db"
    "db' = append_event (j_id job) ''created'' [] (db\<lparr>generation_jobs := generation_jobs db @ [inserted_row job mf wv]\<rparr>)"
    using assms(3) by (auto simp: pg_enqueue_def split: sum.splits if_splits)
  have "\<not> known_state (OtherState s)" if "j_state job = OtherState s" for s using assms(2) that by simp
  from violates_iff [OF assms(1) this, where mf = mf and wv = wv] w(2,3) show ?thesis
    by (auto simp: job_ids_def inserted_row_def intro!: obeys_event)
qed

lemma obeys_step:
  assumes "obeys schema_3 db" "canonical_op op1"
  shows "obeys schema_3 (queue_step (pg_port locked) op1 db)"
  using assms obeys_enqueue [OF assms(1)]
  by (cases op1) (simp_all add: obeys_marks obeys_claim split: sum.split)

subsection \<open>Properties\<close>


definition rejected_job :: queued_job where
  "rejected_job = example_pg_job 1 7 5"


text \<open>C14. Whatever the API, the schedulers and the reconcilers do with the queue, in whatever order and
  with whatever rows locked by others, the three tables obey every constraint of the migrated schema:
  types, NOT NULL, keys, checks and references.\<close>

theorem queue_obeys_schema:
  assumes "obeys schema_3 db" and "\<forall>(locked, op1) \<in> set ops. canonical_op op1"
  shows "obeys schema_3 (fold (\<lambda>(locked, op1). queue_step (pg_port locked) op1) ops db)"
  using assms
proof (induction ops arbitrary: db)
  case (Cons s ops)
  obtain locked op1 where s: "s = (locked, op1)" by (cases s)
  with Cons.prems(2) have "canonical_op op1" by simp
  from Cons.IH [OF obeys_step [OF Cons.prems(1) this, of locked]] Cons.prems(2) show ?case by (simp add: s)
qed simp

theorem queue_obeys_schema_witness:
  "obeys schema_3 (fst (pg_cancel 9 1 (append_event 1 ''created'' []
     (example_db\<lparr>generation_jobs := [inserted_row (example_pg_job 1 7 5) ''sdxl'' ''v1'']\<rparr>))))"
proof -
  let ?ops = "[(\<lambda>_. False, Op_Enqueue 5 (example_pg_job 1 7 5)), (\<lambda>_. True, Op_Cancel 9 1)]"
  have ok: "obeys schema_3 example_db" by (simp add: obeys_iff example_db_def)
  have "\<forall>(locked, op1) \<in> set ?ops. canonical_op op1" by (simp add: example_pg_job_def new_queued_job_def)
  from queue_obeys_schema [OF ok this] show ?thesis by (simp add: example_enqueue del: One_nat_def)
qed

end
